(* ===== verification/Rust_Prelude.thy ===== *)
theory Rust_Prelude
  imports Main
begin

text \<open>
  Shared vocabulary of the development: the parts of Rust's standard library that the crates
  use on strings and results, with the generic lemmas the component theories share.

  A Rust \<open>String\<close>/\<open>&str\<close> is its UTF-8 bytes, one \<open>char\<close> of HOL per byte, so that
  \<open>length\<close> is Rust's \<open>len\<close>. A \<open>Result<T, E>\<close> is the sum \<open>'e + 'a\<close> (\<open>Inl\<close> the
  error) and the \<open>?\<close> operator is \<open>and_then\<close>. A \<open>HashMap\<close> collected from an iterator
  of pairs is \<open>hash_of\<close>, where the last pair of a key wins.
\<close>

named_theorems str_defs \<open>definitions of the string operations, unfolded to evaluate them\<close>
named_theorems result_simps \<open>inversion of successful and failed results\<close>

section \<open>Results\<close>

definition and_then :: "'e + 'a \<Rightarrow> ('a \<Rightarrow> 'e + 'b) \<Rightarrow> 'e + 'b" where
  "and_then r f = (case r of Inl e \<Rightarrow> Inl e | Inr x \<Rightarrow> f x)"

definition map_ok :: "('a \<Rightarrow> 'b) \<Rightarrow> 'e + 'a \<Rightarrow> 'e + 'b" where
  "map_ok f r = (case r of Inl e \<Rightarrow> Inl e | Inr x \<Rightarrow> Inr (f x))"

definition map_err :: "('e \<Rightarrow> 'd) \<Rightarrow> 'e + 'a \<Rightarrow> 'd + 'a" where
  "map_err f r = (case r of Inl e \<Rightarrow> Inl (f e) | Inr x \<Rightarrow> Inr x)"

definition ok_or :: "'e \<Rightarrow> 'a option \<Rightarrow> 'e + 'a" where
  "ok_or e x = (case x of None \<Rightarrow> Inl e | Some v \<Rightarrow> Inr v)"

definition unwrap_or :: "'a \<Rightarrow> 'a option \<Rightarrow> 'a" where
  "unwrap_or d x = (case x of None \<Rightarrow> d | Some v \<Rightarrow> v)"

definition is_ok :: "'e + 'a \<Rightarrow> bool" where
  "is_ok r = (case r of Inl _ \<Rightarrow> False | Inr _ \<Rightarrow> True)"

lemma and_then_simps [simp]:
  "and_then (Inl e) f = Inl e" "and_then (Inr x) f = f x"
  by (simp_all add: and_then_def)

lemma map_ok_simps [simp]:
  "map_ok f (Inl e) = Inl e" "map_ok f (Inr x) = Inr (f x)"
  by (simp_all add: map_ok_def)

lemma map_err_simps [simp]:
  "map_err f (Inl e) = Inl (f e)" "map_err f (Inr x) = Inr x"
  by (simp_all add: map_err_def)

lemma ok_or_simps [simp]:
  "ok_or e None = Inl e" "ok_or e (Some v) = Inr v"
  by (simp_all add: ok_or_def)

lemma unwrap_or_simps [simp]:
  "unwrap_or d None = d" "unwrap_or d (Some v) = v"
  by (simp_all add: unwrap_or_def)

lemma is_ok_simps [simp]: "\<not> is_ok (Inl e)" "is_ok (Inr x)"
  by (simp_all add: is_ok_def)

lemma and_then_Inr [result_simps]:
  "and_then r f = Inr y \<longleftrightarrow> (\<exists>x. r = Inr x \<and> f x = Inr y)"
  by (cases r) auto

lemma and_then_Inl [result_simps]:
  "and_then r f = Inl e \<longleftrightarrow> r = Inl e \<or> (\<exists>x. r = Inr x \<and> f x = Inl e)"
  by (cases r) auto

lemma map_ok_Inr [result_simps]: "map_ok f r = Inr y \<longleftrightarrow> (\<exists>x. r = Inr x \<and> y = f x)"
  by (cases r) auto

lemma map_ok_Inl [result_simps]: "map_ok f r = Inl e \<longleftrightarrow> r = Inl e"
  by (cases r) auto

lemma map_err_Inr [result_simps]: "map_err f r = Inr y \<longleftrightarrow> r = Inr y"
  by (cases r) auto

lemma map_err_Inl [result_simps]: "map_err f r = Inl d \<longleftrightarrow> (\<exists>e. r = Inl e \<and> d = f e)"
  by (cases r) auto

lemma ok_or_Inr [result_simps]: "ok_or e x = Inr v \<longleftrightarrow> x = Some v"
  by (cases x) auto

lemma ok_or_Inl [result_simps]: "ok_or e x = Inl d \<longleftrightarrow> x = None \<and> d = e"
  by (cases x) auto

text \<open>\<open>iter.collect::<Result<Vec<_>, _>>()\<close>, or a loop that stops at the first \<open>?\<close>.\<close>

fun traverse :: "('a \<Rightarrow> 'e + 'b) \<Rightarrow> 'a list \<Rightarrow> 'e + 'b list" where
  "traverse f [] = Inr []"
| "traverse f (x # xs) = and_then (f x) (\<lambda>y. map_ok (Cons y) (traverse f xs))"

lemma list_all2_right: "list_all2 R xs ys \<Longrightarrow> y \<in> set ys \<Longrightarrow> \<exists>x \<in> set xs. R x y"
  by (induction rule: list_all2_induct) auto

lemma list_all2_left: "list_all2 R xs ys \<Longrightarrow> x \<in> set xs \<Longrightarrow> \<exists>y \<in> set ys. R x y"
  by (induction rule: list_all2_induct) auto

lemma traverse_Inr:
  "traverse f xs = Inr ys \<longleftrightarrow> list_all2 (\<lambda>x y. f x = Inr y) xs ys"
proof (induction xs arbitrary: ys)
  case Nil
  then show ?case by auto
next
  case (Cons x xs)
  then show ?case by (cases ys) (auto simp: result_simps)
qed

lemma traverse_Inl_ex: "traverse f xs = Inl e \<Longrightarrow> \<exists>x \<in> set xs. f x = Inl e"
  by (induction xs) (auto simp: result_simps)

section \<open>Maps\<close>

text \<open>\<open>iter.collect::<HashMap<_, _>>()\<close>: a later pair replaces an earlier one.\<close>

definition hash_of :: "('k \<times> 'v) list \<Rightarrow> 'k \<Rightarrow> 'v option" where
  "hash_of kvs = map_of (rev kvs)"

lemma hash_of_Nil [simp]: "hash_of [] k = None"
  by (simp add: hash_of_def)

lemma hash_of_SomeD: "hash_of kvs k = Some v \<Longrightarrow> (k, v) \<in> set kvs"
  unfolding hash_of_def by (drule map_of_SomeD) simp

lemma hash_of_None: "hash_of kvs k = None \<longleftrightarrow> k \<notin> fst ` set kvs"
  by (simp add: hash_of_def map_of_eq_None_iff)

lemma hash_of_in: "(k, v) \<in> set kvs \<Longrightarrow> \<exists>w. hash_of kvs k = Some w"
  using hash_of_None [of kvs k] by force

lemma hash_of_distinct:
  assumes "distinct (map fst kvs)"
  shows "hash_of kvs = map_of kvs"
proof
  fix k
  show "hash_of kvs k = map_of kvs k"
  proof (cases "hash_of kvs k")
    case None
    then show ?thesis by (metis hash_of_None map_of_eq_None_iff)
  next
    case (Some v)
    with hash_of_SomeD [OF Some] assms show ?thesis by simp
  qed
qed

lemma hash_of_inj:
  assumes "inj_on key (set xs)" and "x \<in> set xs"
  shows "hash_of (map (\<lambda>y. (key y, y)) xs) (key x) = Some x"
proof -
  have "hash_of (map (\<lambda>y. (key y, y)) xs) (key x) \<noteq> None"
    using assms(2) by (auto simp: hash_of_None image_image)
  then obtain y where y: "hash_of (map (\<lambda>y. (key y, y)) xs) (key x) = Some y" by blast
  from hash_of_SomeD [OF y] have "y \<in> set xs" "key y = key x" by auto
  with assms have "y = x" by (auto dest: inj_onD)
  with y show ?thesis by simp
qed

section \<open>Strings\<close>

definition starts_with :: "string \<Rightarrow> string \<Rightarrow> bool" where
  "starts_with s p = (take (length p) s = p)"

definition ends_with :: "string \<Rightarrow> string \<Rightarrow> bool" where
  "ends_with s p = (p = drop (length s - length p) s)"

definition strip_prefix :: "string \<Rightarrow> string \<Rightarrow> string option" where
  "strip_prefix p s = (if starts_with s p then Some (drop (length p) s) else None)"

definition strip_suffix :: "string \<Rightarrow> string \<Rightarrow> string option" where
  "strip_suffix p s = (if ends_with s p then Some (take (length s - length p) s) else None)"

text \<open>\<open>str::split_once(c)\<close>: around the FIRST occurrence.\<close>

fun split_once :: "char \<Rightarrow> string \<Rightarrow> (string \<times> string) option" where
  "split_once c [] = None"
| "split_once c (x # xs) =
     (if x = c then Some ([], xs)
      else map_option (\<lambda>(a, b). (x # a, b)) (split_once c xs))"

lemma split_once_append: "c \<notin> set a \<Longrightarrow> split_once c (a @ c # b) = Some (a, b)"
  by (induction a) auto

lemma split_once_none: "c \<notin> set a \<Longrightarrow> split_once c a = None"
  by (induction a) auto

lemma split_once_length:
  "split_once c s = Some (a, b) \<Longrightarrow> length s = Suc (length a + length b)"
  by (induction s arbitrary: a) (auto split: if_splits)

text \<open>\<open>str::split(c)\<close>: one piece more than there are separators, never none.\<close>

fun split_char :: "char \<Rightarrow> string \<Rightarrow> string list" where
  "split_char c [] = [[]]"
| "split_char c (x # xs) =
     (if x = c then [] # split_char c xs
      else (case split_char c xs of [] \<Rightarrow> [[x]] | y # ys \<Rightarrow> (x # y) # ys))"

fun join :: "string \<Rightarrow> string list \<Rightarrow> string" where
  "join sep [] = []"
| "join sep [x] = x"
| "join sep (x # y # zs) = x @ sep @ join sep (y # zs)"

lemma join_split_char [simp]: "join [c] (split_char c s) = s"
proof (induction s)
  case (Cons x xs)
  moreover obtain y ys where "split_char c xs = y # ys"
    by (cases "split_char c xs") (use Cons in \<open>auto\<close>)
  ultimately show ?case by (cases ys) auto
qed simp

lemma split_char_append:
  "c \<notin> set s \<Longrightarrow> split_char c (s @ c # rest) = s # split_char c rest"
  by (induction s) auto

lemma split_char_none: "c \<notin> set s \<Longrightarrow> split_char c s = [s]"
  by (induction s) auto

lemma split_char_join:
  "p \<noteq> [] \<Longrightarrow> \<forall>s \<in> set p. c \<notin> set s \<Longrightarrow> split_char c (join [c] p) = p"
proof (induction "[c]" p rule: join.induct)
  case (3 x y zs)
  then show ?case by (simp add: split_char_append)
qed (auto simp: split_char_none)

definition replace_char :: "char \<Rightarrow> string \<Rightarrow> string \<Rightarrow> string" where
  "replace_char c r s = concat (map (\<lambda>x. if x = c then r else [x]) s)"

text \<open>\<open>s.contains(pat)\<close> and \<open>s.replace(pat, r)\<close> for a non-empty string pattern.\<close>

fun contains :: "string \<Rightarrow> string \<Rightarrow> bool" where
  "contains pat [] = (pat = [])"
| "contains pat (x # xs) = (starts_with (x # xs) pat \<or> contains pat xs)"

function replace_str :: "string \<Rightarrow> string \<Rightarrow> string \<Rightarrow> string" where
  "replace_str pat r [] = []"
| "replace_str pat r (x # xs) =
     (if pat \<noteq> [] \<and> starts_with (x # xs) pat then r @ replace_str pat r (drop (length pat) (x # xs))
      else x # replace_str pat r xs)"
  by pat_completeness auto
termination
  by (relation "measure (\<lambda>(p, r, s). length s)") auto

definition ascii_upper_char :: "char \<Rightarrow> char" where
  "ascii_upper_char c =
     (let n = of_char c :: nat in if 97 \<le> n \<and> n \<le> 122 then char_of (n - 32) else c)"

definition ascii_lower_char :: "char \<Rightarrow> char" where
  "ascii_lower_char c =
     (let n = of_char c :: nat in if 65 \<le> n \<and> n \<le> 90 then char_of (n + 32) else c)"

definition ascii_upper :: "string \<Rightarrow> string" where
  "ascii_upper s = map ascii_upper_char s"

definition ascii_lower :: "string \<Rightarrow> string" where
  "ascii_lower s = map ascii_lower_char s"

definition is_ascii_digit :: "char \<Rightarrow> bool" where
  "is_ascii_digit c = (let n = of_char c :: nat in 48 \<le> n \<and> n \<le> 57)"

definition is_ascii_lower :: "char \<Rightarrow> bool" where
  "is_ascii_lower c = (let n = of_char c :: nat in 97 \<le> n \<and> n \<le> 122)"

definition is_ascii_alnum :: "char \<Rightarrow> bool" where
  "is_ascii_alnum c =
     (let n = of_char c :: nat
      in 48 \<le> n \<and> n \<le> 57 \<or> 65 \<le> n \<and> n \<le> 90 \<or> 97 \<le> n \<and> n \<le> 122)"

text \<open>
  \<open>s.chars()\<close>: a UTF-8 character is a leading byte and its continuation bytes. What Unicode says
  of characters beyond ASCII is the record \<open>unicode\<close>; for ASCII it is written out.
\<close>

definition utf8_cont :: "char \<Rightarrow> bool" where
  "utf8_cont c = (let n = of_char c :: nat in 128 \<le> n \<and> n < 192)"

function chars_of :: "string \<Rightarrow> string list" where
  "chars_of [] = []"
| "chars_of (c # cs) = (c # takeWhile utf8_cont cs) # chars_of (dropWhile utf8_cont cs)"
  by pat_completeness auto
termination
  by (relation "measure length") (auto simp: le_imp_less_Suc length_dropWhile_le)

lemma concat_chars_of [simp]: "concat (chars_of s) = s"
  by (induction s rule: chars_of.induct) auto

record unicode =
  uc_to_uppercase :: "string \<Rightarrow> string"
  uc_is_alphanumeric :: "string \<Rightarrow> bool"
  uc_is_uppercase :: "string \<Rightarrow> bool"

definition to_uppercase :: "unicode \<Rightarrow> string \<Rightarrow> string" where
  "to_uppercase u ch = (case ch of [c] \<Rightarrow> [ascii_upper_char c] | _ \<Rightarrow> uc_to_uppercase u ch)"

definition is_alphanumeric :: "unicode \<Rightarrow> string \<Rightarrow> bool" where
  "is_alphanumeric u ch = (case ch of [c] \<Rightarrow> is_ascii_alnum c | _ \<Rightarrow> uc_is_alphanumeric u ch)"

definition is_uppercase :: "unicode \<Rightarrow> string \<Rightarrow> bool" where
  "is_uppercase u ch =
     (case ch of [c] \<Rightarrow> (let n = of_char c :: nat in 65 \<le> n \<and> n \<le> 90) | _ \<Rightarrow> uc_is_uppercase u ch)"

text \<open>
  \<open>str::trim\<close> strips Unicode \<open>White_Space\<close>: the UTF-8 encodings of its 25 code points. A
  byte string that ends in one of them ends in that character, because UTF-8 is
  self-synchronising.
\<close>

definition white_space :: "string list" where
  "white_space =
     map (\<lambda>n. [char_of (n :: nat)]) [9, 10, 11, 12, 13, 32] @
     map (map char_of)
       [[194, 133], [194, 160], [225, 154, 128 :: nat],
        [226, 128, 128], [226, 128, 129], [226, 128, 130], [226, 128, 131],
        [226, 128, 132], [226, 128, 133], [226, 128, 134], [226, 128, 135],
        [226, 128, 136], [226, 128, 137], [226, 128, 138], [226, 128, 168],
        [226, 128, 169], [226, 128, 175], [226, 129, 159], [227, 128, 128]]"

function trim_start_of :: "string list \<Rightarrow> string \<Rightarrow> string" where
  "trim_start_of ws [] = []"
| "trim_start_of ws (x # xs) =
     (case find (\<lambda>w. w \<noteq> [] \<and> starts_with (x # xs) w) ws of
        None \<Rightarrow> x # xs
      | Some w \<Rightarrow> trim_start_of ws (drop (length w) (x # xs)))"
  by pat_completeness auto
termination
  by (relation "measure (\<lambda>(ws, s). length s)") (auto simp: find_Some_iff)

definition trim_start :: "string \<Rightarrow> string" where
  "trim_start s = trim_start_of white_space s"

definition trim_end :: "string \<Rightarrow> string" where
  "trim_end s = rev (trim_start_of (map rev white_space) (rev s))"

definition trim :: "string \<Rightarrow> string" where
  "trim s = trim_end (trim_start s)"

lemma trim_start_of_keeps:
  assumes "c \<in> set s" "\<forall>w \<in> set ws. c \<notin> set w"
  shows "c \<in> set (trim_start_of ws s)"
  using assms
proof (induction ws s rule: trim_start_of.induct)
  case (2 ws x xs)
  show ?case
  proof (cases "find (\<lambda>w. w \<noteq> [] \<and> starts_with (x # xs) w) ws")
    case None
    with "2.prems" show ?thesis by simp
  next
    case (Some w)
    then have w: "w \<in> set ws" "take (length w) (x # xs) = w"
      by (auto simp: find_Some_iff starts_with_def)
    with "2.prems" have "c \<notin> set (take (length w) (x # xs))" by simp
    with "2.prems"(1) have "c \<in> set (drop (length w) (x # xs))"
      by (metis Un_iff append_take_drop_id set_append)
    with "2.IH" [OF Some] "2.prems"(2) Some show ?thesis by simp
  qed
qed simp

text \<open>A character that is part of no white space survives \<open>trim\<close>.\<close>

lemma trim_keeps:
  assumes "c \<in> set s" "\<forall>w \<in> set white_space. c \<notin> set w"
  shows "c \<in> set (trim s)"
proof -
  have "c \<in> set (trim_start s)" unfolding trim_start_def by (rule trim_start_of_keeps [OF assms])
  with assms(2) show ?thesis unfolding trim_def trim_end_def
    by (simp add: trim_start_of_keeps)
qed

lemma trim_Nil [simp]: "trim [] = []"
  by (simp add: trim_def trim_start_def trim_end_def)

text \<open>A text without a byte of any white space is its own \<open>trim\<close>.\<close>

lemma trim_start_of_id:
  assumes "\<forall>c \<in> set s. \<forall>w \<in> set ws. c \<notin> set w"
  shows "trim_start_of ws s = s"
proof (cases s)
  case (Cons x xs)
  have "\<not> (w \<noteq> [] \<and> starts_with (x # xs) w)" if "w \<in> set ws" for w
    using assms that Cons by (cases w) (auto simp: starts_with_def)
  then have "find (\<lambda>w. w \<noteq> [] \<and> starts_with (x # xs) w) ws = None" by (simp add: find_None_iff)
  with Cons show ?thesis by simp
qed simp

lemma trim_id:
  assumes "\<forall>c \<in> set s. \<forall>w \<in> set white_space. c \<notin> set w"
  shows "trim s = s"
proof -
  have "trim_start_of (map rev white_space) (rev s) = rev s"
    using assms by (intro trim_start_of_id) simp
  then show ?thesis
    using trim_start_of_id [OF assms] by (simp add: trim_def trim_start_def trim_end_def)
qed

definition visible :: "char \<Rightarrow> bool" where
  "visible c = (let n = of_char c :: nat in 33 \<le> n \<and> n \<le> 126)"

lemma white_space_invisible: "\<forall>w \<in> set white_space. \<forall>c \<in> set w. \<not> visible c"
  by (simp add: white_space_def visible_def Let_def)

lemma trim_visible: "\<forall>c \<in> set s. visible c \<Longrightarrow> trim s = s"
  using white_space_invisible by (intro trim_id) blast

definition word_char :: "char \<Rightarrow> bool" where
  "word_char c \<longleftrightarrow> is_ascii_alnum c \<or> c = CHR ''-'' \<or> c = CHR ''_''"

lemma word_char_visible: "word_char c \<Longrightarrow> visible c"
  by (auto simp: word_char_def visible_def is_ascii_alnum_def Let_def)

lemma white_space_not_word: "\<forall>w \<in> set white_space. \<forall>c \<in> set w. \<not> word_char c"
  using white_space_invisible word_char_visible by blast

lemma trim_word: "\<forall>c \<in> set s. word_char c \<Longrightarrow> trim s = s"
  using word_char_visible by (intro trim_visible) blast

lemma trim_space_word:
  assumes "\<forall>c \<in> set s. word_char c"
  shows "trim (CHR '' '' # s) = s"
proof -
  have "CHR '' '' = char_of n \<longleftrightarrow> take_bit 8 n = (32 :: nat)" for n :: nat
    using char_of_eq_iff [of n "CHR '' ''"] by auto
  then have "find (\<lambda>w. w \<noteq> [] \<and> starts_with (CHR '' '' # s) w) white_space = Some [char_of (32 :: nat)]"
    by (simp add: white_space_def starts_with_def)
  then have "trim_start (CHR '' '' # s) = trim_start s" by (simp add: trim_start_def)
  with trim_word [OF assms] show ?thesis by (simp add: trim_def)
qed

text \<open>\<open>trim_start_matches(c)\<close> and \<open>trim_end_matches(c)\<close> for one character.\<close>

definition trim_start_char :: "char \<Rightarrow> string \<Rightarrow> string" where
  "trim_start_char c s = dropWhile (\<lambda>x. x = c) s"

definition trim_end_char :: "char \<Rightarrow> string \<Rightarrow> string" where
  "trim_end_char c s = rev (dropWhile (\<lambda>x. x = c) (rev s))"

text \<open>\<open>ToString\<close> of an integer.\<close>

definition digit_char :: "nat \<Rightarrow> char" where
  "digit_char d = char_of (48 + d)"

fun show_nat :: "nat \<Rightarrow> string" where
  "show_nat n = (if n < 10 then [digit_char n] else show_nat (n div 10) @ [digit_char (n mod 10)])"

declare show_nat.simps [simp del]

definition show_int :: "int \<Rightarrow> string" where
  "show_int i = (if i < 0 then ''-'' @ show_nat (nat (- i)) else show_nat (nat i))"

text \<open>\<open>{:<w$}\<close>: pad on the right with blanks to width \<open>w\<close>, counted in characters.\<close>

definition utf8_chars :: "string \<Rightarrow> nat" where
  "utf8_chars s = length (filter (\<lambda>c. let n = of_char c :: nat in \<not> (128 \<le> n \<and> n < 192)) s)"

definition pad_right :: "nat \<Rightarrow> string \<Rightarrow> string" where
  "pad_right w s = s @ replicate (w - utf8_chars s) (CHR '' '')"

text \<open>
  \<open>{:?}\<close> of a string: quoted, with the escapes of \<open>str::escape_debug\<close> for the ASCII
  characters; a non-ASCII character is copied (Rust copies the printable ones).
\<close>

definition hex_digit :: "nat \<Rightarrow> char" where
  "hex_digit d = (if d < 10 then char_of (48 + d) else char_of (87 + d))"

fun show_hex :: "nat \<Rightarrow> string" where
  "show_hex n = (if n < 16 then [hex_digit n] else show_hex (n div 16) @ [hex_digit (n mod 16)])"

declare show_hex.simps [simp del]

definition escape_debug_char :: "char \<Rightarrow> string" where
  "escape_debug_char c =
     (let n = of_char c :: nat in
      if n = 0 then [CHR 0x5C, CHR ''0'']
      else if n = 9 then [CHR 0x5C, CHR ''t'']
      else if n = 10 then [CHR 0x5C, CHR ''n'']
      else if n = 13 then [CHR 0x5C, CHR ''r'']
      else if n = 34 \<or> n = 92 then [CHR 0x5C, c]
      else if n < 32 \<or> n = 127 then [CHR 0x5C] @ ''u{'' @ show_hex n @ ''}''
      else [c])"

definition debug_str :: "string \<Rightarrow> string" where
  "debug_str s = [CHR 0x22] @ concat (map escape_debug_char s) @ [CHR 0x22]"

definition debug_strs :: "string list \<Rightarrow> string" where
  "debug_strs xs = ''['' @ join '', '' (map debug_str xs) @ '']''"

definition newline :: string where
  "newline = [CHR 0x0A]"

text \<open>The em dash and the ellipsis of the messages, in UTF-8.\<close>

definition em_dash :: string where
  "em_dash = [CHR 0xE2, CHR 0x80, CHR 0x94]"

definition ellipsis :: string where
  "ellipsis = [CHR 0xE2, CHR 0x80, CHR 0xA6]"

lemmas [str_defs] =
  starts_with_def ends_with_def strip_prefix_def strip_suffix_def replace_char_def
  ascii_upper_def ascii_lower_def ascii_upper_char_def ascii_lower_char_def
  trim_start_char_def trim_end_char_def newline_def

end
