(* ===== verification/Config_Schema.thy ===== *)
theory Config_Schema
  imports Rust_Prelude
begin

text \<open>
  The vocabulary of \<open>crates/config\<close>: \<open>path.rs\<close> (a field's position in the config tree and
  the three spellings generated from it), \<open>schema.rs\<close> (what the derive registers per leaf and
  the provenance of a merged value), \<open>refusal.rs\<close> and \<open>deployment.rs\<close>. A \<open>Path\<close> is the
  list of its segments, a struct is a record, an enum a datatype with the source's variants.
\<close>

section \<open>path.rs\<close>

type_synonym cpath = "string list"

definition path_root :: cpath where
  "path_root = []"

definition path_child :: "cpath \<Rightarrow> string \<Rightarrow> cpath" where
  "path_child p name = p @ [name]"

definition path_is_root :: "cpath \<Rightarrow> bool" where
  "path_is_root p = (p = [])"

definition path_leaf :: "cpath \<Rightarrow> string" where
  "path_leaf p = (if p = [] then '''' else last p)"

definition path_section :: "cpath \<Rightarrow> string" where
  "path_section p = (if p = [] then '''' else join ''.'' (butlast p))"

definition path_dotted :: "cpath \<Rightarrow> string" where
  "path_dotted p = join ''.'' p"

definition path_flag :: "cpath \<Rightarrow> string" where
  "path_flag p = ''--'' @ join ''--'' (map (replace_char (CHR ''_'') ''-'') p)"

definition path_env :: "cpath \<Rightarrow> string \<Rightarrow> string" where
  "path_env p app = ascii_upper (app @ ''_'' @ join ''__'' p)"

section \<open>refusal.rs\<close>

record refusal =
  r_variable :: string
  r_value :: string
  r_accepted :: string
  r_detail :: "string option"

definition refusal_new :: "string \<Rightarrow> string \<Rightarrow> string \<Rightarrow> refusal" where
  "refusal_new variable val accepted =
     \<lparr>r_variable = variable, r_value = val, r_accepted = accepted, r_detail = None\<rparr>"

definition with_detail :: "refusal \<Rightarrow> string \<Rightarrow> refusal" where
  "with_detail r d = r\<lparr>r_detail := Some d\<rparr>"

definition refusal_display :: "refusal \<Rightarrow> string" where
  "refusal_display r =
     r_variable r @ ''='' @ debug_str (r_value r) @ '' is not valid '' @ em_dash @ '' expected ''
     @ r_accepted r
     @ (case r_detail r of Some d \<Rightarrow> '' ('' @ d @ '')'' | None \<Rightarrow> '''')"

lemma refusal_new_simps [simp]:
  "r_variable (refusal_new v w a) = v" "r_value (refusal_new v w a) = w"
  "r_accepted (refusal_new v w a) = a" "r_detail (refusal_new v w a) = None"
  by (simp_all add: refusal_new_def)

lemma with_detail_simps [simp]:
  "r_variable (with_detail r d) = r_variable r" "r_value (with_detail r d) = r_value r"
  "r_accepted (with_detail r d) = r_accepted r" "r_detail (with_detail r d) = Some d"
  by (simp_all add: with_detail_def)

section \<open>deployment.rs\<close>

definition DEPLOYMENT_VARIABLE :: string where
  "DEPLOYMENT_VARIABLE = ''DEPLOYMENT_TYPE''"

definition DEPLOYMENT_ACCEPTED :: string where
  "DEPLOYMENT_ACCEPTED = ''one of '' @ debug_strs [''prod'', ''dev'']"

definition DEPLOYMENT_HELP :: string where
  "DEPLOYMENT_HELP =
     ''Deployment class: prod or dev. Sets the default log verbosity; which options are '' @
     ''prod-required or dev-only is the binary's own rule.''"

datatype deployment = Prod | Dev

text \<open>\<open>EnumString\<close> and \<open>Display\<close> from the \<open>#[strum(serialize = ...)]\<close> spellings.\<close>

definition deployment_from_str :: "string \<Rightarrow> deployment option" where
  "deployment_from_str s =
     (if s = ''prod'' then Some Prod else if s = ''dev'' then Some Dev else None)"

fun deployment_str :: "deployment \<Rightarrow> string" where
  "deployment_str Prod = ''prod''"
| "deployment_str Dev = ''dev''"

definition deployment_parse :: "string option \<Rightarrow> refusal + deployment" where
  "deployment_parse val =
     (case val of
        None \<Rightarrow>
          Inl (with_detail (refusal_new DEPLOYMENT_VARIABLE ''unset'' DEPLOYMENT_ACCEPTED)
            ''required and unset'')
      | Some text \<Rightarrow>
          ok_or (refusal_new DEPLOYMENT_VARIABLE text DEPLOYMENT_ACCEPTED)
            (deployment_from_str text))"

section \<open>schema.rs\<close>

datatype presence = Required | Default string | Optional

datatype cclass = Neutral | ProdRequired | DevOnly

datatype ckind = KBool | KText

record cfield =
  fd_path :: cpath
  fd_help :: string
  fd_presence :: presence
  fd_class :: cclass
  fd_secret :: bool
  fd_kind :: ckind
  fd_env :: "string option"

definition field_flag :: "cfield \<Rightarrow> string" where
  "field_flag f = path_flag (fd_path f)"

definition field_env :: "cfield \<Rightarrow> string \<Rightarrow> string" where
  "field_env f app = (case fd_env f of Some name \<Rightarrow> name | None \<Rightarrow> path_env (fd_path f) app)"

definition field_toml :: "cfield \<Rightarrow> string" where
  "field_toml f = path_dotted (fd_path f)"

datatype origin = ODefault | OFile string | OEnv string | OArg string

fun origin_display :: "origin \<Rightarrow> string" where
  "origin_display ODefault = ''default''"
| "origin_display (OFile path) = ''file '' @ path"
| "origin_display (OEnv name) = ''env '' @ name"
| "origin_display (OArg flag) = ''arg '' @ flag"

record centry =
  e_text :: string
  e_origin :: origin

datatype file_status = NotConfigured | ReadFrom string

section \<open>The generated spellings are unambiguous\<close>

text \<open>
  Segments as the schema writes them: a snake-case identifier in lower case with single
  underscores inside. The derive takes the segment from the Rust field's name and checks none
  of this; the lemmas below say what the separator rule needs.
\<close>

definition seg_ok :: "string \<Rightarrow> bool" where
  "seg_ok s \<longleftrightarrow> s \<noteq> [] \<and> last s \<noteq> CHR ''_'' \<and> \<not> contains ''__'' s
     \<and> list_all (\<lambda>c. is_ascii_lower c \<or> is_ascii_digit c \<or> c = CHR ''_'') s"

definition path_ok :: "cpath \<Rightarrow> bool" where
  "path_ok p \<longleftrightarrow> p \<noteq> [] \<and> list_all seg_ok p"

text \<open>Reading a joined spelling back: cut at each doubled separator, from the left.\<close>

fun split_double :: "char \<Rightarrow> string \<Rightarrow> string list" where
  "split_double d [] = [[]]"
| "split_double d [x] = [[x]]"
| "split_double d (x # y # zs) =
     (if x = d \<and> y = d then [] # split_double d zs
      else (case split_double d (y # zs) of [] \<Rightarrow> [[x]] | p # ps \<Rightarrow> (x # p) # ps))"

lemma split_double_nonempty [simp]: "split_double d s \<noteq> []"
  by (induction d s rule: split_double.induct) (auto split: list.splits)

lemma split_double_seg:
  assumes "s \<noteq> []" "last s \<noteq> d" "\<not> contains [d, d] s"
  shows "split_double d (s @ d # d # rest) = s # split_double d rest"
  using assms
proof (induction s)
  case (Cons x s)
  show ?case
  proof (cases s)
    case Nil
    with Cons.prems show ?thesis by simp
  next
    case s: (Cons y ys)
    from Cons.prems s have ne: "\<not> (x = d \<and> y = d)" and c: "\<not> contains [d, d] s"
      by (simp_all add: starts_with_def)
    from Cons.prems(2) s c have "split_double d (s @ d # d # rest) = s # split_double d rest"
      by (intro Cons.IH) simp_all
    with s ne show ?thesis by simp
  qed
qed simp

lemma split_double_last:
  assumes "\<not> contains [d, d] s"
  shows "split_double d s = [s]"
  using assms
proof (induction d s rule: split_double.induct)
  case (3 d x y zs)
  from "3.prems" have "\<not> (x = d \<and> y = d)" "\<not> contains [d, d] (y # zs)"
    by (simp_all add: starts_with_def)
  with "3.IH"(2) show ?case by simp
qed simp_all

lemma split_double_join:
  assumes "p \<noteq> []"
    and "\<forall>s \<in> set p. s \<noteq> [] \<and> last s \<noteq> d \<and> \<not> contains [d, d] s"
  shows "split_double d (join [d, d] p) = p"
  using assms
proof (induction "[d, d]" p rule: join.induct)
  case (3 x y zs)
  then show ?case by (simp add: split_double_seg)
qed (auto simp: split_double_last)

lemma join_double_inj:
  assumes "p \<noteq> []" "q \<noteq> []"
    and "\<forall>s \<in> set p \<union> set q. s \<noteq> [] \<and> last s \<noteq> d \<and> \<not> contains [d, d] s"
    and "join [d, d] p = join [d, d] q"
  shows "p = q"
proof -
  have "split_double d (join [d, d] p) = p"
    by (rule split_double_join) (use assms in auto)
  moreover have "split_double d (join [d, d] q) = q"
    by (rule split_double_join) (use assms in auto)
  ultimately show ?thesis using assms(4) by argo
qed

lemma replace_char_single: "replace_char c [r] s = map (\<lambda>x. if x = c then r else x) s"
  by (induction s) (simp_all add: replace_char_def)

lemma map_inj_eq:
  assumes "map f xs = map f ys" "\<forall>x \<in> set xs \<union> set ys. g (f x) = x"
  shows "xs = ys"
proof -
  have "map g (map f xs) = map g (map f ys)" using assms(1) by simp
  moreover have "map g (map f xs) = xs" "map g (map f ys) = ys"
    using assms(2) by (auto intro: map_idI simp: comp_def)
  ultimately show ?thesis by simp
qed

text \<open>Casing is undone on the characters a segment may have.\<close>

lemma lower_upper_char:
  assumes "is_ascii_lower c \<or> is_ascii_digit c \<or> c = CHR ''_''"
  shows "ascii_lower_char (ascii_upper_char c) = c"
proof -
  have "(of_char c :: nat) = 95" if "c = CHR ''_''" using that by simp
  with assms have "97 \<le> (of_char c :: nat) \<and> (of_char c :: nat) \<le> 122
      \<or> (of_char c :: nat) < 65 \<or> (of_char c :: nat) = 95"
    by (auto simp: is_ascii_lower_def is_ascii_digit_def Let_def)
  then show ?thesis
    by (auto simp: ascii_lower_char_def ascii_upper_char_def Let_def)
qed

lemma seg_ok_chars:
  "seg_ok s \<Longrightarrow> c \<in> set s \<Longrightarrow> is_ascii_lower c \<or> is_ascii_digit c \<or> c = CHR ''_''"
  by (simp add: seg_ok_def list_all_iff)

lemma seg_ok_no_dash: "seg_ok s \<Longrightarrow> CHR ''-'' \<notin> set s"
  using seg_ok_chars [of s "CHR ''-''"] by (auto simp: is_ascii_lower_def is_ascii_digit_def)

lemma dash_char [simp]:
  "CHR ''-'' \<notin> set s \<Longrightarrow> c \<in> set s \<Longrightarrow>
   (if (if c = CHR ''_'' then CHR ''-'' else c) = CHR ''-'' then CHR ''_''
    else (if c = CHR ''_'' then CHR ''-'' else c)) = c"
  by auto

lemma contains_dash:
  "CHR ''-'' \<notin> set s \<Longrightarrow>
   contains ''--'' (replace_char (CHR ''_'') ''-'' s) = contains ''__'' s"
  unfolding replace_char_single
proof (induction s)
  case (Cons x xs)
  then show ?case by (cases xs) (auto simp: starts_with_def)
qed simp

lemma dashed_seg:
  assumes "seg_ok s"
  defines "r \<equiv> replace_char (CHR ''_'') ''-'' s"
  shows "r \<noteq> [] \<and> last r \<noteq> CHR ''-'' \<and> \<not> contains ''--'' r"
proof -
  have nd: "CHR ''-'' \<notin> set s" using assms(1) by (rule seg_ok_no_dash)
  have ne: "s \<noteq> []" "last s \<noteq> CHR ''_''" "\<not> contains ''__'' s"
    using assms(1) by (simp_all add: seg_ok_def)
  have "last s \<noteq> CHR ''-''" using nd ne(1) last_in_set by force
  with ne have "last r \<noteq> CHR ''-''" by (simp add: r_def replace_char_single last_map)
  moreover have "\<not> contains ''--'' r" using contains_dash [OF nd] ne(3) by (simp add: r_def)
  ultimately show ?thesis using ne(1) by (simp add: r_def replace_char_single)
qed

lemma path_flag_inj:
  assumes "path_ok p" "path_ok q" "path_flag p = path_flag q"
  shows "p = q"
proof -
  let ?r = "replace_char (CHR ''_'') ''-''"
  have segs: "\<forall>s \<in> set p \<union> set q. seg_ok s" and ne: "p \<noteq> []" "q \<noteq> []"
    using assms(1,2) by (auto simp: path_ok_def list_all_iff)
  have "map ?r p = map ?r q"
  proof (rule join_double_inj [where d = "CHR ''-''"])
    show "\<forall>s \<in> set (map ?r p) \<union> set (map ?r q).
        s \<noteq> [] \<and> last s \<noteq> CHR ''-'' \<and> \<not> contains ''--'' s"
      using segs dashed_seg by auto
  qed (use ne assms(3) in \<open>simp_all add: path_flag_def\<close>)
  moreover have "\<forall>s \<in> set p \<union> set q. map (\<lambda>x. if x = CHR ''-'' then CHR ''_'' else x) (?r s) = s"
  proof
    fix s assume "s \<in> set p \<union> set q"
    with segs have "CHR ''-'' \<notin> set s" using seg_ok_no_dash by blast
    then show "map (\<lambda>x. if x = CHR ''-'' then CHR ''_'' else x) (?r s) = s"
      unfolding replace_char_single by (auto intro: map_idI)
  qed
  ultimately show ?thesis by (rule map_inj_eq)
qed

lemma join_chars: "set (join sep p) \<subseteq> set sep \<union> (\<Union>s \<in> set p. set s)"
  by (induction sep p rule: join.induct) auto

lemma path_env_inj:
  assumes "path_ok p" "path_ok q" "path_env p app = path_env q app"
  shows "p = q"
proof -
  have segs: "\<forall>s \<in> set p \<union> set q. seg_ok s" and ne: "p \<noteq> []" "q \<noteq> []"
    using assms(1,2) by (auto simp: path_ok_def list_all_iff)
  have up: "map ascii_upper_char (join ''__'' p) = map ascii_upper_char (join ''__'' q)"
    using assms(3) by (simp add: path_env_def ascii_upper_def)
  have "\<forall>c \<in> set (join ''__'' p) \<union> set (join ''__'' q).
      is_ascii_lower c \<or> is_ascii_digit c \<or> c = CHR ''_''"
    using join_chars [of "''__''" p] join_chars [of "''__''" q] segs seg_ok_chars by fastforce
  then have "join ''__'' p = join ''__'' q"
    by (intro map_inj_eq [OF up, of ascii_lower_char]) (blast intro: lower_upper_char)
  then show ?thesis
    using ne segs by (intro join_double_inj [where d = "CHR ''_''"]) (auto simp: seg_ok_def)
qed

text \<open>A dotted key has no dot inside a segment, so cutting at the dots gives the path back.\<close>

lemma seg_ok_no_dot: "seg_ok s \<Longrightarrow> CHR ''.'' \<notin> set s"
  using seg_ok_chars [of s "CHR ''.''"] by (auto simp: is_ascii_lower_def is_ascii_digit_def)

lemma path_dotted_inj:
  assumes "path_ok p" "path_ok q" "path_dotted p = path_dotted q"
  shows "p = q"
proof -
  have "split_char (CHR ''.'') (path_dotted p) = p" "split_char (CHR ''.'') (path_dotted q) = q"
    using assms(1,2) seg_ok_no_dot
    by (auto simp: path_dotted_def path_ok_def list_all_iff intro!: split_char_join)
  with assms(3) show ?thesis by argo
qed

section \<open>Properties\<close>

text \<open>C36: On well-formed paths each of the three generated spellings is unambiguous: two fields
  have the same flag, the same environment variable or the same dotted key only when they are the
  same path of the config tree.\<close>

theorem spellings_unambiguous:
  assumes "path_ok p" "path_ok q"
  shows "((path_flag p = path_flag q) = (p = q))
    \<and> ((path_env p app = path_env q app) = (p = q))
    \<and> ((path_dotted p = path_dotted q) = (p = q))"
  using assms path_flag_inj path_env_inj path_dotted_inj by blast

theorem spellings_unambiguous_witness:
  "path_flag [''log'', ''dir''] \<noteq> path_flag [''log_dir'']
   \<and> path_env [''log'', ''dir''] ''CRON'' \<noteq> path_env [''log_dir''] ''CRON''
   \<and> path_dotted [''log'', ''dir''] \<noteq> path_dotted [''log_dir'']"
proof -
  have "path_ok [''log'', ''dir'']" "path_ok [''log_dir'']" by code_simp+
  from spellings_unambiguous [OF this] show ?thesis by auto
qed

text \<open>\<open>Deployment::parse\<close> reads back exactly what \<open>Display\<close> writes, and nothing else: a value
  is a deployment class only when it is that class's spelling, and unset is refused.\<close>

theorem deployment_round_trip:
  "(deployment_parse val = Inr d) = (val = Some (deployment_str d))"
  by (cases d; cases val)
    (auto simp: deployment_parse_def deployment_from_str_def result_simps)

text \<open>
  Outside well-formed segments the rule fails: a segment with a doubled underscore has the
  spellings of a nested path.
\<close>

lemma doubled_underscore_clash:
  "path_flag [''a__b''] = path_flag [''a'', ''b'']"
  "path_env [''a__b''] app = path_env [''a'', ''b''] app"
  by (simp_all add: path_flag_def path_env_def replace_char_def)

end
