(* ===== verification/Config_Sources.thy ===== *)
theory Config_Sources
  imports Config_Schema
begin

text \<open>
  The four sources of a value and their precedence: \<open>args.rs\<close> (the argv grammar),
  \<open>file.rs\<close> (the optional TOML file) and \<open>layers.rs\<close> (the merge). The file system and the
  \<open>toml\<close> crate are parameters: \<open>read_file\<close> answers a path with the error's text or the
  contents, \<open>parse_toml\<close> a text with the parser's message and span start, or the table in
  the crate's iteration order.
\<close>

section \<open>args.rs\<close>

definition CONFIG_FLAG :: string where "CONFIG_FLAG = ''--config''"
definition HELP_FLAG :: string where "HELP_FLAG = ''--help''"
definition HELP_FLAG_SHORT :: string where "HELP_FLAG_SHORT = ''-h''"
definition PRINT_CONFIG_FLAG :: string where "PRINT_CONFIG_FLAG = ''--print-config''"

record parsed =
  pa_help :: bool
  pa_print_config :: bool
  pa_config :: "string option"
  pa_values :: "(cpath \<times> string \<times> string) list"

definition parsed_default :: parsed where
  "parsed_default = \<lparr>pa_help = False, pa_print_config = False, pa_config = None, pa_values = []\<rparr>"

definition split_token :: "string \<Rightarrow> string \<times> string option" where
  "split_token token =
     (case split_once (CHR ''='') token of
        Some (name, val) \<Rightarrow>
          if starts_with name ''--'' then (name, Some val) else (token, None)
      | None \<Rightarrow> (token, None))"

definition no_value :: "string \<Rightarrow> refusal" where
  "no_value name =
     with_detail
       (refusal_new name '''' (''a value: '' @ name @ ''=<value> or '' @ name @ '' <value>''))
       ''flag given without a value''"

text \<open>The value of a flag and the arguments left: the cursor \<open>i\<close> is the list still to read.\<close>

fun take_value :: "string \<Rightarrow> string option \<Rightarrow> string list \<Rightarrow> refusal + string \<times> string list" where
  "take_value name (Some val) rest = Inr (val, rest)"
| "take_value name None (nxt # rest) =
     (if \<not> starts_with nxt ''--'' then Inr (nxt, rest) else Inl (no_value name))"
| "take_value name None [] = Inl (no_value name)"

lemma take_value_length: "take_value name inline args = Inr (v, rest) \<Longrightarrow> length rest \<le> length args"
  by (induction name inline args rule: take_value.induct) (auto split: if_splits)

definition push_value :: "cfield \<Rightarrow> string \<Rightarrow> string \<Rightarrow> parsed \<Rightarrow> parsed" where
  "push_value f text name p = p\<lparr>pa_values := pa_values p @ [(fd_path f, text, name)]\<rparr>"

function args_loop ::
    "(string \<Rightarrow> cfield option) \<Rightarrow> parsed \<Rightarrow> string list \<Rightarrow> string list
     \<Rightarrow> refusal + parsed \<times> string list" where
  "args_loop by_flag p unknown [] = Inr (p, unknown)"
| "args_loop by_flag p unknown (token # rest) =
     (case split_token token of
        (name, inline) \<Rightarrow>
          if name = HELP_FLAG \<or> name = HELP_FLAG_SHORT
          then args_loop by_flag (p\<lparr>pa_help := True\<rparr>) unknown rest
          else if name = PRINT_CONFIG_FLAG
          then args_loop by_flag (p\<lparr>pa_print_config := True\<rparr>) unknown rest
          else if name = CONFIG_FLAG
          then (case take_value name inline rest of
                  Inl e \<Rightarrow> Inl e
                | Inr (val, rest') \<Rightarrow> args_loop by_flag (p\<lparr>pa_config := Some val\<rparr>) unknown rest')
          else (case by_flag name of
                  Some f \<Rightarrow>
                    if fd_kind f = KBool
                    then args_loop by_flag (push_value f (unwrap_or ''true'' inline) name p) unknown rest
                    else (case take_value name inline rest of
                            Inl e \<Rightarrow> Inl e
                          | Inr (text, rest') \<Rightarrow>
                              args_loop by_flag (push_value f text name p) unknown rest')
                | None \<Rightarrow> args_loop by_flag p (unknown @ [token]) rest))"
  by pat_completeness auto
termination
  by (relation "measure (\<lambda>(b, p, u, args). length args)") (auto dest!: take_value_length)

declare args_loop.simps(2) [simp del]

definition flag_table :: "cfield list \<Rightarrow> string \<Rightarrow> cfield option" where
  "flag_table fds = hash_of (map (\<lambda>f. (field_flag f, f)) fds)"

definition args_parse :: "cfield list \<Rightarrow> string list \<Rightarrow> refusal + parsed" where
  "args_parse fds args =
     and_then (args_loop (flag_table fds) parsed_default [] args)
       (\<lambda>(p, unknown).
          if pa_help p then Inr p
          else if unknown \<noteq> []
          then Inl (with_detail
                 (refusal_new ''arguments'' (join '' '' unknown) (''flags listed by '' @ HELP_FLAG))
                 (''unknown: '' @ join '', '' unknown))
          else Inr p)"

section \<open>file.rs\<close>

text \<open>
  \<open>toml::Value\<close>; a float and a datetime carry the text their \<open>Display\<close> writes.
\<close>

datatype toml =
    TTable "(string \<times> toml) list"
  | TArray "toml list"
  | TString string
  | TInteger int
  | TFloat string
  | TBoolean bool
  | TDatetime string

record found =
  fo_values :: "(cpath \<times> string) list"
  fo_unknown :: "string list"
  fo_non_scalar :: "string list"

definition found_default :: found where
  "found_default = \<lparr>fo_values = [], fo_unknown = [], fo_non_scalar = []\<rparr>"

fun scalar_text :: "toml \<Rightarrow> string option" where
  "scalar_text (TString s) = Some s"
| "scalar_text (TInteger i) = Some (show_int i)"
| "scalar_text (TFloat f) = Some f"
| "scalar_text (TBoolean b) = Some (if b then ''true'' else ''false'')"
| "scalar_text (TDatetime d) = Some d"
| "scalar_text (TTable _) = None"
| "scalar_text (TArray _) = None"

definition toml_key :: "string \<Rightarrow> string \<Rightarrow> string" where
  "toml_key prefix name = (if prefix = [] then name else prefix @ ''.'' @ name)"

definition file_leaf :: "(string \<Rightarrow> cpath option) \<Rightarrow> string \<Rightarrow> toml \<Rightarrow> found \<Rightarrow> found" where
  "file_leaf by_key key v fo =
     (case scalar_text v of
        None \<Rightarrow> fo\<lparr>fo_non_scalar := fo_non_scalar fo @ [key]\<rparr>
      | Some text \<Rightarrow>
          (case by_key key of
             Some path \<Rightarrow> fo\<lparr>fo_values := fo_values fo @ [(path, text)]\<rparr>
           | None \<Rightarrow> fo\<lparr>fo_unknown := fo_unknown fo @ [key]\<rparr>))"

function file_flatten ::
    "(string \<times> toml) list \<Rightarrow> string \<Rightarrow> (string \<Rightarrow> cpath option) \<Rightarrow> found \<Rightarrow> found" where
  "file_flatten [] prefix by_key fo = fo"
| "file_flatten ((name, v) # rest) prefix by_key fo =
     file_flatten rest prefix by_key
       (case v of
          TTable inner \<Rightarrow> file_flatten inner (toml_key prefix name) by_key fo
        | _ \<Rightarrow> file_leaf by_key (toml_key prefix name) v fo)"
  by pat_completeness auto
termination
  by (relation "measure (\<lambda>(t, p, b, fo). size_list (size_prod (\<lambda>_. 0) size) t)") auto

definition key_table :: "cfield list \<Rightarrow> string \<Rightarrow> cpath option" where
  "key_table fds = hash_of (map (\<lambda>f. (field_toml f, fd_path f)) fds)"

text \<open>\<open>text[..start].lines().count()\<close>\<close>

definition line_count :: "string \<Rightarrow> nat" where
  "line_count s =
     length (filter (\<lambda>c. c = CHR 0x0A) s) + (if s = [] \<or> last s = CHR 0x0A then 0 else 1)"

definition file_read ::
    "(string \<Rightarrow> string + string)
     \<Rightarrow> (string \<Rightarrow> (string \<times> nat option) + (string \<times> toml) list)
     \<Rightarrow> cfield list \<Rightarrow> string \<Rightarrow> string \<Rightarrow> refusal + (cpath \<times> string) list" where
  "file_read read_file parse_toml fds source file =
     (case read_file file of
        Inl e \<Rightarrow>
          Inl (with_detail (refusal_new source file ''the path of a readable TOML file'')
            (''cannot read: '' @ e))
      | Inr text \<Rightarrow>
          (case parse_toml text of
             Inl (message, span) \<Rightarrow>
               Inl (with_detail (refusal_new source file ''a well-formed TOML file'')
                 (message @
                  (case span of
                     None \<Rightarrow> ''''
                   | Some start \<Rightarrow>
                       '' (line '' @ show_nat (max (line_count (take start text)) 1) @ '')'')))
           | Inr table \<Rightarrow>
               (let fo = file_flatten table '''' (key_table fds) found_default in
                if fo_non_scalar fo \<noteq> [] then
                  Inl (with_detail
                    (refusal_new source file
                      ''a scalar (string, integer, float, boolean, datetime) for every key'')
                    (''not a scalar: '' @ join '', '' (fo_non_scalar fo)))
                else if fo_unknown fo \<noteq> [] then
                  Inl (with_detail
                    (refusal_new source file (''only the keys listed by '' @ HELP_FLAG))
                    (''unknown keys: '' @ join '', '' (fo_unknown fo)))
                else Inr (fo_values fo))))"

section \<open>layers.rs\<close>

record cvalues =
  v_app :: string
  v_fields :: "cfield list"
  v_entries :: "cpath \<Rightarrow> centry option"
  v_file :: file_status

definition config_env :: "string \<Rightarrow> string" where
  "config_env app = app @ ''_CONFIG''"

definition default_step :: "cfield \<Rightarrow> (cpath \<Rightarrow> centry option) \<Rightarrow> cpath \<Rightarrow> centry option" where
  "default_step f m =
     (case fd_presence f of
        Default text \<Rightarrow> m(fd_path f \<mapsto> \<lparr>e_text = text, e_origin = ODefault\<rparr>)
      | _ \<Rightarrow> m)"

definition env_step ::
    "string \<Rightarrow> (string \<Rightarrow> string option) \<Rightarrow> cfield \<Rightarrow> (cpath \<Rightarrow> centry option)
     \<Rightarrow> cpath \<Rightarrow> centry option" where
  "env_step app env f m =
     (case env (field_env f app) of
        Some val \<Rightarrow> m(fd_path f \<mapsto> \<lparr>e_text = val, e_origin = OEnv (field_env f app)\<rparr>)
      | None \<Rightarrow> m)"

definition file_step ::
    "string \<Rightarrow> cpath \<times> string \<Rightarrow> (cpath \<Rightarrow> centry option) \<Rightarrow> cpath \<Rightarrow> centry option" where
  "file_step path = (\<lambda>(p, text) m. m(p \<mapsto> \<lparr>e_text = text, e_origin = OFile path\<rparr>))"

definition arg_step ::
    "cpath \<times> string \<times> string \<Rightarrow> (cpath \<Rightarrow> centry option) \<Rightarrow> cpath \<Rightarrow> centry option" where
  "arg_step = (\<lambda>(p, text, flag) m. m(p \<mapsto> \<lparr>e_text = text, e_origin = OArg flag\<rparr>))"

text \<open>Which file, and the name of what said so.\<close>

definition config_file ::
    "string \<Rightarrow> parsed \<Rightarrow> (string \<Rightarrow> string option) \<Rightarrow> (string \<times> string) option" where
  "config_file app p env =
     (case pa_config p of
        Some path \<Rightarrow> Some (path, CONFIG_FLAG)
      | None \<Rightarrow> map_option (\<lambda>path. (path, config_env app)) (env (config_env app)))"

definition merge_layers ::
    "(string \<Rightarrow> string + string)
     \<Rightarrow> (string \<Rightarrow> (string \<times> nat option) + (string \<times> toml) list)
     \<Rightarrow> string \<Rightarrow> cfield list \<Rightarrow> parsed \<Rightarrow> (string \<times> string) list \<Rightarrow> refusal + cvalues" where
  "merge_layers read_file parse_toml app fds p env_pairs =
     (let env = hash_of env_pairs;
          entries = fold default_step fds Map.empty
      in and_then
           (case config_file app p env of
              None \<Rightarrow> Inr (entries, NotConfigured)
            | Some (path, source) \<Rightarrow>
                map_ok (\<lambda>kvs. (fold (file_step path) kvs entries, ReadFrom path))
                  (file_read read_file parse_toml fds source path))
           (\<lambda>(entries, status).
              Inr \<lparr>v_app = app, v_fields = fds,
                   v_entries = fold arg_step (pa_values p) (fold (env_step app env) fds entries),
                   v_file = status\<rparr>))"

section \<open>The merge is a right-biased union of four layers\<close>

definition pair_map :: "('a \<Rightarrow> ('k \<times> 'v) option) \<Rightarrow> 'a list \<Rightarrow> 'k \<Rightarrow> 'v option" where
  "pair_map g xs = hash_of (List.map_filter g xs)"

lemma hash_of_Cons: "hash_of ((k, v) # kvs) = [k \<mapsto> v] ++ hash_of kvs"
  by (simp add: hash_of_def map_add_def fun_eq_iff split: option.splits)

lemma fold_pair_map:
  assumes "\<And>x m. step x m = (case g x of None \<Rightarrow> m | Some (k, v) \<Rightarrow> m(k \<mapsto> v))"
  shows "fold step xs m = m ++ pair_map g xs"
proof (induction xs arbitrary: m)
  case Nil
  then show ?case by (simp add: pair_map_def List.map_filter_simps hash_of_def)
next
  case (Cons x xs)
  then show ?case
    by (auto simp: assms pair_map_def List.map_filter_simps hash_of_Cons split: option.splits)
qed

lemma pair_map_SomeD: "pair_map g xs k = Some v \<Longrightarrow> \<exists>x \<in> set xs. g x = Some (k, v)"
  unfolding pair_map_def by (drule hash_of_SomeD) (auto simp: map_filter_def)

lemma pair_map_None: "pair_map g xs k = None \<longleftrightarrow> (\<forall>x \<in> set xs. \<forall>v. g x \<noteq> Some (k, v))"
  unfolding pair_map_def hash_of_None by (force simp: map_filter_def)

lemma pair_map_unique:
  assumes "x \<in> set xs" "\<forall>y \<in> set xs. \<forall>w. g y = Some (k, w) \<longrightarrow> y = x"
  shows "pair_map g xs k = (case g x of Some (k', v) \<Rightarrow> if k' = k then Some v else None | None \<Rightarrow> None)"
proof (cases "pair_map g xs k")
  case None
  with assms(1) show ?thesis by (auto simp: pair_map_None split: option.splits prod.splits)
next
  case (Some v)
  from pair_map_SomeD [OF Some] assms(2) have "g x = Some (k, v)" by blast
  with Some show ?thesis by simp
qed

definition default_layer :: "cfield list \<Rightarrow> cpath \<Rightarrow> centry option" where
  "default_layer = pair_map (\<lambda>f. case fd_presence f of
     Default text \<Rightarrow> Some (fd_path f, \<lparr>e_text = text, e_origin = ODefault\<rparr>) | _ \<Rightarrow> None)"

definition file_layer :: "string \<Rightarrow> (cpath \<times> string) list \<Rightarrow> cpath \<Rightarrow> centry option" where
  "file_layer path = pair_map (\<lambda>(p, text). Some (p, \<lparr>e_text = text, e_origin = OFile path\<rparr>))"

definition env_layer ::
    "string \<Rightarrow> (string \<Rightarrow> string option) \<Rightarrow> cfield list \<Rightarrow> cpath \<Rightarrow> centry option" where
  "env_layer app env = pair_map (\<lambda>f. map_option
     (\<lambda>val. (fd_path f, \<lparr>e_text = val, e_origin = OEnv (field_env f app)\<rparr>))
     (env (field_env f app)))"

definition arg_layer :: "(cpath \<times> string \<times> string) list \<Rightarrow> cpath \<Rightarrow> centry option" where
  "arg_layer = pair_map (\<lambda>(p, text, flag). Some (p, \<lparr>e_text = text, e_origin = OArg flag\<rparr>))"

lemma fold_default_step: "fold default_step fds m = m ++ default_layer fds"
  unfolding default_layer_def
  by (rule fold_pair_map) (simp add: default_step_def split: presence.splits)

lemma fold_env_step: "fold (env_step app env) fds m = m ++ env_layer app env fds"
  unfolding env_layer_def by (rule fold_pair_map) (simp add: env_step_def split: option.splits)

lemma fold_file_step: "fold (file_step path) kvs m = m ++ file_layer path kvs"
  unfolding file_layer_def by (rule fold_pair_map) (simp add: file_step_def split: prod.splits)

lemma fold_arg_step: "fold arg_step vals m = m ++ arg_layer vals"
  unfolding arg_layer_def by (rule fold_pair_map) (simp add: arg_step_def split: prod.splits)

lemmas layer_folds = fold_default_step fold_env_step fold_file_step fold_arg_step

text \<open>What the file contributes: nothing when no file is configured.\<close>

definition file_pairs ::
    "(string \<Rightarrow> string + string)
     \<Rightarrow> (string \<Rightarrow> (string \<times> nat option) + (string \<times> toml) list)
     \<Rightarrow> string \<Rightarrow> cfield list \<Rightarrow> parsed \<Rightarrow> (string \<times> string) list
     \<Rightarrow> refusal + (string \<times> (cpath \<times> string) list)" where
  "file_pairs read_file parse_toml app fds p env_pairs =
     (case config_file app p (hash_of env_pairs) of
        None \<Rightarrow> Inr ('''', [])
      | Some (path, source) \<Rightarrow>
          map_ok (Pair path) (file_read read_file parse_toml fds source path))"

lemma file_layer_Nil [simp]: "file_layer path [] = Map.empty"
  by (simp add: file_layer_def pair_map_def List.map_filter_simps fun_eq_iff)

lemma merge_layers_entries:
  "merge_layers rf pt app fds p env = Inr v \<Longrightarrow>
   \<exists>path kvs. file_pairs rf pt app fds p env = Inr (path, kvs)
     \<and> v_entries v = default_layer fds ++ file_layer path kvs
          ++ env_layer app (hash_of env) fds ++ arg_layer (pa_values p)
     \<and> v_fields v = fds \<and> v_app v = app"
  by (auto simp: merge_layers_def file_pairs_def Let_def layer_folds result_simps
      split: option.splits prod.splits)

lemma merge_layers_ok_iff:
  "is_ok (merge_layers rf pt app fds p env) = is_ok (file_pairs rf pt app fds p env)"
  by (auto simp: merge_layers_def file_pairs_def Let_def is_ok_def and_then_def map_ok_def
      split: option.splits prod.splits sum.splits)

section \<open>What the file may hold\<close>

text \<open>The leaves of a table with their dotted keys, in the table's own order.\<close>

function toml_leaves :: "(string \<times> toml) list \<Rightarrow> string \<Rightarrow> (string \<times> toml) list" where
  "toml_leaves [] prefix = []"
| "toml_leaves ((name, v) # rest) prefix =
     (case v of
        TTable inner \<Rightarrow> toml_leaves inner (toml_key prefix name)
      | _ \<Rightarrow> [(toml_key prefix name, v)]) @ toml_leaves rest prefix"
  by pat_completeness auto
termination
  by (relation "measure (\<lambda>(t, p). size_list (size_prod (\<lambda>_. 0) size) t)") auto

lemma file_flatten_leaves:
  "file_flatten t prefix by_key fo = fold (\<lambda>(key, v). file_leaf by_key key v) (toml_leaves t prefix) fo"
proof (induction t prefix by_key fo rule: file_flatten.induct)
  case (2 name v rest prefix by_key fo)
  show ?case using "2.IH"(2) "2.IH"(1) by (cases v) simp_all
qed simp

lemma fold_file_leaf:
  "fold (\<lambda>(key, v). file_leaf by_key key v) ls fo =
   fo\<lparr>fo_values := fo_values fo @
      List.map_filter (\<lambda>(key, v). case scalar_text v of None \<Rightarrow> None
        | Some text \<Rightarrow> map_option (\<lambda>p. (p, text)) (by_key key)) ls,
    fo_unknown := fo_unknown fo @
      map fst (filter (\<lambda>(key, v). scalar_text v \<noteq> None \<and> by_key key = None) ls),
    fo_non_scalar := fo_non_scalar fo @ map fst (filter (\<lambda>(key, v). scalar_text v = None) ls)\<rparr>"
  by (induction ls arbitrary: fo)
    (auto simp: file_leaf_def List.map_filter_simps split: option.splits)

definition file_clean :: "cfield list \<Rightarrow> (string \<times> toml) list \<Rightarrow> bool" where
  "file_clean fds t \<longleftrightarrow>
     (\<forall>(key, v) \<in> set (toml_leaves t ''''). scalar_text v \<noteq> None \<and> key_table fds key \<noteq> None)"

lemma flatten_clean:
  assumes "fo = file_flatten t '''' (key_table fds) found_default"
  shows "fo_non_scalar fo = [] \<and> fo_unknown fo = [] \<longleftrightarrow> file_clean fds t"
  by (fastforce simp: assms file_clean_def file_flatten_leaves fold_file_leaf found_default_def filter_empty_conv)

lemma flatten_values:
  assumes "file_clean fds t"
  shows "fo_values (file_flatten t '''' (key_table fds) found_default) =
      map (\<lambda>(key, v). (the (key_table fds key), the (scalar_text v))) (toml_leaves t '''')"
proof -
  have "List.map_filter (\<lambda>(key, v). case scalar_text v of None \<Rightarrow> None
        | Some text \<Rightarrow> map_option (\<lambda>p. (p, text)) (key_table fds key)) ls =
      map (\<lambda>(key, v). (the (key_table fds key), the (scalar_text v))) ls"
    if "\<forall>(key, v) \<in> set ls. scalar_text v \<noteq> None \<and> key_table fds key \<noteq> None" for ls
    using that by (induction ls) (auto simp: List.map_filter_simps)
  with assms show ?thesis by (simp add: file_clean_def file_flatten_leaves fold_file_leaf found_default_def)
qed

lemma file_read_Inr:
  "file_read rf pt fds source file = Inr kvs \<longleftrightarrow>
   (\<exists>text t. rf file = Inr text \<and> pt text = Inr t \<and> file_clean fds t
      \<and> kvs = map (\<lambda>(key, v). (the (key_table fds key), the (scalar_text v))) (toml_leaves t ''''))"
proof (cases "rf file")
  case (Inr contents)
  show ?thesis
  proof (cases "pt contents")
    case t: (Inr t)
    show ?thesis
      using Inr t flatten_clean [OF refl, of t fds] flatten_values [of fds t]
      by (auto simp: file_read_def Let_def)
  qed (use Inr in \<open>auto simp: file_read_def\<close>)
qed (simp add: file_read_def)

lemma file_read_paths:
  assumes "file_read rf pt fds source file = Inr kvs"
  shows "fst ` set kvs \<subseteq> fd_path ` set fds"
proof
  fix p assume "p \<in> fst ` set kvs"
  with assms obtain key where "key_table fds key = Some p"
    by (fastforce simp: file_read_Inr file_clean_def)
  then show "p \<in> fd_path ` set fds"
    unfolding key_table_def by (auto dest!: hash_of_SomeD)
qed

section \<open>argv\<close>

lemma args_loop_paths:
  assumes "args_loop by_flag p unknown args = Inr (q, u)"
    and "\<And>name f. by_flag name = Some f \<Longrightarrow> fd_path f \<in> P"
    and "fst ` set (pa_values p) \<subseteq> P"
  shows "fst ` set (pa_values q) \<subseteq> P"
  using assms
proof (induction by_flag p unknown args rule: args_loop.induct)
  case (2 by_flag p unknown token rest)
  show ?case
    using "2.prems" "2.IH"
    by (auto simp: args_loop.simps(2) [of by_flag p unknown token rest] push_value_def
        split: prod.splits if_splits sum.splits option.splits)
qed simp

lemma args_parse_paths:
  assumes "args_parse fds args = Inr q"
  shows "fst ` set (pa_values q) \<subseteq> fd_path ` set fds"
proof -
  from assms obtain u where loop: "args_loop (flag_table fds) parsed_default [] args = Inr (q, u)"
    by (auto simp: args_parse_def result_simps split: if_splits)
  show ?thesis
  proof (rule args_loop_paths [OF loop])
    fix name f assume "flag_table fds name = Some f"
    then show "fd_path f \<in> fd_path ` set fds"
      unfolding flag_table_def by (auto dest!: hash_of_SomeD)
  qed (simp add: parsed_default_def)
qed

text \<open>
  Writing assignments as argv: inline (\<open>--k=v\<close>), spaced (\<open>--k v\<close>) or bare (\<open>--k\<close> for a
  boolean). The parser reads back exactly what was written, in order.
\<close>

datatype arg_form = Inline | Spaced | Bare

fun arg_tokens :: "cfield \<times> arg_form \<times> string \<Rightarrow> string list" where
  "arg_tokens (f, Inline, t) = [field_flag f @ ''='' @ t]"
| "arg_tokens (f, Spaced, t) = [field_flag f, t]"
| "arg_tokens (f, Bare, t) = [field_flag f]"

fun arg_form_ok :: "cfield \<times> arg_form \<times> string \<Rightarrow> bool" where
  "arg_form_ok (f, Inline, t) = True"
| "arg_form_ok (f, Spaced, t) = (fd_kind f = KText \<and> \<not> starts_with t ''--'')"
| "arg_form_ok (f, Bare, t) = (fd_kind f = KBool \<and> t = ''true'')"

text \<open>A schema whose spellings are its own: distinct, well formed, and none of the built-in flags.\<close>

definition reserved_paths :: "cpath list" where
  "reserved_paths = [[''help''], [''print_config''], [''config'']]"

definition schema_ok :: "cfield list \<Rightarrow> bool" where
  "schema_ok fds \<longleftrightarrow> distinct (map fd_path fds)
     \<and> (\<forall>f \<in> set fds. path_ok (fd_path f) \<and> fd_path f \<notin> set reserved_paths)"

lemma schema_okD:
  assumes "schema_ok fds" "f \<in> set fds"
  shows "path_ok (fd_path f)" "fd_path f \<notin> set reserved_paths"
  using assms by (auto simp: schema_ok_def)

lemma schema_ok_unique:
  assumes "schema_ok fds" "f \<in> set fds" "g \<in> set fds" "fd_path f = fd_path g"
  shows "f = g"
  using assms by (auto simp: schema_ok_def distinct_map dest: inj_onD)

lemma flag_table_flag:
  assumes "schema_ok fds" "f \<in> set fds"
  shows "flag_table fds (field_flag f) = Some f"
  unfolding flag_table_def
proof (rule hash_of_inj)
  show "inj_on field_flag (set fds)"
    using assms(1) schema_ok_unique schema_okD(1) path_flag_inj
    by (fastforce intro!: inj_onI simp: field_flag_def)
qed (rule assms(2))

lemma key_table_toml:
  assumes "schema_ok fds" "f \<in> set fds"
  shows "key_table fds (field_toml f) = Some (fd_path f)"
proof -
  have "(field_toml f, fd_path f) \<in> set (map (\<lambda>f. (field_toml f, fd_path f)) fds)"
    using assms(2) by auto
  then obtain p where p: "key_table fds (field_toml f) = Some p"
    unfolding key_table_def by (blast dest: hash_of_in)
  then obtain g where "g \<in> set fds" "field_toml g = field_toml f" "fd_path g = p"
    unfolding key_table_def by (auto dest!: hash_of_SomeD)
  moreover have "path_ok (fd_path g)" "path_ok (fd_path f)"
    using assms schema_okD(1) \<open>g \<in> set fds\<close> by blast+
  ultimately show ?thesis
    using p path_dotted_inj [of "fd_path g" "fd_path f"] by (simp add: field_toml_def)
qed

lemma reserved_ok: "p \<in> set reserved_paths \<Longrightarrow> path_ok p"
  unfolding reserved_paths_def by (auto simp: path_ok_def seg_ok_def) code_simp+

lemma reserved_flags:
  "path_flag [''help''] = HELP_FLAG" "path_flag [''print_config''] = PRINT_CONFIG_FLAG"
  "path_flag [''config''] = CONFIG_FLAG"
  by code_simp+

lemma flag_not_builtin:
  assumes "path_ok p" "p \<notin> set reserved_paths"
  shows "path_flag p \<notin> {HELP_FLAG, HELP_FLAG_SHORT, PRINT_CONFIG_FLAG, CONFIG_FLAG}"
proof -
  have "path_flag p \<noteq> path_flag q" if "q \<in> set reserved_paths" for q
    using that assms path_flag_inj reserved_ok by blast
  then have "path_flag p \<notin> {HELP_FLAG, PRINT_CONFIG_FLAG, CONFIG_FLAG}"
    unfolding reserved_paths_def reserved_flags [symmetric] by simp
  moreover have "path_flag p \<noteq> HELP_FLAG_SHORT"
    by (simp add: path_flag_def HELP_FLAG_SHORT_def)
  ultimately show ?thesis by blast
qed

lemma flag_starts [simp]: "starts_with (path_flag p) ''--''"
  by (simp add: starts_with_def path_flag_def)

lemma flag_no_eq:
  assumes "path_ok p"
  shows "CHR ''='' \<notin> set (path_flag p)"
proof
  assume "CHR ''='' \<in> set (path_flag p)"
  then have "CHR ''='' \<in> set (join ''--'' (map (replace_char (CHR ''_'') ''-'') p))"
    by (simp add: path_flag_def)
  with join_chars [of "''--''" "map (replace_char (CHR ''_'') ''-'') p"]
  obtain s where "s \<in> set p" "CHR ''='' \<in> set s"
    by (fastforce simp: replace_char_single split: if_splits)
  moreover with assms have "seg_ok s" by (auto simp: path_ok_def list_all_iff)
  ultimately show False
    using seg_ok_chars [of s "CHR ''=''"] by (simp add: is_ascii_lower_def is_ascii_digit_def)
qed

lemma split_token_flag:
  assumes "path_ok p"
  shows "split_token (path_flag p) = (path_flag p, None)"
    "split_token (path_flag p @ ''='' @ t) = (path_flag p, Some t)"
  using flag_no_eq [OF assms] by (simp_all add: split_token_def split_once_none split_once_append)

lemma args_loop_tokens:
  assumes "schema_ok fds" "\<forall>x \<in> set xs. fst x \<in> set fds \<and> arg_form_ok x"
  shows "args_loop (flag_table fds) p u (concat (map arg_tokens xs)) =
    Inr (fold (\<lambda>(f, form, t). push_value f t (field_flag f)) xs p, u)"
  using assms(2)
proof (induction xs arbitrary: p)
  case (Cons x xs)
  obtain f form t where x: "x = (f, form, t)" by (cases x) auto
  with Cons.prems have f: "f \<in> set fds" and form: "arg_form_ok (f, form, t)" by auto
  note ok = schema_okD [OF assms(1) f]
  have nb: "field_flag f \<noteq> HELP_FLAG" "field_flag f \<noteq> HELP_FLAG_SHORT"
      "field_flag f \<noteq> PRINT_CONFIG_FLAG" "field_flag f \<noteq> CONFIG_FLAG"
    using flag_not_builtin [OF ok] by (auto simp: field_flag_def)
  have tok: "split_token (field_flag f) = (field_flag f, None)"
      "split_token (field_flag f @ ''='' @ t) = (field_flag f, Some t)"
    using split_token_flag [OF ok(1)] by (simp_all add: field_flag_def)
  have IH: "args_loop (flag_table fds) q u (concat (map arg_tokens xs)) =
      Inr (fold (\<lambda>(f, form, t). push_value f t (field_flag f)) xs q, u)" for q
    using Cons by simp
  show ?case
    using form tok
    by (cases form; cases "fd_kind f")
      (simp_all add: x args_loop.simps(2) nb flag_table_flag [OF assms(1) f] IH)
qed simp

lemma fold_push_value:
  "fold (\<lambda>(f, form, t). push_value f t (field_flag f)) xs p =
   p\<lparr>pa_values := pa_values p @ map (\<lambda>(f, form, t). (fd_path f, t, field_flag f)) xs\<rparr>"
  by (induction xs arbitrary: p) (auto simp: push_value_def)

section \<open>Properties\<close>

lemma pair_map_total:
  assumes "\<And>k v. g (k, v) = Some (k, h v)"
  shows "pair_map g xs k = map_option h (hash_of xs k)"
proof (induction xs)
  case Nil
  then show ?case by (simp add: pair_map_def List.map_filter_simps hash_of_def)
next
  case (Cons x xs)
  obtain k' v where x: "x = (k', v)" by (cases x)
  have "pair_map g (x # xs) = [k' \<mapsto> h v] ++ pair_map g xs"
    by (simp add: x assms pair_map_def List.map_filter_simps hash_of_Cons)
  with Cons show ?case by (simp add: x hash_of_Cons map_add_def split: option.splits)
qed

lemma arg_layer_hash:
  "arg_layer vals k = map_option (\<lambda>(text, flag). \<lparr>e_text = text, e_origin = OArg flag\<rparr>) (hash_of vals k)"
  unfolding arg_layer_def by (rule pair_map_total) auto

lemma file_layer_hash:
  "file_layer path kvs k = map_option (\<lambda>text. \<lparr>e_text = text, e_origin = OFile path\<rparr>) (hash_of kvs k)"
  unfolding file_layer_def by (rule pair_map_total) auto

lemma default_layer_field:
  assumes "schema_ok fds" "f \<in> set fds"
  shows "default_layer fds (fd_path f) =
    (case fd_presence f of Default text \<Rightarrow> Some \<lparr>e_text = text, e_origin = ODefault\<rparr> | _ \<Rightarrow> None)"
proof -
  have "\<forall>g \<in> set fds. \<forall>w. (case fd_presence g of
      Default text \<Rightarrow> Some (fd_path g, \<lparr>e_text = text, e_origin = ODefault\<rparr>) | _ \<Rightarrow> None)
      = Some (fd_path f, w) \<longrightarrow> g = f"
    using schema_ok_unique [OF assms(1) _ assms(2)] by (auto split: presence.splits)
  from pair_map_unique [OF assms(2) this] show ?thesis
    by (simp add: default_layer_def split: presence.splits)
qed

lemma env_layer_field:
  assumes "schema_ok fds" "f \<in> set fds"
  shows "env_layer app env fds (fd_path f) =
    map_option (\<lambda>val. \<lparr>e_text = val, e_origin = OEnv (field_env f app)\<rparr>) (env (field_env f app))"
proof -
  have "\<forall>g \<in> set fds. \<forall>w. map_option
      (\<lambda>val. (fd_path g, \<lparr>e_text = val, e_origin = OEnv (field_env g app)\<rparr>)) (env (field_env g app))
      = Some (fd_path f, w) \<longrightarrow> g = f"
    using schema_ok_unique [OF assms(1) _ assms(2)] by auto
  from pair_map_unique [OF assms(2) this] show ?thesis
    by (cases "env (field_env f app)") (simp_all add: env_layer_def)
qed

text \<open>C15: Precedence of the four sources. After a merge that succeeds, a field holds the last
  value argv gave it; without one, its environment variable; without that, the last value the
  config file gave its key; without that, the schema's default; and it is unset only when none of
  the four has it. Each value carries the origin it came from.\<close>

theorem merge_precedence:
  assumes "schema_ok fds" "f \<in> set fds"
    and "merge_layers rf pt app fds p env = Inr v"
  shows "\<exists>path kvs. file_pairs rf pt app fds p env = Inr (path, kvs) \<and>
    v_entries v (fd_path f) =
      (case hash_of (pa_values p) (fd_path f) of
         Some (text, flag) \<Rightarrow> Some \<lparr>e_text = text, e_origin = OArg flag\<rparr>
       | None \<Rightarrow> (case hash_of env (field_env f app) of
         Some text \<Rightarrow> Some \<lparr>e_text = text, e_origin = OEnv (field_env f app)\<rparr>
       | None \<Rightarrow> (case hash_of kvs (fd_path f) of
         Some text \<Rightarrow> Some \<lparr>e_text = text, e_origin = OFile path\<rparr>
       | None \<Rightarrow> (case fd_presence f of
         Default text \<Rightarrow> Some \<lparr>e_text = text, e_origin = ODefault\<rparr>
       | _ \<Rightarrow> None))))"
proof -
  from merge_layers_entries [OF assms(3)] obtain path kvs where
    "file_pairs rf pt app fds p env = Inr (path, kvs)"
    "v_entries v = default_layer fds ++ file_layer path kvs
       ++ env_layer app (hash_of env) fds ++ arg_layer (pa_values p)" by blast
  then show ?thesis
    by (intro exI [of _ path] exI [of _ kvs])
      (simp add: map_add_def arg_layer_hash file_layer_hash env_layer_field [OF assms(1,2)]
        default_layer_field [OF assms(1,2)] split: option.splits prod.splits presence.splits)
qed

definition example_field :: cfield where
  "example_field = \<lparr>fd_path = [''port''], fd_help = '''', fd_presence = Default ''80'',
     fd_class = Neutral, fd_secret = False, fd_kind = KText, fd_env = None\<rparr>"

lemma example_schema_ok: "schema_ok [example_field]"
  by code_simp

theorem merge_precedence_witness:
  "\<exists>v. merge_layers (\<lambda>_. Inl []) (\<lambda>_. Inr []) ''CRON'' [example_field] parsed_default
        [(''CRON_PORT'', ''81'')] = Inr v
     \<and> v_entries v [''port''] = Some \<lparr>e_text = ''81'', e_origin = OEnv ''CRON_PORT''\<rparr>"
proof -
  let ?m = "merge_layers (\<lambda>_. Inl []) (\<lambda>_. Inr []) ''CRON'' [example_field] parsed_default
        [(''CRON_PORT'', ''81'')]"
  have ne: "''CRON_CONFIG'' \<noteq> ''CRON_PORT''" by simp
  have "\<exists>v. ?m = Inr v"
    by (simp add: merge_layers_def config_file_def parsed_default_def config_env_def hash_of_def Let_def)
  then obtain v where v: "?m = Inr v" by blast
  have env: "field_env example_field ''CRON'' = ''CRON_PORT''" by code_simp
  have p: "fd_path example_field = [''port'']" by (simp add: example_field_def)
  from merge_precedence [OF example_schema_ok _ v] env p v show ?thesis
    by (auto simp: parsed_default_def hash_of_def)
qed

text \<open>C34: argv round trip. Every way of writing an assignment to a field (inline \<open>--k=v\<close>,
  spaced \<open>--k v\<close>, a bare boolean) is read back as that field's path, the text and the flag, in the
  order written, and none is taken for an unknown argument or for a built-in flag.\<close>

theorem argv_round_trip:
  assumes "schema_ok fds" "list_all (\<lambda>x. fst x \<in> set fds \<and> arg_form_ok x) xs"
  shows "args_parse fds (concat (map arg_tokens xs)) =
    Inr \<lparr>pa_help = False, pa_print_config = False, pa_config = None,
         pa_values = map (\<lambda>(f, form, t). (fd_path f, t, field_flag f)) xs\<rparr>"
  using args_loop_tokens [OF assms(1), of xs parsed_default "[]"] assms(2)
  by (simp add: args_parse_def fold_push_value parsed_default_def list_all_iff)

theorem argv_round_trip_witness:
  "args_parse [example_field] [''--port=81'', ''--port'', ''82''] =
    Inr \<lparr>pa_help = False, pa_print_config = False, pa_config = None,
         pa_values = [([''port''], ''81'', ''--port''), ([''port''], ''82'', ''--port'')]\<rparr>"
proof -
  have flag: "field_flag example_field = ''--port''" by code_simp
  have ok: "list_all (\<lambda>x. fst x \<in> set [example_field] \<and> arg_form_ok x)
      [(example_field, Inline, ''81''), (example_field, Spaced, ''82'')]"
    by code_simp
  from argv_round_trip [OF example_schema_ok ok] show ?thesis
    by (simp add: flag) (simp add: example_field_def)
qed

text \<open>The config file is strict. It is accepted exactly when it is readable, well formed, and
  every leaf of its tables is a scalar whose dotted key the schema lists; anything else is a
  refusal, so a misspelt key is never ignored.\<close>

theorem file_read_strict:
  "is_ok (file_read rf pt fds source file) =
   (\<exists>contents t. rf file = Inr contents \<and> pt contents = Inr t
      \<and> list_all (\<lambda>(key, v). scalar_text v \<noteq> None \<and> key \<in> field_toml ` set fds) (toml_leaves t ''''))"
proof -
  have "(key_table fds key \<noteq> None) = (key \<in> field_toml ` set fds)" for key
    unfolding key_table_def hash_of_None not_not by (simp add: image_image)
  then have "file_clean fds t =
      list_all (\<lambda>(key, v). scalar_text v \<noteq> None \<and> key \<in> field_toml ` set fds) (toml_leaves t '''')" for t
    unfolding file_clean_def list_all_iff by simp
  moreover have "is_ok (file_read rf pt fds source file) = (\<exists>kvs. file_read rf pt fds source file = Inr kvs)"
    by (auto simp: is_ok_def split: sum.splits)
  ultimately show ?thesis unfolding file_read_Inr by blast
qed

text \<open>A merged table holds values of schema fields only: whatever the environment, argv and
  the file contain, no other path has an entry.\<close>

theorem merge_closed:
  assumes "args_parse fds args = Inr p" "merge_layers rf pt app fds p env = Inr v"
  shows "dom (v_entries v) \<subseteq> fd_path ` set fds"
proof
  fix k assume "k \<in> dom (v_entries v)"
  from merge_layers_entries [OF assms(2)] obtain path kvs where
    fp: "file_pairs rf pt app fds p env = Inr (path, kvs)" and
    e: "v_entries v = default_layer fds ++ file_layer path kvs
       ++ env_layer app (hash_of env) fds ++ arg_layer (pa_values p)" by blast
  have kvs: "fst ` set kvs \<subseteq> fd_path ` set fds"
  proof (cases "config_file app p (hash_of env)")
    case None
    with fp show ?thesis by (simp add: file_pairs_def)
  next
    case (Some ps)
    obtain fl source where "ps = (fl, source)" by (cases ps)
    with fp Some have "file_read rf pt fds source fl = Inr kvs"
      by (simp add: file_pairs_def result_simps)
    then show ?thesis by (rule file_read_paths)
  qed
  from \<open>k \<in> dom (v_entries v)\<close> have "k \<in> dom (default_layer fds) \<union> dom (file_layer path kvs)
      \<union> dom (env_layer app (hash_of env) fds) \<union> dom (arg_layer (pa_values p))"
    by (auto simp: e)
  then consider x where "default_layer fds k = Some x" | x where "hash_of kvs k = Some x"
    | x where "env_layer app (hash_of env) fds k = Some x" | x where "hash_of (pa_values p) k = Some x"
    by (auto simp: file_layer_hash arg_layer_hash)
  then show "k \<in> fd_path ` set fds"
  proof cases
    case 1
    then show ?thesis unfolding default_layer_def
      by (auto dest!: pair_map_SomeD split: presence.splits)
  next
    case 2
    then show ?thesis using kvs by (force dest: hash_of_SomeD)
  next
    case 3
    then show ?thesis unfolding env_layer_def by (auto dest!: pair_map_SomeD)
  next
    case 4
    then show ?thesis using args_parse_paths [OF assms(1)] by (force dest: hash_of_SomeD)
  qed
qed

theorem merge_closed_witness:
  "\<exists>v. merge_layers (\<lambda>_. Inl []) (\<lambda>_. Inr []) ''CRON'' [example_field] parsed_default
        [(''CRON_PROT'', ''81'')] = Inr v \<and> dom (v_entries v) \<subseteq> {[''port'']}"
proof -
  have a: "args_parse [example_field] [] = Inr parsed_default"
    by (simp add: args_parse_def parsed_default_def)
  have "\<exists>v. merge_layers (\<lambda>_. Inl []) (\<lambda>_. Inr []) ''CRON'' [example_field] parsed_default
        [(''CRON_PROT'', ''81'')] = Inr v"
    by (simp add: merge_layers_def config_file_def parsed_default_def config_env_def hash_of_def Let_def)
  then obtain v where v: "merge_layers (\<lambda>_. Inl []) (\<lambda>_. Inr []) ''CRON'' [example_field] parsed_default
        [(''CRON_PROT'', ''81'')] = Inr v" by blast
  from merge_closed [OF a v] v show ?thesis by (auto simp: example_field_def)
qed

text \<open>
  The variable naming the file is the one spelling that is not raised to upper case, so a root
  with a lower-case \<open>app\<close> reads \<open>cron_CONFIG\<close> beside \<open>CRON_PORT\<close>.
\<close>

lemma config_env_case:
  "config_env ''cron'' = ''cron_CONFIG''" "path_env [''port''] ''cron'' = ''CRON_PORT''"
  by (simp add: config_env_def) code_simp

end
