(* ===== verification/Config_Values.thy ===== *)
theory Config_Values
  imports Config_Sources
begin

text \<open>
  The merged table and what is done with it: \<open>values.rs\<close> (the one typed parse of each leaf
  and the refusals it raises), \<open>class.rs\<close> (the check of the deployment classes) and
  \<open>help.rs\<close> (the \<open>--help\<close> and \<open>--print-config\<close> texts). A leaf's type is a parameter:
  \<open>from_str\<close> is its \<open>FromStr\<close>, with the error's text on the left, and \<open>type_name\<close> what
  \<open>std::any::type_name\<close> says. \<open>Values::field\<close> panics on an unregistered path, so a read
  answers in \<open>fault\<close>.
\<close>

section \<open>values.rs\<close>

datatype fault = Refused refusal | Panicked string

definition BOOL_ACCEPTED :: string where
  "BOOL_ACCEPTED = ''true, false, 1, 0, yes, no, on or off''"

definition MASK :: string where
  "MASK = ''****''"

definition values_get :: "cvalues \<Rightarrow> cpath \<Rightarrow> centry option" where
  "values_get v p = v_entries v p"

definition values_field :: "cvalues \<Rightarrow> cpath \<Rightarrow> fault + cfield" where
  "values_field v p =
     ok_or (Panicked (path_dotted p @ '' was read by from_values but never registered by schema''))
       (find (\<lambda>f. fd_path f = p) (v_fields v))"

definition parse_bool :: "string \<Rightarrow> bool option" where
  "parse_bool s =
     (let t = ascii_lower (trim s) in
      if t \<in> {''true'', ''1'', ''yes'', ''on''} then Some True
      else if t \<in> {''false'', ''0'', ''no'', ''off''} then Some False
      else None)"

definition missing :: "cfield \<Rightarrow> string \<Rightarrow> refusal" where
  "missing f app =
     (let env = field_env f app;
          flag = field_flag f;
          section = path_section (fd_path f);
          place = (if section = '''' then ''at the top level of the config file''
                   else ''under ['' @ section @ ''] in the config file'')
      in with_detail
           (refusal_new env ''unset''
             (''a value: '' @ env @ '' in the environment, '' @ flag @ '' on the command line, or `''
              @ path_leaf (fd_path f) @ '' = '' @ ellipsis @ ''` '' @ place))
           ''required and unset'')"

definition wrong_type :: "cfield \<Rightarrow> centry \<Rightarrow> string \<Rightarrow> string \<Rightarrow> refusal" where
  "wrong_type f e accepted err =
     (let source = (case e_origin e of
                      OEnv name \<Rightarrow> name
                    | OArg flag \<Rightarrow> flag
                    | OFile path \<Rightarrow> path @ '': '' @ field_toml f
                    | ODefault \<Rightarrow> ''default of '' @ field_toml f);
          shown = (if fd_secret f then MASK else e_text e)
      in with_detail (refusal_new source shown accepted)
           (''set by '' @ origin_display (e_origin e) @ '': '' @ err))"

definition parse_bool_entry :: "cfield \<Rightarrow> centry \<Rightarrow> fault + bool" where
  "parse_bool_entry f e =
     ok_or (Refused (wrong_type f e BOOL_ACCEPTED ''not a boolean'')) (parse_bool (e_text e))"

text \<open>
  \<open>short_type_name\<close>: every identifier path cut to its last segment. The bytes of a
  non-ASCII character count as part of the identifier.
\<close>

definition ident_char :: "char \<Rightarrow> bool" where
  "ident_char c \<longleftrightarrow> is_ascii_alnum c \<or> c = CHR ''_'' \<or> c = CHR '':'' \<or> 128 \<le> (of_char c :: nat)"

definition last_segment :: "string \<Rightarrow> string" where
  "last_segment word = rev (hd (split_double (CHR '':'') (rev word)))"

fun short_name_loop :: "string \<Rightarrow> string \<Rightarrow> string \<Rightarrow> string" where
  "short_name_loop acc word [] = acc @ last_segment word"
| "short_name_loop acc word (c # cs) =
     (if ident_char c then short_name_loop acc (word @ [c]) cs
      else short_name_loop (acc @ last_segment word @ [c]) [] cs)"

definition short_type_name :: "string \<Rightarrow> string" where
  "short_type_name name = short_name_loop [] [] name"

definition parse_text ::
    "(string \<Rightarrow> string + 'a) \<Rightarrow> string \<Rightarrow> cfield \<Rightarrow> centry \<Rightarrow> string option \<Rightarrow> fault + 'a" where
  "parse_text from_str type_name f e accepted =
     map_err
       (\<lambda>err. Refused (wrong_type f e
          (case accepted of Some a \<Rightarrow> a | None \<Rightarrow> ''a '' @ short_type_name type_name) err))
       (from_str (e_text e))"

definition values_leaf ::
    "(string \<Rightarrow> string + 'a) \<Rightarrow> string \<Rightarrow> cvalues \<Rightarrow> cpath \<Rightarrow> string option \<Rightarrow> fault + 'a" where
  "values_leaf from_str type_name v p accepted =
     and_then (values_field v p) (\<lambda>f.
       case v_entries v p of
         Some e \<Rightarrow> parse_text from_str type_name f e accepted
       | None \<Rightarrow> Inl (Refused (missing f (v_app v))))"

definition values_leaf_opt ::
    "(string \<Rightarrow> string + 'a) \<Rightarrow> string \<Rightarrow> cvalues \<Rightarrow> cpath \<Rightarrow> string option
     \<Rightarrow> fault + 'a option" where
  "values_leaf_opt from_str type_name v p accepted =
     and_then (values_field v p) (\<lambda>f.
       case v_entries v p of
         Some e \<Rightarrow> map_ok Some (parse_text from_str type_name f e accepted)
       | None \<Rightarrow> Inr None)"

definition values_bool :: "cvalues \<Rightarrow> cpath \<Rightarrow> fault + bool" where
  "values_bool v p =
     and_then (values_field v p) (\<lambda>f.
       case v_entries v p of
         Some e \<Rightarrow> parse_bool_entry f e
       | None \<Rightarrow> Inl (Refused (missing f (v_app v))))"

definition values_bool_opt :: "cvalues \<Rightarrow> cpath \<Rightarrow> fault + bool option" where
  "values_bool_opt v p =
     and_then (values_field v p) (\<lambda>f.
       case v_entries v p of
         Some e \<Rightarrow> map_ok Some (parse_bool_entry f e)
       | None \<Rightarrow> Inr None)"

section \<open>class.rs\<close>

definition field_spellings :: "cfield \<Rightarrow> string \<Rightarrow> string" where
  "field_spellings f app = field_env f app @ '', '' @ field_flag f @ '', '' @ field_toml f"

definition class_refusal :: "cfield \<Rightarrow> string \<Rightarrow> string \<Rightarrow> refusal" where
  "class_refusal f app val =
     refusal_new (field_env f app)
       (if fd_secret f \<and> val \<noteq> ''unset'' then MASK else val)
       (case fd_class f of
          ProdRequired \<Rightarrow> ''a value under DEPLOYMENT_TYPE=prod ('' @ field_spellings f app @ '')''
        | _ \<Rightarrow> ''unset under DEPLOYMENT_TYPE=prod ('' @ field_spellings f app @ '')'')"

definition class_enabled :: "cvalues \<Rightarrow> cfield \<Rightarrow> fault + bool" where
  "class_enabled v f =
     (case fd_kind f of
        KBool \<Rightarrow> map_ok (unwrap_or False) (values_bool_opt v (fd_path f))
      | KText \<Rightarrow> Inr (values_get v (fd_path f) \<noteq> None))"

definition enforce_field :: "cvalues \<Rightarrow> cfield \<Rightarrow> fault + unit" where
  "enforce_field v f =
     (case fd_class f of
        Neutral \<Rightarrow> Inr ()
      | ProdRequired \<Rightarrow>
          if values_get v (fd_path f) = None
          then Inl (Refused (with_detail (class_refusal f (v_app v) ''unset'')
                 ''prod-required and unset under DEPLOYMENT_TYPE=prod''))
          else Inr ()
      | DevOnly \<Rightarrow>
          and_then (class_enabled v f) (\<lambda>on.
            if on
            then Inl (Refused (with_detail
                   (class_refusal f (v_app v)
                     (case values_get v (fd_path f) of None \<Rightarrow> '''' | Some e \<Rightarrow> e_text e))
                   ''dev-only and set under DEPLOYMENT_TYPE=prod''))
            else Inr ()))"

definition class_enforce :: "cvalues \<Rightarrow> deployment \<Rightarrow> fault + unit" where
  "class_enforce v d =
     (if d \<noteq> Prod then Inr ()
      else map_ok (\<lambda>_. ()) (traverse (enforce_field v) (v_fields v)))"

section \<open>help.rs\<close>

record help_row =
  hr_flag :: string
  hr_env :: string
  hr_key :: string
  hr_tail :: string
  hr_help :: string

definition help_builtins :: "string \<Rightarrow> help_row list" where
  "help_builtins app =
     [\<lparr>hr_flag = CONFIG_FLAG @ '' <path>'', hr_env = config_env app, hr_key = '''',
       hr_tail = ''TOML file to read; a missing, unreadable or malformed one refuses'', hr_help = ''''\<rparr>,
      \<lparr>hr_flag = HELP_FLAG, hr_env = '''', hr_key = '''',
       hr_tail = ''print this text and exit'', hr_help = ''''\<rparr>,
      \<lparr>hr_flag = PRINT_CONFIG_FLAG, hr_env = '''', hr_key = '''',
       hr_tail = ''print every value with its origin (secrets masked) and exit'', hr_help = ''''\<rparr>]"

definition help_tail :: "cfield \<Rightarrow> string" where
  "help_tail f =
     (case (fd_class f, fd_presence f) of
        (ProdRequired, _) \<Rightarrow> ''prod-required''
      | (DevOnly, _) \<Rightarrow> ''dev-only''
      | (_, Required) \<Rightarrow> ''required''
      | (_, Default d) \<Rightarrow> ''default '' @ d
      | (_, Optional) \<Rightarrow> ''optional'') @ (if fd_secret f then '', secret'' else '''')"

definition help_field_row :: "string \<Rightarrow> cfield \<Rightarrow> string \<times> help_row" where
  "help_field_row app f =
     (path_section (fd_path f),
      \<lparr>hr_flag = (case fd_kind f of KBool \<Rightarrow> field_flag f | KText \<Rightarrow> field_flag f @ '' <value>''),
       hr_env = field_env f app, hr_key = path_leaf (fd_path f),
       hr_tail = help_tail f, hr_help = fd_help f\<rparr>)"

text \<open>\<open>iter.max().unwrap_or(0)\<close> of the byte lengths.\<close>

definition max_len :: "string list \<Rightarrow> nat" where
  "max_len xs = fold (\<lambda>s n. max n (length s)) xs 0"

definition help_line :: "nat \<Rightarrow> nat \<Rightarrow> nat \<Rightarrow> help_row \<Rightarrow> string" where
  "help_line flag_w env_w key_w r =
     ''  '' @ pad_right flag_w (hr_flag r) @ ''  '' @ pad_right env_w (hr_env r) @ ''  ''
     @ pad_right key_w (hr_key r) @ ''  '' @ hr_tail r @ newline
     @ (if hr_help r = [] then '''' else ''      '' @ hr_help r @ newline)"

text \<open>Sections in order of first appearance.\<close>

definition help_sections :: "(string \<times> help_row) list \<Rightarrow> string list" where
  "help_sections rows = fold (\<lambda>(sec, _) acc. if sec \<in> set acc then acc else acc @ [sec]) rows []"

definition help_text :: "string \<Rightarrow> string \<Rightarrow> cfield list \<Rightarrow> string" where
  "help_text app bin fds =
     (let builtins = help_builtins app;
          rows = map (help_field_row app) fds;
          everything = builtins @ map snd rows;
          line = help_line (max_len (map hr_flag everything)) (max_len (map hr_env everything))
                   (max_len (map hr_key everything))
      in bin @ '': every value has a flag, an environment variable and a TOML key.'' @ newline
         @ ''Later wins: defaults < config file < environment < arguments.'' @ newline @ newline
         @ concat (map line builtins)
         @ concat (map (\<lambda>sec. newline
             @ (if sec = [] then ''top level'' @ newline else ''['' @ sec @ '']'' @ newline)
             @ concat (map (\<lambda>(_, r). line r) (filter (\<lambda>(s, _). s = sec) rows)))
             (help_sections rows)))"

definition print_row :: "cvalues \<Rightarrow> cfield \<Rightarrow> string \<times> string \<times> string" where
  "print_row v f =
     (field_toml f,
      (case values_get v (fd_path f) of
         Some e \<Rightarrow> (if fd_secret f then MASK else e_text e, origin_display (e_origin e))
       | None \<Rightarrow> (''<unset>'', case fd_presence f of Required \<Rightarrow> ''required'' | _ \<Rightarrow> ''optional'')))"

definition print_config :: "cvalues \<Rightarrow> string" where
  "print_config v =
     (let rows = map (print_row v) (v_fields v);
          key_w = max_len (map fst rows);
          value_w = max_len (map (fst \<circ> snd) rows)
      in (case v_file v of
            NotConfigured \<Rightarrow>
              ''config file: none ('' @ CONFIG_FLAG @ '' or '' @ config_env (v_app v)
              @ '' to set one)'' @ newline
          | ReadFrom path \<Rightarrow> ''config file: '' @ path @ newline)
         @ concat (map (\<lambda>(key, val, org).
             pad_right key_w key @ '' = '' @ pad_right value_w val @ ''  '' @ org @ newline) rows))"

section \<open>Reads of a registered leaf\<close>

lemma values_field_registered:
  assumes "schema_ok (v_fields v)" "f \<in> set (v_fields v)"
  shows "values_field v (fd_path f) = Inr f"
proof -
  have "find (\<lambda>g. fd_path g = fd_path f) (v_fields v) \<noteq> None"
    using assms(2) by (auto simp: find_None_iff)
  then obtain g where g: "find (\<lambda>g. fd_path g = fd_path f) (v_fields v) = Some g" by blast
  then have "g \<in> set (v_fields v)" "fd_path g = fd_path f" by (auto simp: find_Some_iff)
  with assms g schema_ok_unique show ?thesis by (auto simp: values_field_def)
qed

lemma values_field_no_panic:
  "p \<in> fd_path ` set (v_fields v) \<Longrightarrow> \<exists>f \<in> set (v_fields v). values_field v p = Inr f \<and> fd_path f = p"
proof -
  assume p: "p \<in> fd_path ` set (v_fields v)"
  then obtain f where f: "find (\<lambda>f. fd_path f = p) (v_fields v) = Some f"
    by (cases "find (\<lambda>f. fd_path f = p) (v_fields v)") (auto simp: find_None_iff)
  then have "f \<in> set (v_fields v)" "fd_path f = p" by (auto simp: find_Some_iff)
  with f show ?thesis by (auto simp: values_field_def)
qed

lemma parse_text_no_panic: "parse_text fs tn f e a \<noteq> Inl (Panicked m)"
  by (auto simp: parse_text_def result_simps)

lemma parse_bool_entry_no_panic: "parse_bool_entry f e \<noteq> Inl (Panicked m)"
  by (auto simp: parse_bool_entry_def result_simps)

lemma read_no_panic:
  assumes "p \<in> fd_path ` set (v_fields v)"
  shows "values_leaf fs tn v p a \<noteq> Inl (Panicked m)"
    "values_leaf_opt fs tn v p a \<noteq> Inl (Panicked m)"
    "values_bool v p \<noteq> Inl (Panicked m)"
    "values_bool_opt v p \<noteq> Inl (Panicked m)"
  using values_field_no_panic [OF assms]
  by (auto simp: values_leaf_def values_leaf_opt_def values_bool_def values_bool_opt_def
      parse_text_no_panic parse_bool_entry_no_panic result_simps split: option.splits)

lemma enforce_no_panic: "class_enforce v d \<noteq> Inl (Panicked m)"
proof
  assume "class_enforce v d = Inl (Panicked m)"
  then have "traverse (enforce_field v) (v_fields v) = Inl (Panicked m)"
    by (auto simp: class_enforce_def result_simps split: if_splits)
  then obtain f where f: "f \<in> set (v_fields v)" "enforce_field v f = Inl (Panicked m)"
    by (blast dest: traverse_Inl_ex)
  then show False
    using read_no_panic(4) [of "fd_path f" v m]
    by (auto simp: enforce_field_def class_enabled_def result_simps
        split: cclass.splits ckind.splits if_splits)
qed

lemma enforce_ok_iff:
  "class_enforce v Prod = Inr () \<longleftrightarrow> (\<forall>f \<in> set (v_fields v). enforce_field v f = Inr ())"
proof -
  have "(\<exists>ys. list_all2 (\<lambda>x y. enforce_field v x = Inr y) xs ys) \<longleftrightarrow>
      (\<forall>f \<in> set xs. enforce_field v f = Inr ())" for xs
    by (induction xs) (auto simp: list_all2_Cons1)
  then show ?thesis by (simp add: class_enforce_def map_ok_Inr traverse_Inr)
qed

section \<open>A secret's text reaches no rendering\<close>

text \<open>Two tables that differ only in the text of secret fields.\<close>

definition entry_public_eq :: "cfield \<Rightarrow> centry option \<Rightarrow> centry option \<Rightarrow> bool" where
  "entry_public_eq f = rel_option (\<lambda>a b.
     e_origin a = e_origin b \<and> (fd_secret f \<or> e_text a = e_text b))"

definition public_eq :: "cvalues \<Rightarrow> cvalues \<Rightarrow> bool" where
  "public_eq v w \<longleftrightarrow> v_app v = v_app w \<and> v_fields v = v_fields w \<and> v_file v = v_file w
     \<and> (\<forall>f \<in> set (v_fields v). entry_public_eq f (v_entries v (fd_path f)) (v_entries w (fd_path f)))"

lemma print_row_public: 
  "entry_public_eq f (v_entries v (fd_path f)) (v_entries w (fd_path f)) \<Longrightarrow>
   print_row v f = print_row w f"
  by (cases "v_entries v (fd_path f)"; cases "v_entries w (fd_path f)")
    (auto simp: entry_public_eq_def print_row_def values_get_def)

section \<open>Properties\<close>

text \<open>C19: \<open>--print-config\<close> is free of secrets: two merged tables that agree on everything but the
  texts of secret fields print the same, so the output carries no information on a secret beyond
  where it was set.\<close>

theorem print_config_hides_secrets:
  assumes "public_eq v w"
  shows "print_config v = print_config w"
proof -
  have rows: "map (print_row v) (v_fields v) = map (print_row w) (v_fields w)"
    using assms print_row_public by (simp add: public_eq_def)
  have "v_file v = v_file w" "v_app v = v_app w" using assms by (simp_all add: public_eq_def)
  then show ?thesis unfolding print_config_def Let_def rows by (simp split: file_status.split)
qed

definition secret_values :: "string \<Rightarrow> cvalues" where
  "secret_values t =
     \<lparr>v_app = ''CRON'', v_fields = [example_field\<lparr>fd_secret := True\<rparr>],
      v_entries = [[''port''] \<mapsto> \<lparr>e_text = t, e_origin = OEnv ''CRON_PORT''\<rparr>],
      v_file = NotConfigured\<rparr>"

theorem print_config_hides_secrets_witness:
  "print_config (secret_values ''hunter2'') = print_config (secret_values ''x'')"
  by (rule print_config_hides_secrets)
    (simp add: public_eq_def entry_public_eq_def secret_values_def example_field_def)

lemma enforce_field_iff:
  assumes "schema_ok (v_fields v)" "f \<in> set (v_fields v)"
  shows "enforce_field v f = Inr () \<longleftrightarrow>
    (case fd_class f of
       Neutral \<Rightarrow> True
     | ProdRequired \<Rightarrow> v_entries v (fd_path f) \<noteq> None
     | DevOnly \<Rightarrow>
         (case v_entries v (fd_path f) of
            None \<Rightarrow> True
          | Some e \<Rightarrow> fd_kind f = KBool \<and> parse_bool (e_text e) = Some False))"
proof -
  have "values_bool_opt v (fd_path f) = (case v_entries v (fd_path f) of
      Some e \<Rightarrow> map_ok Some (parse_bool_entry f e) | None \<Rightarrow> Inr None)"
    by (simp add: values_bool_opt_def values_field_registered [OF assms])
  then show ?thesis
    by (auto simp: enforce_field_def class_enabled_def values_get_def parse_bool_entry_def ok_or_def
        result_simps split: cclass.splits ckind.splits option.splits if_splits)
qed

text \<open>The class check of a \<open>prod\<close> deployment, decided by the merged table alone: it passes
  exactly when every \<open>prod_required\<close> field has a value from some source and every \<open>dev_only\<close>
  field is off, that is unset or, for a boolean, spelled false. Under \<open>dev\<close> it always passes.\<close>

theorem class_enforce_prod:
  assumes "schema_ok (v_fields v)"
  shows "class_enforce v d = Inr () \<longleftrightarrow> d = Dev \<or>
    list_all (\<lambda>f. case fd_class f of
       Neutral \<Rightarrow> True
     | ProdRequired \<Rightarrow> v_entries v (fd_path f) \<noteq> None
     | DevOnly \<Rightarrow>
         (case v_entries v (fd_path f) of
            None \<Rightarrow> True
          | Some e \<Rightarrow> fd_kind f = KBool \<and> parse_bool (e_text e) = Some False)) (v_fields v)"
proof (cases d)
  case Prod
  then show ?thesis using enforce_field_iff [OF assms] by (simp add: enforce_ok_iff list_all_iff)
next
  case Dev
  then show ?thesis by (simp add: class_enforce_def)
qed

definition class_values :: "cclass \<Rightarrow> cvalues" where
  "class_values c =
     \<lparr>v_app = ''CRON'', v_fields = [example_field\<lparr>fd_class := c\<rparr>],
      v_entries = [[''port''] \<mapsto> \<lparr>e_text = ''81'', e_origin = ODefault\<rparr>],
      v_file = NotConfigured\<rparr>"

theorem class_enforce_prod_witness:
  "class_enforce (class_values ProdRequired) Prod = Inr ()
   \<and> class_enforce (class_values DevOnly) Prod \<noteq> Inr ()"
proof -
  have ok: "schema_ok (v_fields (class_values c))" for c by (cases c) code_simp+
  show ?thesis
    using class_enforce_prod [OF ok, of ProdRequired Prod] class_enforce_prod [OF ok, of DevOnly Prod]
    by (simp add: class_values_def example_field_def)
qed

text \<open>The refusal of a secret that does not parse: its value is the mask, and together with the
  rest of the message it is the same for every text of the secret that came from the same place and
  failed with the same parser message.\<close>

theorem secret_refusal_masked:
  assumes "fd_secret f" "e_origin e = e_origin e'" "from_str (e_text e) = Inl err"
    and "from_str (e_text e') = Inl err"
  shows "parse_text from_str tn f e acc = parse_text from_str tn f e' acc
    \<and> (\<exists>r. parse_text from_str tn f e acc = Inl (Refused r) \<and> r_value r = MASK)"
  using assms by (auto simp: parse_text_def wrong_type_def Let_def)

theorem secret_refusal_masked_witness:
  "parse_text (\<lambda>s. Inl ''not a number'' :: string + nat) ''u16'' (example_field\<lparr>fd_secret := True\<rparr>)
     \<lparr>e_text = ''hunter2'', e_origin = ODefault\<rparr> None =
   parse_text (\<lambda>s. Inl ''not a number'' :: string + nat) ''u16'' (example_field\<lparr>fd_secret := True\<rparr>)
     \<lparr>e_text = ''x'', e_origin = ODefault\<rparr> None"
  using secret_refusal_masked [of "example_field\<lparr>fd_secret := True\<rparr>"
      "\<lparr>e_text = ''hunter2'', e_origin = ODefault\<rparr>" "\<lparr>e_text = ''x'', e_origin = ODefault\<rparr>"
      "\<lambda>s. Inl ''not a number'' :: string + nat" "''not a number''" "''u16''" None] by simp

text \<open>
  The mask does not reach the parser's own message, which is quoted: a \<open>FromStr\<close> whose error
  repeats its input shows the secret.
\<close>

lemma secret_in_detail:
  "\<exists>r. parse_text (\<lambda>s. Inl (''bad: '' @ s) :: string + nat) ''u16'' (example_field\<lparr>fd_secret := True\<rparr>)
     \<lparr>e_text = ''hunter2'', e_origin = ODefault\<rparr> None = Inl (Refused r)
     \<and> r_detail r = Some ''set by default: bad: hunter2''"
  by (simp add: parse_text_def wrong_type_def Let_def)

end
