(* ===== verification/Config_Load.thy ===== *)
theory Config_Load
  imports Config_Values
begin

text \<open>
  \<open>lib.rs\<close> of \<open>crates/config\<close>: the load pipeline schema, args, merge, typed parse, class
  check. The trait \<open>Config\<close> is the locale \<open>config_type\<close>: its two functions are the
  parameters, its law is that \<open>from_values\<close> reads only what \<open>schema\<close> registers; the
  derive provides them (\<open>Config_Derive\<close>). \<open>Root\<close> adds the application's names and the
  deployment class of a value, which are arguments of \<open>load_from\<close>.
\<close>

datatype 'c outcome = OutConfig 'c | OutHelp string | OutPrint string

definition load_from ::
    "(string \<Rightarrow> string + string)
     \<Rightarrow> (string \<Rightarrow> (string \<times> nat option) + (string \<times> toml) list)
     \<Rightarrow> string \<Rightarrow> string \<Rightarrow> (cpath \<Rightarrow> cfield list) \<Rightarrow> (cvalues \<Rightarrow> cpath \<Rightarrow> fault + 'c)
     \<Rightarrow> ('c \<Rightarrow> deployment) \<Rightarrow> string list \<Rightarrow> (string \<times> string) list \<Rightarrow> fault + 'c outcome" where
  "load_from read_file parse_toml app bin schema from_values deployment_of args env =
     (let fds = schema path_root in
      and_then (map_err Refused (args_parse fds args)) (\<lambda>p.
        if pa_help p then Inr (OutHelp (help_text app bin fds))
        else and_then (map_err Refused (merge_layers read_file parse_toml app fds p env)) (\<lambda>v.
          if pa_print_config p then Inr (OutPrint (print_config v))
          else and_then (from_values v path_root) (\<lambda>c.
            and_then (class_enforce v (deployment_of c)) (\<lambda>_. Inr (OutConfig c))))))"

lemma load_from_config:
  assumes "load_from rf pt app bin schema fv dep args env = Inr (OutConfig c)"
  obtains p v where "args_parse (schema path_root) args = Inr p"
    "merge_layers rf pt app (schema path_root) p env = Inr v"
    "fv v path_root = Inr c" "class_enforce v (dep c) = Inr ()"
    "\<not> pa_help p" "\<not> pa_print_config p"
  using assms by (auto simp: load_from_def Let_def result_simps split: if_splits)

lemma merge_layers_fields: "merge_layers rf pt app fds p env = Inr v \<Longrightarrow> v_fields v = fds"
  by (auto dest: merge_layers_entries)

locale config_type =
  fixes schema :: "cpath \<Rightarrow> cfield list"
    and from_values :: "cvalues \<Rightarrow> cpath \<Rightarrow> fault + 'c"
  assumes reads_registered:
    "fd_path ` set (schema p) \<subseteq> fd_path ` set (v_fields v) \<Longrightarrow> from_values v p \<noteq> Inl (Panicked m)"
begin

lemma load_no_panic:
  "load_from rf pt app bin schema from_values dep args env \<noteq> Inl (Panicked m)"
proof
  assume "load_from rf pt app bin schema from_values dep args env = Inl (Panicked m)"
  then obtain p v where m: "merge_layers rf pt app (schema path_root) p env = Inr v"
    and fault: "from_values v path_root = Inl (Panicked m)
      \<or> (\<exists>c. class_enforce v (dep c) = Inl (Panicked m))"
    by (auto simp: load_from_def Let_def result_simps split: if_splits)
  from m have "v_fields v = schema path_root" by (rule merge_layers_fields)
  then have "from_values v path_root \<noteq> Inl (Panicked m)" by (intro reads_registered) simp
  with fault enforce_no_panic show False by blast
qed

lemma load_class_checked:
  assumes "load_from rf pt app bin schema from_values dep args env = Inr (OutConfig c)"
    and "dep c = Prod"
  shows "\<exists>p v. args_parse (schema path_root) args = Inr p
    \<and> merge_layers rf pt app (schema path_root) p env = Inr v
    \<and> (\<forall>f \<in> set (schema path_root). enforce_field v f = Inr ())"
proof -
  from assms(1) obtain p v where pv: "args_parse (schema path_root) args = Inr p"
    "merge_layers rf pt app (schema path_root) p env = Inr v"
    "class_enforce v (dep c) = Inr ()"
    by (rule load_from_config)
  with assms(2) have "\<forall>f \<in> set (v_fields v). enforce_field v f = Inr ()"
    by (simp add: enforce_ok_iff)
  with pv merge_layers_fields [OF pv(2)] show ?thesis by auto
qed

end

end
