(* ===== verification/Config_Derive.thy ===== *)
theory Config_Derive
  imports Config_Load
begin

text \<open>
  \<open>crates/config-derive/src/lib.rs\<close>: \<open>#[derive(Config)]\<close>. The syntax tree it inspects is a
  datatype with the parts of \<open>syn\<close> it looks at; the compile error is its message. The code
  it emits is data (\<open>impl_item\<close>), with an interpreter for each of the two functions it
  becomes. A nested field's impl is found by rustc, not by the macro: \<open>impl_of\<close>.
\<close>

section \<open>The input\<close>

text \<open>\<open>TyPath qself leading_colon segments\<close>; any other type is \<open>TyOther\<close>.\<close>

datatype rtype = TyPath bool bool "(string \<times> gargs) list" | TyOther string
  and gargs = NoArgs | AngleArgs "garg list" | ParenArgs
  and garg = GType rtype | GOther string

datatype meta = MetaFlag string | MetaStr string string | MetaOther string

datatype attr = AttrConfig "meta list" | AttrDoc string | AttrOther string

record input_field =
  in_ident :: string
  in_type :: rtype
  in_attrs :: "attr list"

text \<open>\<open>di_fields\<close> is \<open>None\<close> for an enum, a union, a tuple or a unit struct.\<close>

record derive_input =
  di_attrs :: "attr list"
  di_fields :: "input_field list option"

record root_attrs =
  ra_app :: "string option"
  ra_bin :: "string option"

record field_attrs =
  fa_default :: "string option"
  fa_required :: bool
  fa_secret :: bool
  fa_nested :: bool
  fa_prod_required :: bool
  fa_dev_only :: bool
  fa_env :: "string option"
  fa_accepted :: "string option"

datatype shape = ShBool | ShOptBool | ShOpt rtype | ShPlain rtype

section \<open>Attributes\<close>

definition config_metas :: "attr list \<Rightarrow> meta list" where
  "config_metas attrs = concat (map (\<lambda>a. case a of AttrConfig ms \<Rightarrow> ms | _ \<Rightarrow> []) attrs)"

text \<open>
  \<open>meta.value()?.parse::<LitStr>()\<close> fails without \<open>= "..."\<close>, and a flag that is followed by
  one leaves tokens \<open>parse_nested_meta\<close> refuses.
\<close>

definition root_meta :: "meta \<Rightarrow> root_attrs \<Rightarrow> string + root_attrs" where
  "root_meta m r =
     (case m of
        MetaStr k s \<Rightarrow>
          if k = ''app'' then Inr (r\<lparr>ra_app := Some s\<rparr>)
          else if k = ''bin'' then Inr (r\<lparr>ra_bin := Some s\<rparr>)
          else Inl ''unknown #[config] key on a struct: expected `app` or `bin`''
      | MetaFlag k \<Rightarrow>
          if k = ''app'' \<or> k = ''bin'' then Inl ''expected `=`''
          else Inl ''unknown #[config] key on a struct: expected `app` or `bin`''
      | MetaOther k \<Rightarrow>
          if k = ''app'' \<or> k = ''bin'' then Inl ''expected string literal''
          else Inl ''unknown #[config] key on a struct: expected `app` or `bin`'')"

fun fold_metas :: "(meta \<Rightarrow> 'r \<Rightarrow> string + 'r) \<Rightarrow> meta list \<Rightarrow> 'r \<Rightarrow> string + 'r" where
  "fold_metas f [] r = Inr r"
| "fold_metas f (m # ms) r = and_then (f m r) (fold_metas f ms)"

definition read_root_attrs :: "attr list \<Rightarrow> string + root_attrs" where
  "read_root_attrs attrs =
     and_then (fold_metas root_meta (config_metas attrs) \<lparr>ra_app = None, ra_bin = None\<rparr>) (\<lambda>out.
       if ra_bin out \<noteq> None \<and> ra_app out = None
       then Inl (''#[config(bin = '' @ ellipsis @ '')] needs #[config(app = '' @ ellipsis
                 @ '')] on the same struct'')
       else (case ra_app out of
               None \<Rightarrow> Inr out
             | Some app \<Rightarrow>
                 if app \<noteq> [] \<and> list_all is_ascii_alnum app then Inr out
                 else Inl (''#[config(app = '' @ ellipsis @ '')] is the env prefix: ''
                           @ ''ASCII letters and digits only, such as '' @ debug_str ''CRON'')))"

definition field_attrs_default :: field_attrs where
  "field_attrs_default =
     \<lparr>fa_default = None, fa_required = False, fa_secret = False, fa_nested = False,
      fa_prod_required = False, fa_dev_only = False, fa_env = None, fa_accepted = None\<rparr>"

definition field_flag_keys :: "string list" where
  "field_flag_keys = [''required'', ''secret'', ''nested'', ''prod_required'', ''dev_only'']"

definition unknown_field_key :: string where
  "unknown_field_key =
     ''unknown #[config] key on a field: expected default, required, secret, nested, '' @
     ''prod_required, dev_only or accepted''"

definition field_meta :: "meta \<Rightarrow> field_attrs \<Rightarrow> string + field_attrs" where
  "field_meta m r =
     (case m of
        MetaStr k s \<Rightarrow>
          if k = ''default'' then Inr (r\<lparr>fa_default := Some s\<rparr>)
          else if k = ''accepted'' then Inr (r\<lparr>fa_accepted := Some s\<rparr>)
          else if k \<in> set field_flag_keys then Inl ''expected `,`''
          else Inl unknown_field_key
      | MetaFlag k \<Rightarrow>
          if k = ''required'' then Inr (r\<lparr>fa_required := True\<rparr>)
          else if k = ''secret'' then Inr (r\<lparr>fa_secret := True\<rparr>)
          else if k = ''nested'' then Inr (r\<lparr>fa_nested := True\<rparr>)
          else if k = ''prod_required'' then Inr (r\<lparr>fa_prod_required := True\<rparr>)
          else if k = ''dev_only'' then Inr (r\<lparr>fa_dev_only := True\<rparr>)
          else if k = ''default'' \<or> k = ''accepted'' then Inl ''expected `=`''
          else Inl unknown_field_key
      | MetaOther k \<Rightarrow>
          if k = ''default'' \<or> k = ''accepted'' then Inl ''expected string literal''
          else if k \<in> set field_flag_keys then Inl ''expected `,`''
          else Inl unknown_field_key)"

definition read_field_attrs :: "input_field \<Rightarrow> string + field_attrs" where
  "read_field_attrs f = fold_metas field_meta (config_metas (in_attrs f)) field_attrs_default"

definition doc_text :: "attr list \<Rightarrow> string" where
  "doc_text attrs =
     join '' '' (List.map_filter
       (\<lambda>a. case a of
              AttrDoc line \<Rightarrow> (let t = trim line in if t = [] then None else Some t)
            | _ \<Rightarrow> None) attrs)"

section \<open>Shape, presence, class\<close>

fun type_is_ident :: "rtype \<Rightarrow> string \<Rightarrow> bool" where
  "type_is_ident (TyPath q lead [(ident, NoArgs)]) name = (\<not> q \<and> \<not> lead \<and> ident = name)"
| "type_is_ident _ name = False"

definition option_inner :: "rtype \<Rightarrow> rtype option" where
  "option_inner ty =
     (case ty of
        TyPath q lead segs \<Rightarrow>
          if q \<or> segs = [] then None
          else (case last segs of
                  (ident, AngleArgs [GType inner]) \<Rightarrow> if ident = ''Option'' then Some inner else None
                | _ \<Rightarrow> None)
      | TyOther _ \<Rightarrow> None)"

definition shape_of :: "rtype \<Rightarrow> shape" where
  "shape_of ty =
     (if type_is_ident ty ''bool'' then ShBool
      else (case option_inner ty of
              Some inner \<Rightarrow> if type_is_ident inner ''bool'' then ShOptBool else ShOpt inner
            | None \<Rightarrow> ShPlain ty))"

definition derive_class :: "shape \<Rightarrow> field_attrs \<Rightarrow> string + cclass" where
  "derive_class sh a =
     (case (fa_prod_required a, fa_dev_only a) of
        (False, False) \<Rightarrow> Inr Neutral
      | (True, True) \<Rightarrow> Inl ''a field is #[config(prod_required)] or #[config(dev_only)], not both''
      | (True, False) \<Rightarrow>
          (if (case sh of ShOpt _ \<Rightarrow> True | ShOptBool \<Rightarrow> True | _ \<Rightarrow> False)
              \<and> fa_default a = None \<and> \<not> fa_required a
           then Inr ProdRequired
           else Inl (''#[config(prod_required)] needs an Option<T> field with no default: '' @
                     ''unset is legal under dev and refused under prod''))
      | (False, True) \<Rightarrow>
          (if (case sh of ShOpt _ \<Rightarrow> True | ShOptBool \<Rightarrow> True | ShBool \<Rightarrow> True | _ \<Rightarrow> False)
              \<and> (case fa_default a of None \<Rightarrow> True | Some d \<Rightarrow> d = ''false'') \<and> \<not> fa_required a
           then Inr DevOnly
           else Inl (''#[config(dev_only)] needs an Option<T> or bool field with no default: '' @
                     ''set under prod is refused'')))"

definition derive_presence :: "shape \<Rightarrow> field_attrs \<Rightarrow> string + presence" where
  "derive_presence sh a =
     (if fa_default a \<noteq> None \<and> fa_required a
      then Inl (''a field is either #[config(default = '' @ ellipsis
                @ '')] or #[config(required)], not both'')
      else (case sh of
              ShPlain _ \<Rightarrow>
                (case (fa_default a, fa_required a) of
                   (Some d, _) \<Rightarrow> Inr (Default d)
                 | (None, True) \<Rightarrow> Inr Required
                 | (None, False) \<Rightarrow>
                     Inl (''a field needs #[config(default = '' @ debug_str ellipsis
                          @ '')], #[config(required)], '' @
                          ''or an Option<T> type''))
            | ShBool \<Rightarrow>
                Inr (case (fa_default a, fa_required a) of
                       (Some d, _) \<Rightarrow> Default d
                     | (None, True) \<Rightarrow> Required
                     | (None, False) \<Rightarrow> Default ''false'')
            | _ \<Rightarrow>
                if fa_default a \<noteq> None \<or> fa_required a
                then Inl (''an Option<T> field is optional by its type: drop the Option, '' @
                          ''or drop default/required'')
                else Inr Optional))"

section \<open>The emitted code\<close>

datatype reader = ReadBool | ReadOptBool | ReadLeaf rtype "string option" | ReadOpt rtype "string option"

record leaf_code =
  lc_name :: string
  lc_help :: string
  lc_presence :: presence
  lc_class :: cclass
  lc_secret :: bool
  lc_kind :: ckind
  lc_env :: "string option"
  lc_read :: reader

datatype impl_item = LeafItem leaf_code | NestedItem string "impl_item list"

definition nested_clash :: "field_attrs \<Rightarrow> bool" where
  "nested_clash a \<longleftrightarrow> fa_default a \<noteq> None \<or> fa_required a \<or> fa_secret a
     \<or> fa_prod_required a \<or> fa_dev_only a \<or> fa_accepted a \<noteq> None"

definition leaf_reader :: "shape \<Rightarrow> string option \<Rightarrow> reader" where
  "leaf_reader sh accepted =
     (case sh of
        ShBool \<Rightarrow> ReadBool
      | ShOptBool \<Rightarrow> ReadOptBool
      | ShPlain ty \<Rightarrow> ReadLeaf ty accepted
      | ShOpt ty \<Rightarrow> ReadOpt ty accepted)"

definition expand_leaf :: "bool \<Rightarrow> input_field \<Rightarrow> field_attrs \<Rightarrow> string + leaf_code" where
  "expand_leaf is_dep f attrs0 =
     (let attrs = (if is_dep then attrs0\<lparr>fa_required := True, fa_env := Some ''DEPLOYMENT_TYPE''\<rparr>
                   else attrs0);
          sh = shape_of (in_type f);
          accepted = (if is_dep then Some DEPLOYMENT_ACCEPTED else fa_accepted attrs)
      in and_then (derive_presence sh attrs) (\<lambda>pres.
           and_then (derive_class sh attrs) (\<lambda>cls.
             Inr \<lparr>lc_name = in_ident f,
                  lc_help = (if doc_text (in_attrs f) = [] \<and> is_dep then DEPLOYMENT_HELP
                             else doc_text (in_attrs f)),
                  lc_presence = pres, lc_class = cls, lc_secret = fa_secret attrs,
                  lc_kind = (case sh of ShBool \<Rightarrow> KBool | ShOptBool \<Rightarrow> KBool | _ \<Rightarrow> KText),
                  lc_env = fa_env attrs, lc_read = leaf_reader sh accepted\<rparr>)))"

definition expand_field ::
    "(rtype \<Rightarrow> impl_item list) \<Rightarrow> root_attrs \<Rightarrow> input_field \<Rightarrow> string + impl_item" where
  "expand_field impl_of root f =
     and_then (read_field_attrs f) (\<lambda>attrs.
       if fa_nested attrs then
         (if nested_clash attrs
          then Inl (''#[config(nested)] takes no other #[config] key: '' @
                    ''the inner struct declares its own'')
          else Inr (NestedItem (in_ident f) (impl_of (in_type f))))
       else
         (let is_dep = (ra_app root \<noteq> None \<and> in_ident f = ''deployment'') in
          if is_dep \<and> (fa_default attrs \<noteq> None \<or> fa_accepted attrs \<noteq> None)
          then Inl (''a root's `deployment` field is spelled by common-config (DEPLOYMENT_TYPE, '' @
                    ''required): it takes no default or accepted'')
          else map_ok LeafItem (expand_leaf is_dep f attrs)))"

definition is_deployment_item :: "impl_item \<Rightarrow> bool" where
  "is_deployment_item it = (case it of LeafItem l \<Rightarrow> lc_name l = ''deployment'' | _ \<Rightarrow> False)"

text \<open>
  The whole expansion: the items, and the \<open>APP\<close> and \<open>BIN\<close> of the \<open>Root\<close> impl. The
  \<open>has_deployment\<close> flag is set by a leaf named \<open>deployment\<close> when there is an \<open>app\<close>.
\<close>

definition derive_expand ::
    "(rtype \<Rightarrow> impl_item list) \<Rightarrow> derive_input
     \<Rightarrow> string + impl_item list \<times> (string \<times> string) option" where
  "derive_expand impl_of input =
     and_then (read_root_attrs (di_attrs input)) (\<lambda>root.
       case di_fields input of
         None \<Rightarrow> Inl ''#[derive(Config)] needs a struct with named fields''
       | Some fs \<Rightarrow>
           and_then (traverse (expand_field impl_of root) fs) (\<lambda>items.
             if ra_app root \<noteq> None \<and> \<not> list_ex is_deployment_item items
             then Inl (''#[config(app = '' @ ellipsis @ '')] needs a '' @
                       ''`deployment: common_config::Deployment` field'')
             else Inr (items, map_option
                    (\<lambda>app. (app, unwrap_or (ascii_lower app) (ra_bin root))) (ra_app root))))"

section \<open>What the emitted code does\<close>

definition leaf_field :: "leaf_code \<Rightarrow> cpath \<Rightarrow> cfield" where
  "leaf_field l prefix =
     \<lparr>fd_path = path_child prefix (lc_name l), fd_help = lc_help l, fd_presence = lc_presence l,
      fd_class = lc_class l, fd_secret = lc_secret l, fd_kind = lc_kind l, fd_env = lc_env l\<rparr>"

fun impl_schema :: "impl_item list \<Rightarrow> cpath \<Rightarrow> cfield list" where
  "impl_schema [] prefix = []"
| "impl_schema (LeafItem l # items) prefix = leaf_field l prefix # impl_schema items prefix"
| "impl_schema (NestedItem name inner # items) prefix =
     impl_schema inner (path_child prefix name) @ impl_schema items prefix"

datatype 'a cval =
    CBool bool | COptBool "bool option" | CLeaf 'a | COptLeaf "'a option"
  | CStruct "(string \<times> 'a cval) list"

definition read_leaf ::
    "(rtype \<Rightarrow> string \<Rightarrow> string + 'a) \<Rightarrow> (rtype \<Rightarrow> string) \<Rightarrow> cvalues \<Rightarrow> cpath \<Rightarrow> reader
     \<Rightarrow> fault + 'a cval" where
  "read_leaf from_str type_name v p r =
     (case r of
        ReadBool \<Rightarrow> map_ok CBool (values_bool v p)
      | ReadOptBool \<Rightarrow> map_ok COptBool (values_bool_opt v p)
      | ReadLeaf ty acc \<Rightarrow> map_ok CLeaf (values_leaf (from_str ty) (type_name ty) v p acc)
      | ReadOpt ty acc \<Rightarrow> map_ok COptLeaf (values_leaf_opt (from_str ty) (type_name ty) v p acc))"

fun impl_from_values ::
    "(rtype \<Rightarrow> string \<Rightarrow> string + 'a) \<Rightarrow> (rtype \<Rightarrow> string) \<Rightarrow> impl_item list \<Rightarrow> cvalues \<Rightarrow> cpath
     \<Rightarrow> fault + (string \<times> 'a cval) list" where
  "impl_from_values fs tn [] v prefix = Inr []"
| "impl_from_values fs tn (LeafItem l # items) v prefix =
     and_then (read_leaf fs tn v (path_child prefix (lc_name l)) (lc_read l)) (\<lambda>x.
       map_ok (Cons (lc_name l, x)) (impl_from_values fs tn items v prefix))"
| "impl_from_values fs tn (NestedItem name inner # items) v prefix =
     and_then (impl_from_values fs tn inner v (path_child prefix name)) (\<lambda>x.
       map_ok (Cons (name, CStruct x)) (impl_from_values fs tn items v prefix))"

text \<open>\<open>self.deployment\<close>: the field exists in every value a root's \<open>from_values\<close> returns.\<close>

definition root_deployment :: "('a \<Rightarrow> deployment) \<Rightarrow> (string \<times> 'a cval) list \<Rightarrow> deployment" where
  "root_deployment as_deployment c =
     (case map_of c ''deployment'' of Some (CLeaf x) \<Rightarrow> as_deployment x)"

section \<open>The emitted impl keeps the trait's law\<close>

lemma read_leaf_no_panic:
  "p \<in> fd_path ` set (v_fields v) \<Longrightarrow> read_leaf fs tn v p r \<noteq> Inl (Panicked m)"
  using read_no_panic
  by (cases r) (auto simp: read_leaf_def result_simps read_no_panic)

lemma impl_reads_registered:
  "fd_path ` set (impl_schema items prefix) \<subseteq> fd_path ` set (v_fields v) \<Longrightarrow>
   impl_from_values fs tn items v prefix \<noteq> Inl (Panicked m)"
  by (induction fs tn items v prefix rule: impl_from_values.induct)
    (auto simp: result_simps read_leaf_no_panic leaf_field_def)

interpretation derived: config_type "impl_schema items" "impl_from_values fs tn items"
  by unfold_locales (rule impl_reads_registered)

section \<open>What an accepted struct declares\<close>

fun leaf_codes :: "impl_item list \<Rightarrow> leaf_code list" where
  "leaf_codes [] = []"
| "leaf_codes (LeafItem l # items) = l # leaf_codes items"
| "leaf_codes (NestedItem name inner # items) = leaf_codes inner @ leaf_codes items"

text \<open>
  A \<open>prod_required\<close> leaf is read as an option and has no default, so unset is possible; a
  \<open>dev_only\<close> leaf is off unless a source turns it on; only the root's \<open>deployment\<close> has an
  environment name of its own.
\<close>

definition leaf_sound :: "leaf_code \<Rightarrow> bool" where
  "leaf_sound l \<longleftrightarrow>
     (lc_class l = ProdRequired \<longrightarrow> lc_presence l = Optional \<and>
        (case lc_read l of ReadOpt _ _ \<Rightarrow> True | ReadOptBool \<Rightarrow> True | _ \<Rightarrow> False))
     \<and> (lc_class l = DevOnly \<longrightarrow>
          lc_presence l = Optional \<or> lc_presence l = Default ''false'' \<and> lc_kind l = KBool)
     \<and> (lc_presence l = Optional \<longleftrightarrow>
          (case lc_read l of ReadOpt _ _ \<Rightarrow> True | ReadOptBool \<Rightarrow> True | _ \<Rightarrow> False))
     \<and> (lc_kind l = KBool \<longleftrightarrow> (case lc_read l of ReadBool \<Rightarrow> True | ReadOptBool \<Rightarrow> True | _ \<Rightarrow> False))
     \<and> (lc_env l \<noteq> None \<longrightarrow>
          lc_name l = ''deployment'' \<and> lc_env l = Some DEPLOYMENT_VARIABLE \<and> lc_presence l = Required)"

lemma fold_metas_env:
  "fold_metas field_meta ms r = Inr a \<Longrightarrow> fa_env a = fa_env r"
  by (induction ms arbitrary: r)
    (auto simp: result_simps field_meta_def split: meta.splits if_splits)

lemma read_field_attrs_env: "read_field_attrs f = Inr a \<Longrightarrow> fa_env a = None"
  by (auto simp: read_field_attrs_def field_attrs_default_def dest: fold_metas_env)

lemma expand_leaf_sound:
  assumes "expand_leaf is_dep f a = Inr l" "fa_env a = None"
    and "is_dep \<Longrightarrow> in_ident f = ''deployment''"
  shows "leaf_sound l"
  using assms
  by (cases "shape_of (in_type f)"; cases is_dep)
    (auto simp: leaf_sound_def expand_leaf_def Let_def result_simps derive_presence_def
      derive_class_def leaf_reader_def DEPLOYMENT_VARIABLE_def
      split: if_splits bool.splits option.splits)

lemma expand_field_sound:
  assumes "expand_field impl_of root f = Inr it"
    and "\<And>ty l. l \<in> set (leaf_codes (impl_of ty)) \<Longrightarrow> leaf_sound l"
    and "l \<in> set (leaf_codes [it])"
  shows "leaf_sound l"
  using assms read_field_attrs_env expand_leaf_sound
  by (fastforce simp: expand_field_def Let_def result_simps split: if_splits)

lemma leaf_codes_Cons: "set (leaf_codes (it # items)) = set (leaf_codes [it]) \<union> set (leaf_codes items)"
  by (cases it) auto

lemma derive_expand_items:
  assumes "derive_expand impl_of input = Inr (items, r)"
  obtains fs root where "di_fields input = Some fs" "read_root_attrs (di_attrs input) = Inr root"
    "list_all2 (\<lambda>f it. expand_field impl_of root f = Inr it) fs items"
    "ra_app root \<noteq> None \<Longrightarrow> list_ex is_deployment_item items"
    "r = map_option (\<lambda>app. (app, unwrap_or (ascii_lower app) (ra_bin root))) (ra_app root)"
proof -
  from assms obtain fs root where "di_fields input = Some fs" "read_root_attrs (di_attrs input) = Inr root"
    "traverse (expand_field impl_of root) fs = Inr items"
    "ra_app root \<noteq> None \<Longrightarrow> list_ex is_deployment_item items"
    "r = map_option (\<lambda>app. (app, unwrap_or (ascii_lower app) (ra_bin root))) (ra_app root)"
    unfolding derive_expand_def result_simps
    apply (cases "di_fields input"; cases "read_root_attrs (di_attrs input)")
       apply simp_all
    subgoal for fs root
      by (cases "traverse (expand_field impl_of root) fs"; cases "ra_app root")
        (simp_all split: if_splits)
    done
  then show thesis by (intro that) (auto simp: traverse_Inr)
qed

lemma derive_expand_sound:
  assumes "derive_expand impl_of input = Inr (items, r)"
    and "\<And>ty l. l \<in> set (leaf_codes (impl_of ty)) \<Longrightarrow> leaf_sound l"
    and "l \<in> set (leaf_codes items)"
  shows "leaf_sound l"
proof -
  from assms(1) obtain fs root where
    "list_all2 (\<lambda>f it. expand_field impl_of root f = Inr it) fs items"
    by (rule derive_expand_items)
  then show ?thesis using assms(3)
  proof (induction rule: list_all2_induct)
    case (Cons f fs it items)
    from Cons.prems leaf_codes_Cons [of it items]
    consider "l \<in> set (leaf_codes [it])" | "l \<in> set (leaf_codes items)" by auto
    then show ?case using Cons expand_field_sound [of impl_of root f it l] assms(2) by cases auto
  qed simp
qed

section \<open>The schema of distinct names\<close>

fun item_name :: "impl_item \<Rightarrow> string" where
  "item_name (LeafItem l) = lc_name l"
| "item_name (NestedItem name inner) = name"

text \<open>rustc: the fields of a struct have different names; a snake-case name is a segment.\<close>

fun items_ok :: "impl_item list \<Rightarrow> bool" where
  "items_ok [] = True"
| "items_ok (it # items) =
     (seg_ok (item_name it) \<and> item_name it \<notin> item_name ` set items \<and> items_ok items
      \<and> (case it of LeafItem l \<Rightarrow> True | NestedItem name inner \<Rightarrow> items_ok inner))"

lemma schema_path_shape:
  "f \<in> set (impl_schema items prefix) \<Longrightarrow>
   \<exists>it q. it \<in> set items \<and> fd_path f = prefix @ item_name it # q
     \<and> (q = [] \<longleftrightarrow> (\<exists>l. it = LeafItem l))"
proof (induction items prefix rule: impl_schema.induct)
  case (2 l items prefix)
  then show ?case by (auto simp: leaf_field_def path_child_def)
next
  case (3 name inner items prefix)
  then consider "f \<in> set (impl_schema inner (path_child prefix name))"
    | "f \<in> set (impl_schema items prefix)" by auto
  then show ?case
  proof cases
    case 1
    with "3.IH"(1) obtain it q where "fd_path f = path_child prefix name @ item_name it # q" by blast
    then show ?thesis
      by (intro exI [of _ "NestedItem name inner"] exI [of _ "item_name it # q"])
        (simp add: path_child_def)
  next
    case 2
    with "3.IH"(2) show ?thesis by auto
  qed
qed simp

lemma schema_paths_disjoint:
  assumes "f \<in> set (impl_schema items prefix)" "name \<notin> item_name ` set items"
  shows "fd_path f \<noteq> prefix @ name # q"
proof
  assume e: "fd_path f = prefix @ name # q"
  from schema_path_shape [OF assms(1)] obtain it r where
    "it \<in> set items" "fd_path f = prefix @ item_name it # r" by blast
  with e assms(2) show False by auto
qed

lemma schema_paths_distinct:
  "items_ok items \<Longrightarrow> distinct (map fd_path (impl_schema items prefix))"
proof (induction items prefix rule: impl_schema.induct)
  case (2 l items prefix)
  then have "lc_name l \<notin> item_name ` set items" by simp
  then have "prefix @ [lc_name l] \<notin> fd_path ` set (impl_schema items prefix)"
    using schema_paths_disjoint [of _ items prefix "lc_name l" "[]"] by fastforce
  with 2 show ?case by (auto simp: leaf_field_def path_child_def)
next
  case (3 name inner items prefix)
  have "fd_path f \<noteq> fd_path g"
    if "f \<in> set (impl_schema inner (path_child prefix name))" "g \<in> set (impl_schema items prefix)" for f g
  proof -
    from schema_path_shape [OF that(1)] obtain q where "fd_path f = prefix @ name # q"
      by (auto simp: path_child_def)
    with schema_paths_disjoint [OF that(2), of name q] "3.prems" show ?thesis by simp
  qed
  with 3 show ?case by (auto simp: image_iff)
qed simp

lemma schema_paths_ok:
  "items_ok items \<Longrightarrow> list_all seg_ok prefix \<Longrightarrow> f \<in> set (impl_schema items prefix) \<Longrightarrow>
   path_ok (fd_path f)"
  by (induction items prefix rule: impl_schema.induct)
    (auto simp: leaf_field_def path_child_def path_ok_def)

text \<open>Names a root may not use, because its flag would be one of the built-in ones.\<close>

definition root_items_ok :: "impl_item list \<Rightarrow> bool" where
  "root_items_ok items \<longleftrightarrow> items_ok items
     \<and> (\<forall>l. LeafItem l \<in> set items \<longrightarrow> [lc_name l] \<notin> set reserved_paths)"

lemma reserved_singleton: "p \<in> set reserved_paths \<Longrightarrow> \<exists>s. p = [s]"
  by (auto simp: reserved_paths_def)

lemma impl_schema_ok:
  assumes "root_items_ok items"
  shows "schema_ok (impl_schema items path_root)"
  unfolding schema_ok_def
proof (intro conjI ballI)
  show "distinct (map fd_path (impl_schema items path_root))"
    using assms schema_paths_distinct by (simp add: root_items_ok_def)
  fix f assume f: "f \<in> set (impl_schema items path_root)"
  show "path_ok (fd_path f)"
    using assms schema_paths_ok [OF _ _ f] by (simp add: root_items_ok_def path_root_def)
  from schema_path_shape [OF f] obtain it q where it: "it \<in> set items"
    "fd_path f = item_name it # q" "q = [] \<longleftrightarrow> (\<exists>l. it = LeafItem l)"
    by (auto simp: path_root_def)
  show "fd_path f \<notin> set reserved_paths"
  proof
    assume r: "fd_path f \<in> set reserved_paths"
    with reserved_singleton it(2) have "q = []" by fastforce
    with it obtain l where "LeafItem l \<in> set items" "fd_path f = [lc_name l]" by auto
    with r assms show False by (auto simp: root_items_ok_def)
  qed
qed

section \<open>Properties\<close>

text \<open>C16: Loading a derived config never panics: whatever the arguments, the environment, the file
  and the leaves' own parsers do, the emitted \<open>from_values\<close> reads only leaves its \<open>schema\<close>
  registered, so \<open>Values::field\<close> always finds them, and so does the class check.\<close>

theorem derived_load_no_panic:
  "load_from rf pt app bin (impl_schema items) (impl_from_values fs tn items) dep args env
    \<noteq> Inl (Panicked m)"
  by (rule derived.load_no_panic)

text \<open>
  A config that loads under \<open>prod\<close>: in the merged table every \<open>prod_required\<close> leaf of the derived
  schema is set and every \<open>dev_only\<close> leaf is off.
\<close>

lemma items_load_prod:
  assumes "root_items_ok items" "dep c = Prod"
    and "load_from rf pt app bin (impl_schema items) (impl_from_values fs tn items) dep args env
      = Inr (OutConfig c)"
  shows "\<exists>p v. args_parse (impl_schema items path_root) args = Inr p
    \<and> merge_layers rf pt app (impl_schema items path_root) p env = Inr v
    \<and> list_all (\<lambda>f. case fd_class f of
         Neutral \<Rightarrow> True
       | ProdRequired \<Rightarrow> v_entries v (fd_path f) \<noteq> None
       | DevOnly \<Rightarrow>
           (case v_entries v (fd_path f) of
              None \<Rightarrow> True
            | Some e \<Rightarrow> fd_kind f = KBool \<and> parse_bool (e_text e) = Some False))
       (impl_schema items path_root)"
proof -
  let ?fds = "impl_schema items path_root"
  from derived.load_class_checked [OF assms(3,2)] obtain p v where
    p: "args_parse ?fds args = Inr p" and m: "merge_layers rf pt app ?fds p env = Inr v"
    and all: "\<forall>f \<in> set ?fds. enforce_field v f = Inr ()" by blast
  have vf: "v_fields v = ?fds" using m by (rule merge_layers_fields)
  have "schema_ok (v_fields v)" using impl_schema_ok [OF assms(1)] vf by simp
  with all vf show ?thesis
    by (intro exI [of _ p] exI [of _ v]) (simp add: p m list_all_iff enforce_field_iff)
qed

text \<open>C40: What an accepted \<open>#[derive(Config)]\<close> emits is consistent: a \<open>prod_required\<close> leaf is an
  \<open>Option\<close> without a default, so that unset is possible; a \<open>dev_only\<close> leaf is off unless a source
  turns it on; a leaf is optional exactly when it is read as an option, and boolean exactly when it
  is read as a boolean; and only a root's \<open>deployment\<close>, required, has an environment variable that
  is not generated. Nested structs contribute leaves that were accepted by their own expansion.\<close>

theorem derive_accepts_sound:
  assumes "derive_expand impl_of input = Inr (items, r)"
    and "\<And>ty l. l \<in> set (leaf_codes (impl_of ty)) \<Longrightarrow> leaf_sound l"
    and "l \<in> set (leaf_codes items)"
  shows "(lc_class l = ProdRequired \<longrightarrow> lc_presence l = Optional \<and>
         (case lc_read l of ReadOpt _ _ \<Rightarrow> True | ReadOptBool \<Rightarrow> True | _ \<Rightarrow> False))
    \<and> (lc_class l = DevOnly \<longrightarrow>
         lc_presence l = Optional \<or> lc_presence l = Default ''false'' \<and> lc_kind l = KBool)
    \<and> (lc_presence l = Optional \<longleftrightarrow>
         (case lc_read l of ReadOpt _ _ \<Rightarrow> True | ReadOptBool \<Rightarrow> True | _ \<Rightarrow> False))
    \<and> (lc_kind l = KBool \<longleftrightarrow> (case lc_read l of ReadBool \<Rightarrow> True | ReadOptBool \<Rightarrow> True | _ \<Rightarrow> False))
    \<and> (lc_env l \<noteq> None \<longrightarrow>
         lc_name l = ''deployment'' \<and> lc_env l = Some DEPLOYMENT_VARIABLE \<and> lc_presence l = Required)"
  by (rule derive_expand_sound [OF assms, unfolded leaf_sound_def])

definition sample_input :: derive_input where
  "sample_input = \<lparr>di_attrs = [AttrConfig [MetaStr ''app'' ''CRON'']],
     di_fields = Some [\<lparr>in_ident = ''deployment'',
       in_type = TyPath False False [(''Deployment'', NoArgs)], in_attrs = []\<rparr>,
      \<lparr>in_ident = ''trace'', in_type = TyPath False False [(''bool'', NoArgs)],
       in_attrs = [AttrConfig [MetaFlag ''dev_only'']]\<rparr>]\<rparr>"

lemma sample_root:
  "read_root_attrs (di_attrs sample_input) = Inr \<lparr>ra_app = Some ''CRON'', ra_bin = None\<rparr>"
  "ascii_lower ''CRON'' = ''cron''"
  by code_simp+

lemma sample_field:
  "read_field_attrs \<lparr>in_ident = ''trace'', in_type = t, in_attrs = [AttrConfig [MetaFlag ''dev_only'']]\<rparr>
     = Inr (field_attrs_default\<lparr>fa_dev_only := True\<rparr>)"
  "read_field_attrs \<lparr>in_ident = ''deployment'', in_type = t, in_attrs = []\<rparr> = Inr field_attrs_default"
  by (simp_all add: read_field_attrs_def config_metas_def field_meta_def)

lemma sample_expand:
  "map_ok (\<lambda>(items, r). (map (\<lambda>l. (lc_class l, lc_presence l)) (leaf_codes items), r))
      (derive_expand (\<lambda>_. []) sample_input) =
      Inr ([(Neutral, Required), (DevOnly, Default ''false'')], Some (''CRON'', ''cron''))"
  by (simp add: derive_expand_def sample_root)
    (simp add: sample_input_def expand_field_def sample_field field_attrs_default_def expand_leaf_def
      shape_of_def option_inner_def doc_text_def List.map_filter_simps derive_presence_def
      derive_class_def is_deployment_item_def leaf_reader_def sample_root(2))

theorem derive_accepts_sound_witness:
  "\<exists>items l. derive_expand (\<lambda>_. []) sample_input = Inr (items, Some (''CRON'', ''cron''))
     \<and> l \<in> set (leaf_codes items) \<and> lc_class l = DevOnly \<and> lc_presence l = Default ''false''"
proof -
  from sample_expand obtain items r where e: "derive_expand (\<lambda>_. []) sample_input = Inr (items, r)"
    and m: "map (\<lambda>l. (lc_class l, lc_presence l)) (leaf_codes items) =
      [(Neutral, Required), (DevOnly, Default ''false'')]" and r: "r = Some (''CRON'', ''cron'')"
    by (cases "derive_expand (\<lambda>_. []) sample_input") auto
  from m have "(DevOnly, Default ''false'') \<in> (\<lambda>l. (lc_class l, lc_presence l)) ` set (leaf_codes items)"
    unfolding set_map [symmetric] by simp
  then obtain l where in_items: "l \<in> set (leaf_codes items)"
    and pair: "(DevOnly, Default ''false'') = (lc_class l, lc_presence l)" by blast
  then have l: "l \<in> set (leaf_codes items)" "lc_class l = DevOnly"
    and p: "lc_presence l \<noteq> Optional" by auto
  from derive_accepts_sound [OF e _ l(1)] l(2) p have "lc_presence l = Default ''false''" by auto
  with e r l show ?thesis by blast
qed

end
