(* ===== verification/Config_Root.thy ===== *)
theory Config_Root
  imports Config_Derive
begin

text \<open>
  From the struct an author writes to the config a process runs with: \<open>#[derive(Config)]\<close> on a root
  struct (\<open>config-derive\<close>), then \<open>load\<close> of \<open>crates/config\<close> over what it emitted.
\<close>

section \<open>What the fields of an accepted struct become\<close>

text \<open>Distinct snake-case names (rustc), none of them the name of a built-in flag.\<close>

definition field_names_ok :: "input_field list \<Rightarrow> bool" where
  "field_names_ok fs \<longleftrightarrow> distinct (map in_ident fs)
     \<and> list_all (\<lambda>f. seg_ok (in_ident f) \<and> [in_ident f] \<notin> set reserved_paths) fs"

lemma expand_field_item:
  assumes "expand_field impl_of root f = Inr it"
  shows "item_name it = in_ident f"
    "it = NestedItem name inner \<Longrightarrow> inner = impl_of (in_type f)"
  using assms
  by (auto simp: expand_field_def Let_def result_simps expand_leaf_def split: if_splits)

lemma expand_items_ok:
  assumes "list_all2 (\<lambda>f it. expand_field impl_of root f = Inr it) fs items"
    and "field_names_ok fs" "\<And>f. f \<in> set fs \<Longrightarrow> items_ok (impl_of (in_type f))"
  shows "items_ok items \<and> item_name ` set items = in_ident ` set fs"
  using assms
proof (induction rule: list_all2_induct)
  case (Cons f fs it items)
  then have "items_ok items \<and> item_name ` set items = in_ident ` set fs"
    by (auto simp: field_names_ok_def)
  moreover have "in_ident f \<notin> in_ident ` set fs" "seg_ok (in_ident f)"
    using Cons.prems(1) by (auto simp: field_names_ok_def)
  ultimately show ?case
    using expand_field_item [OF Cons.hyps(1)] Cons.prems(2) [of f]
    by (auto split: impl_item.splits)
qed simp

lemma derive_root_ok:
  assumes "derive_expand impl_of input = Inr (items, r)" "di_fields input = Some fs"
    and "field_names_ok fs" "\<And>f. f \<in> set fs \<Longrightarrow> items_ok (impl_of (in_type f))"
  shows "root_items_ok items"
proof -
  obtain root where all: "list_all2 (\<lambda>f it. expand_field impl_of root f = Inr it) fs items"
    by (rule derive_expand_items [OF assms(1)]) (use assms(2) in simp)
  note ok = expand_items_ok [OF all assms(3,4)]
  have "[lc_name l] \<notin> set reserved_paths" if "LeafItem l \<in> set items" for l
  proof -
    from that ok have "lc_name l \<in> in_ident ` set fs" by force
    with assms(3) show ?thesis by (auto simp: field_names_ok_def list_all_iff)
  qed
  with ok show ?thesis by (simp add: root_items_ok_def)
qed

text \<open>A field with a class becomes a leaf of that class.\<close>

lemma expand_field_class:
  assumes "expand_field impl_of root f = Inr it" "read_field_attrs f = Inr a"
    and "fa_prod_required a \<or> fa_dev_only a"
  shows "\<exists>l. it = LeafItem l \<and> lc_name l = in_ident f
    \<and> (fa_prod_required a \<longrightarrow> lc_class l = ProdRequired) \<and> (fa_dev_only a \<longrightarrow> lc_class l = DevOnly)"
  using assms
  by (auto simp: expand_field_def Let_def result_simps expand_leaf_def derive_class_def nested_clash_def
      split: if_splits bool.splits)

lemma leaf_in_schema:
  "LeafItem l \<in> set items \<Longrightarrow> leaf_field l prefix \<in> set (impl_schema items prefix)"
  by (induction items prefix rule: impl_schema.induct) auto


section \<open>Properties\<close>

text \<open>C17: The struct's own declarations hold of a config that loads under \<open>prod\<close>. For a root struct the
  macro accepts, with the impls of its nested structs: when the load gives a config whose deployment
  is \<open>prod\<close>, every field marked \<open>prod_required\<close> has a value from some source and every field marked
  \<open>dev_only\<close> is unset or spelled false, and so for every leaf of the nested structs.\<close>

theorem derived_load_prod:
  assumes "derive_expand impl_of input = Inr (items, Some (app, bin))" "di_fields input = Some fs"
    and "field_names_ok fs" "\<And>f. f \<in> set fs \<Longrightarrow> items_ok (impl_of (in_type f))"
    and "load_from rf pt app bin (impl_schema items) (impl_from_values from_str tn items) dep args env
      = Inr (OutConfig c)" "dep c = Prod"
  shows "\<exists>p v. args_parse (impl_schema items path_root) args = Inr p
    \<and> merge_layers rf pt app (impl_schema items path_root) p env = Inr v
    \<and> (\<forall>f a. f \<in> set fs \<and> read_field_attrs f = Inr a \<longrightarrow>
         (fa_prod_required a \<longrightarrow> v_entries v [in_ident f] \<noteq> None)
         \<and> (fa_dev_only a \<longrightarrow> (case v_entries v [in_ident f] of
              None \<Rightarrow> True | Some e \<Rightarrow> parse_bool (e_text e) = Some False)))
    \<and> list_all (\<lambda>f. case fd_class f of
         Neutral \<Rightarrow> True
       | ProdRequired \<Rightarrow> v_entries v (fd_path f) \<noteq> None
       | DevOnly \<Rightarrow>
           (case v_entries v (fd_path f) of
              None \<Rightarrow> True
            | Some e \<Rightarrow> fd_kind f = KBool \<and> parse_bool (e_text e) = Some False))
       (impl_schema items path_root)"
proof -
  let ?ok = "\<lambda>v f. case fd_class f of
         Neutral \<Rightarrow> True
       | ProdRequired \<Rightarrow> v_entries v (fd_path f) \<noteq> None
       | DevOnly \<Rightarrow> (case v_entries v (fd_path f) of
            None \<Rightarrow> True | Some e \<Rightarrow> fd_kind f = KBool \<and> parse_bool (e_text e) = Some False)"
  have "root_items_ok items" by (rule derive_root_ok [OF assms(1-4)])
  from items_load_prod [OF this assms(6,5)] obtain p v where
    pv: "args_parse (impl_schema items path_root) args = Inr p"
      "merge_layers rf pt app (impl_schema items path_root) p env = Inr v"
    and all: "list_all (?ok v) (impl_schema items path_root)" by blast
  obtain root where items: "list_all2 (\<lambda>f it. expand_field impl_of root f = Inr it) fs items"
    by (rule derive_expand_items [OF assms(1)]) (use assms(2) in simp)
  have "(fa_prod_required a \<longrightarrow> v_entries v [in_ident f] \<noteq> None)
      \<and> (fa_dev_only a \<longrightarrow> (case v_entries v [in_ident f] of
           None \<Rightarrow> True | Some e \<Rightarrow> parse_bool (e_text e) = Some False))"
    if "f \<in> set fs" "read_field_attrs f = Inr a" for f a
  proof (cases "fa_prod_required a \<or> fa_dev_only a")
    case True
    from list_all2_left [OF items that(1)] obtain it where
      it: "it \<in> set items" "expand_field impl_of root f = Inr it" by blast
    from expand_field_class [OF it(2) that(2) True] obtain l where l: "it = LeafItem l"
      "lc_name l = in_ident f" "fa_prod_required a \<longrightarrow> lc_class l = ProdRequired"
      "fa_dev_only a \<longrightarrow> lc_class l = DevOnly" by blast
    with it(1) all leaf_in_schema [of l items path_root] have "?ok v (leaf_field l path_root)"
      by (auto simp: list_all_iff)
    with l show ?thesis by (auto simp: leaf_field_def path_child_def path_root_def split: option.splits)
  qed simp
  with pv all show ?thesis by blast
qed

text \<open>A root struct with a nested one that must be set under \<open>prod\<close>.\<close>

abbreviation named_type :: "string \<Rightarrow> rtype" where
  "named_type name \<equiv> TyPath False False [(name, NoArgs)]"

definition prod_impl :: "rtype \<Rightarrow> impl_item list" where
  "prod_impl ty = (if ty = named_type ''Db'' then
     [LeafItem \<lparr>lc_name = ''url'', lc_help = '''', lc_presence = Optional,
        lc_class = ProdRequired, lc_secret = True, lc_kind = KText, lc_env = None,
        lc_read = ReadOpt (named_type ''String'') None\<rparr>] else [])"

definition prod_input :: derive_input where
  "prod_input = \<lparr>di_attrs = [AttrConfig [MetaStr ''app'' ''CRON'']],
     di_fields = Some [\<lparr>in_ident = ''deployment'', in_type = named_type ''Deployment'', in_attrs = []\<rparr>,
      \<lparr>in_ident = ''db'', in_type = named_type ''Db'', in_attrs = [AttrConfig [MetaFlag ''nested'']]\<rparr>]\<rparr>"

definition prod_items_with :: "string \<Rightarrow> string option \<Rightarrow> impl_item list" where
  "prod_items_with doc accepted =
     [LeafItem \<lparr>lc_name = ''deployment'', lc_help = doc, lc_presence = Required,
        lc_class = Neutral, lc_secret = False, lc_kind = KText, lc_env = Some ''DEPLOYMENT_TYPE'',
        lc_read = ReadLeaf (named_type ''Deployment'') accepted\<rparr>,
      NestedItem ''db'' (prod_impl (named_type ''Db''))]"

definition prod_items :: "impl_item list" where
  "prod_items = prod_items_with DEPLOYMENT_HELP (Some DEPLOYMENT_ACCEPTED)"

lemma prod_expands: "derive_expand prod_impl prod_input = Inr (prod_items, Some (''CRON'', ''cron''))"
proof -
  have "list_all is_ascii_alnum ''CRON''" "ascii_lower ''CRON'' = ''cron''" by code_simp+
  then show ?thesis
    by (simp add: prod_input_def prod_items_def prod_items_with_def derive_expand_def expand_field_def Let_def
        read_field_attrs_def config_metas_def field_meta_def field_attrs_default_def expand_leaf_def
        shape_of_def option_inner_def derive_presence_def derive_class_def leaf_reader_def
        read_root_attrs_def root_meta_def nested_clash_def is_deployment_item_def doc_text_def
        List.map_filter_simps)
qed

definition prod_config :: "(string \<times> string cval) list" where
  "prod_config =
     [(''deployment'', CLeaf ''prod''), (''db'', CStruct [(''url'', COptLeaf (Some ''postgres''))])]"

lemma prod_loads:
  "load_from (\<lambda>_. Inl []) (\<lambda>_. Inr []) ''CRON'' ''cron'' (impl_schema (prod_items_with doc accepted))
     (impl_from_values (\<lambda>_. Inr) (\<lambda>_. ''String'') (prod_items_with doc accepted))
     (root_deployment (\<lambda>s. if s = ''prod'' then Prod else Dev)) [''--db--url'', ''postgres'']
     [(''DEPLOYMENT_TYPE'', ''prod'')] = Inr (OutConfig prod_config)"
  by code_simp

theorem derived_load_prod_witness:
  "\<exists>v. values_get v [''db'', ''url''] \<noteq> None \<and> v_fields v = impl_schema prod_items path_root"
proof -
  have dep: "root_deployment (\<lambda>s. if s = ''prod'' then Prod else Dev) prod_config = Prod"
    by (simp add: root_deployment_def prod_config_def)
  note loads = prod_loads [where doc = DEPLOYMENT_HELP and accepted = "Some DEPLOYMENT_ACCEPTED",
      folded prod_items_def]
  have fs: "di_fields prod_input = Some (the (di_fields prod_input))" by (simp add: prod_input_def)
  have "field_names_ok (the (di_fields prod_input))"
    by (auto simp: field_names_ok_def prod_input_def reserved_paths_def seg_ok_def starts_with_def
        is_ascii_lower_def)
  moreover have "items_ok (prod_impl ty)" for ty
    by (auto simp: prod_impl_def seg_ok_def starts_with_def is_ascii_lower_def)
  ultimately obtain p v where m: "merge_layers (\<lambda>_. Inl []) (\<lambda>_. Inr []) ''CRON'' (impl_schema prod_items path_root)
      p [(''DEPLOYMENT_TYPE'', ''prod'')] = Inr v"
    and "v_entries v [''db'', ''url''] \<noteq> None"
    using derived_load_prod [OF prod_expands fs _ _ loads dep]
    by (auto simp: prod_items_def prod_items_with_def prod_impl_def leaf_field_def path_child_def path_root_def split: option.splits)
  with merge_layers_fields [OF m] show ?thesis by (auto simp: values_get_def)
qed

end
