(* ===== verification/Oidc_Store.thy ===== *)
theory Oidc_Store
  imports Rust_Prelude
begin

text \<open>
  \<open>store.rs\<close> of \<open>crates/oidc\<close>: what the server keeps while the browser holds an opaque id.
  The traits \<open>SessionStore\<close> and \<open>FlowStore\<close> are one interface over the value's type: a record
  of the three operations (the state explicit, the wall clock an argument) with the locale
  \<open>id_store\<close> for their laws; \<open>Expiring\<close>, the in-memory backend of both, is its
  interpretation. A \<open>SystemTime\<close> is a natural number of nanoseconds, a \<open>Duration\<close> too; the
  lock is never held across an await, so an operation is one atomic step.
\<close>

section \<open>The stored values\<close>

record session =
  se_access_token :: string
  se_refresh_token :: "string option"
  se_created :: nat

record flow_state =
  fl_state :: string
  fl_verifier :: string
  fl_next :: string
  fl_interactive_tried :: bool
  fl_created :: nat

definition redacted :: string where
  "redacted = debug_str ''<redacted>''"

text \<open>The hand-written \<open>Debug\<close>: the fields it shows, with their \<open>Debug\<close> texts.\<close>

definition flow_debug :: "(nat \<Rightarrow> string) \<Rightarrow> flow_state \<Rightarrow> string \<times> (string \<times> string) list" where
  "flow_debug show_time f =
     (''FlowState'',
      [(''state'', redacted), (''verifier'', redacted), (''next'', debug_str (fl_next f)),
       (''interactive_tried'', if fl_interactive_tried f then ''true'' else ''false''),
       (''created'', show_time (fl_created f))])"

section \<open>The interface\<close>

record ('s, 'v) store_ops =
  st_get :: "nat \<Rightarrow> 's \<Rightarrow> string \<Rightarrow> 'v option"
  st_put :: "nat \<Rightarrow> string \<Rightarrow> 'v \<Rightarrow> 's \<Rightarrow> 's"
  st_remove :: "string \<Rightarrow> 's \<Rightarrow> 's"

text \<open>
  What a client may rely on, \<open>live\<close> saying which values are still served at a time: a put value
  is served while it is live, an operation on one id leaves the others alone, a removed id is
  gone, and nothing expired is served.
\<close>

locale id_store =
  fixes ops :: "('s, 'v) store_ops" and live :: "'s \<Rightarrow> nat \<Rightarrow> 'v \<Rightarrow> bool"
  assumes get_put_same:
      "t \<le> now \<Longrightarrow> st_get ops now (st_put ops t i v s) i = (if live s now v then Some v else None)"
    and get_put_other:
      "t \<le> now \<Longrightarrow> i \<noteq> j \<Longrightarrow> st_get ops now (st_put ops t i v s) j = st_get ops now s j"
    and get_remove_same: "st_get ops now (st_remove ops i s) i = None"
    and get_remove_other: "i \<noteq> j \<Longrightarrow> st_get ops now (st_remove ops i s) j = st_get ops now s j"
    and get_live: "st_get ops now s i = Some v \<Longrightarrow> live s now v"
    and live_antimono: "t \<le> now \<Longrightarrow> live s now v \<Longrightarrow> live s t v"
    and live_put: "live (st_put ops t i w s) now v = live s now v"
    and live_remove: "live (st_remove ops i s) now v = live s now v"
begin

text \<open>A sequence of operations on a store, each with the time it runs at.\<close>

fun run :: "(nat \<times> string \<times> 'v option) list \<Rightarrow> 's \<Rightarrow> 's" where
  "run [] s = s"
| "run ((t, i, Some v) # es) s = run es (st_put ops t i v s)"
| "run ((t, i, None) # es) s = run es (st_remove ops i s)"

lemma run_other:
  assumes "\<forall>(t, j, x) \<in> set es. t \<le> now \<and> j \<noteq> i"
  shows "st_get ops now (run es s) i = st_get ops now s i"
  using assms
  by (induction es s rule: run.induct) (auto simp: get_put_other get_remove_other)

lemma removed_stays_gone:
  assumes "\<forall>(t, j, x) \<in> set es. t \<le> now \<and> j \<noteq> i"
  shows "st_get ops now (run es (st_remove ops i s)) i = None"
  using run_other [OF assms] by (simp add: get_remove_same)

lemma put_served:
  assumes "\<forall>(t, j, x) \<in> set es. t \<le> now \<and> j \<noteq> i" "t \<le> now" "live s now v"
  shows "st_get ops now (run es (st_put ops t i v s)) i = Some v"
  using run_other [OF assms(1)] assms(2,3) by (simp add: get_put_same)

lemma served_earlier:
  assumes "st_get ops now s i = Some v" "t \<le> now"
  shows "live s t v"
  using assms get_live live_antimono by blast

end

section \<open>Expiring\<close>

record 'v expiring =
  ex_entries :: "string \<Rightarrow> 'v option"
  ex_max_age :: nat

definition expiring_new :: "nat \<Rightarrow> 'v expiring" where
  "expiring_new max_age = \<lparr>ex_entries = Map.empty, ex_max_age = max_age\<rparr>"

text \<open>\<open>duration_since\<close> fails for a value created in the future; such a value is live.\<close>

definition duration_since :: "nat \<Rightarrow> nat \<Rightarrow> nat option" where
  "duration_since now earlier = (if earlier \<le> now then Some (now - earlier) else None)"

definition expiring_live :: "('v \<Rightarrow> nat) \<Rightarrow> nat \<Rightarrow> 'v \<Rightarrow> nat \<Rightarrow> bool" where
  "expiring_live created max_age v now =
     unwrap_or True (map_option (\<lambda>age. age < max_age) (duration_since now (created v)))"

definition expiring_get :: "('v \<Rightarrow> nat) \<Rightarrow> nat \<Rightarrow> 'v expiring \<Rightarrow> string \<Rightarrow> 'v option" where
  "expiring_get created now e i =
     (case ex_entries e i of
        Some v \<Rightarrow> if expiring_live created (ex_max_age e) v now then Some v else None
      | None \<Rightarrow> None)"

definition expiring_put :: "('v \<Rightarrow> nat) \<Rightarrow> nat \<Rightarrow> string \<Rightarrow> 'v \<Rightarrow> 'v expiring \<Rightarrow> 'v expiring" where
  "expiring_put created now i v e =
     e\<lparr>ex_entries :=
        (\<lambda>j. case ex_entries e j of
               Some w \<Rightarrow> if expiring_live created (ex_max_age e) w now then Some w else None
             | None \<Rightarrow> None)(i \<mapsto> v)\<rparr>"

definition expiring_remove :: "string \<Rightarrow> 'v expiring \<Rightarrow> 'v expiring" where
  "expiring_remove i e = e\<lparr>ex_entries := (ex_entries e)(i := None)\<rparr>"

lemma live_mono:
  assumes "t \<le> now" "expiring_live created m v now"
  shows "expiring_live created m v t"
  using assms by (auto simp: expiring_live_def duration_since_def split: if_splits)

text \<open>The trait impls of \<open>MemoryStore\<close> and \<open>MemoryFlowStore\<close>: \<open>Expiring\<close> on their \<open>created\<close>.\<close>

definition memory_ops :: "('v \<Rightarrow> nat) \<Rightarrow> ('v expiring, 'v) store_ops" where
  "memory_ops created =
     \<lparr>st_get = expiring_get created, st_put = expiring_put created, st_remove = expiring_remove\<rparr>"

definition seconds :: "nat \<Rightarrow> nat" where
  "seconds n = n * 1000000000"

definition memory_flow_store :: "nat \<Rightarrow> flow_state expiring" where
  "memory_flow_store max_age = expiring_new max_age"

definition memory_flow_default :: "flow_state expiring" where
  "memory_flow_default = memory_flow_store (seconds (10 * 60))"

definition memory_store :: "nat \<Rightarrow> session expiring" where
  "memory_store max_age = expiring_new max_age"

definition memory_store_default :: "session expiring" where
  "memory_store_default = memory_store (seconds (12 * 3600))"

definition flow_ops :: "(flow_state expiring, flow_state) store_ops" where
  "flow_ops = memory_ops fl_created"

definition session_ops :: "(session expiring, session) store_ops" where
  "session_ops = memory_ops se_created"

lemma memory_id_store: "id_store (memory_ops created) (\<lambda>e now v. expiring_live created (ex_max_age e) v now)"
  by unfold_locales
    (auto simp: memory_ops_def expiring_get_def expiring_put_def expiring_remove_def
      split: option.splits if_splits dest: live_mono)

interpretation flows: id_store flow_ops "\<lambda>e now v. expiring_live fl_created (ex_max_age e) v now"
  unfolding flow_ops_def by (rule memory_id_store)

interpretation sessions: id_store session_ops "\<lambda>e now v. expiring_live se_created (ex_max_age e) v now"
  unfolding session_ops_def by (rule memory_id_store)

lemma live_iff: "expiring_live created m v now \<longleftrightarrow> now < created v + m \<or> now < created v"
  by (auto simp: expiring_live_def duration_since_def)

text \<open>The sweep: what a \<open>put\<close> leaves behind is the new entry and the entries still live.\<close>

lemma put_sweeps:
  "dom (ex_entries (expiring_put created now i v e)) =
   insert i {j. \<exists>w. ex_entries e j = Some w \<and> expiring_live created (ex_max_age e) w now}"
  by (auto simp: expiring_put_def split: option.splits if_splits)

section \<open>Properties\<close>

text \<open>The in-memory session store serves a session until exactly its age limit: after any
  sequence of operations on other ids, a session put under an id is returned while it is younger
  than \<open>max_age\<close> (or its creation lies in the future), and not afterwards; a removed id is not
  served again.\<close>

theorem session_served_until_expiry:
  assumes "list_all (\<lambda>(t, j, x). t \<le> now \<and> j \<noteq> i) es" "t \<le> now"
  shows "st_get session_ops now (sessions.run es (st_put session_ops t i v s)) i =
      (if now < se_created v + ex_max_age s \<or> now < se_created v then Some v else None)
    \<and> st_get session_ops now (sessions.run es (st_remove session_ops i s)) i = None"
proof -
  have es: "\<forall>(t, j, x) \<in> set es. t \<le> now \<and> j \<noteq> i" using assms(1) by (simp add: list_all_iff)
  show ?thesis
    using sessions.run_other [OF es] assms(2)
    by (simp add: sessions.get_put_same sessions.get_remove_same live_iff)
qed

definition example_session :: session where
  "example_session = \<lparr>se_access_token = ''at'', se_refresh_token = Some ''rt'', se_created = 5\<rparr>"

theorem session_served_until_expiry_witness:
  "st_get session_ops 14 (sessions.run [(12, ''b'', None)]
     (st_put session_ops 5 ''a'' example_session (memory_store 10))) ''a'' = Some example_session
   \<and> st_get session_ops 15 (sessions.run [(12, ''b'', None)]
     (st_put session_ops 5 ''a'' example_session (memory_store 10))) ''a'' = None"
  using session_served_until_expiry [of 14 "''a''" "[(12, ''b'', None)]" 5 example_session "memory_store 10"]
    session_served_until_expiry [of 15 "''a''" "[(12, ''b'', None)]" 5 example_session "memory_store 10"]
  by (simp add: example_session_def memory_store_def expiring_new_def)

end
