(* ===== verification/Oidc_Gates.thy ===== *)
theory Oidc_Gates
  imports Rust_Prelude
begin

text \<open>
  \<open>principal.rs\<close> and \<open>predicate.rs\<close> of \<open>crates/oidc\<close>: the caller and the access-control
  algebra. A gate is a Rust TYPE built from \<open>HasGroup\<close>, \<open>Or\<close>, \<open>And\<close>, \<open>Not\<close> and a service's
  own \<open>Predicate\<close>; here it is the datatype of those type expressions, and \<open>gate_check\<close> is the
  trait function each impl defines. The \<open>Group\<close> impls of a service are the parameter
  \<open>group_of\<close>, its own predicates \<open>own\<close>.
\<close>

section \<open>principal.rs\<close>

record principal =
  pr_username :: string
  pr_groups :: "string list"

definition from_userinfo :: "string \<Rightarrow> string option \<Rightarrow> string list \<Rightarrow> string + principal" where
  "from_userinfo sub username groups =
     Inr \<lparr>pr_username = unwrap_or sub username, pr_groups = groups\<rparr>"

definition in_group :: "principal \<Rightarrow> string \<Rightarrow> bool" where
  "in_group p g = list_ex (\<lambda>x. x = g) (pr_groups p)"

datatype missing_group = MissingGroup

definition require_group :: "principal \<Rightarrow> string \<Rightarrow> missing_group + unit" where
  "require_group p g = (if in_group p g then Inr () else Inl MissingGroup)"

definition missing_group_response :: "missing_group \<Rightarrow> nat \<times> string" where
  "missing_group_response m = (403, ''forbidden: missing required group'')"

section \<open>predicate.rs\<close>

record denial =
  dn_gate :: string

definition denial_new :: "string \<Rightarrow> denial" where
  "denial_new gate = \<lparr>dn_gate = gate\<rparr>"

definition denial_group :: "string option \<Rightarrow> denial" where
  "denial_group grp =
     \<lparr>dn_gate = (case grp of Some g \<Rightarrow> g @ '' (effective membership)'' | None \<Rightarrow> ''-'')\<rparr>"

datatype ('g, 'p) gate =
    HasGroup 'g
  | Or "('g, 'p) gate" "('g, 'p) gate"
  | And "('g, 'p) gate" "('g, 'p) gate"
  | Not "('g, 'p) gate"
  | Own 'p

fun gate_check ::
    "('g \<Rightarrow> 's \<Rightarrow> string option) \<Rightarrow> ('p \<Rightarrow> principal \<Rightarrow> 's \<Rightarrow> denial + unit)
     \<Rightarrow> ('g, 'p) gate \<Rightarrow> principal \<Rightarrow> 's \<Rightarrow> denial + unit" where
  "gate_check group_of own (HasGroup gr) p s =
     (let grp = group_of gr s in
      case grp of
        Some g \<Rightarrow> if in_group p g then Inr () else Inl (denial_group grp)
      | None \<Rightarrow> Inl (denial_group grp))"
| "gate_check group_of own (Or a b) p s =
     (case gate_check group_of own a p s of
        Inr _ \<Rightarrow> Inr ()
      | Inl da \<Rightarrow>
          (case gate_check group_of own b p s of
             Inr _ \<Rightarrow> Inr ()
           | Inl db \<Rightarrow> Inl \<lparr>dn_gate = dn_gate da @ '' or '' @ dn_gate db\<rparr>))"
| "gate_check group_of own (And a b) p s =
     and_then (gate_check group_of own a p s) (\<lambda>_. gate_check group_of own b p s)"
| "gate_check group_of own (Not a) p s =
     (case gate_check group_of own a p s of
        Inr _ \<Rightarrow> Inl \<lparr>dn_gate = ''must not satisfy the excluded rule''\<rparr>
      | Inl _ \<Rightarrow> Inr ())"
| "gate_check group_of own (Own q) p s = own q p s"

section \<open>What a gate means\<close>

text \<open>
  The abstract reading: a propositional formula over group memberships, in which a group that is
  not configured is a false atom.
\<close>

fun gate_holds ::
    "('g \<Rightarrow> 's \<Rightarrow> string option) \<Rightarrow> ('p \<Rightarrow> principal \<Rightarrow> 's \<Rightarrow> denial + unit)
     \<Rightarrow> ('g, 'p) gate \<Rightarrow> principal \<Rightarrow> 's \<Rightarrow> bool" where
  "gate_holds group_of own (HasGroup gr) p s = (\<exists>g \<in> set (pr_groups p). group_of gr s = Some g)"
| "gate_holds group_of own (Or a b) p s =
     (gate_holds group_of own a p s \<or> gate_holds group_of own b p s)"
| "gate_holds group_of own (And a b) p s =
     (gate_holds group_of own a p s \<and> gate_holds group_of own b p s)"
| "gate_holds group_of own (Not a) p s = (\<not> gate_holds group_of own a p s)"
| "gate_holds group_of own (Own q) p s = is_ok (own q p s)"

lemma in_group_iff: "in_group p g \<longleftrightarrow> g \<in> set (pr_groups p)"
  by (induction "pr_groups p") (auto simp: in_group_def list_ex_iff)

lemma check_holds: "is_ok (gate_check group_of own a p s) = gate_holds group_of own a p s"
  by (induction a)
    (auto simp: in_group_iff Let_def and_then_def is_ok_def split: option.splits sum.splits)

text \<open>Gates in which every membership test is reached under an even number of \<open>Not\<close>s.\<close>

fun polar :: "bool \<Rightarrow> ('g, 'p) gate \<Rightarrow> bool" where
  "polar pos (HasGroup gr) = pos"
| "polar pos (Or a b) = (polar pos a \<and> polar pos b)"
| "polar pos (And a b) = (polar pos a \<and> polar pos b)"
| "polar pos (Not a) = polar (\<not> pos) a"
| "polar pos (Own q) = False"

lemma polar_mono:
  assumes "set (pr_groups p) \<subseteq> set (pr_groups q)"
  shows "polar pos a \<Longrightarrow>
    (if pos then gate_holds group_of own a p s \<longrightarrow> gate_holds group_of own a q s
     else gate_holds group_of own a q s \<longrightarrow> gate_holds group_of own a p s)"
proof (induction a arbitrary: pos)
  case (Not a)
  from Not.IH [of "\<not> pos"] Not.prems show ?case by (cases pos) auto
next
  case (HasGroup gr)
  with assms show ?case by auto
next
  case (Or a b)
  from Or.IH(1) [of pos] Or.IH(2) [of pos] Or.prems show ?case by (cases pos) auto
next
  case (And a b)
  from And.IH(1) [of pos] And.IH(2) [of pos] And.prems show ?case by (cases pos) auto
qed simp

section \<open>Properties\<close>

text \<open>A gate decides its boolean formula: the check passes exactly when the formula of group
  memberships holds, an unconfigured group being false, and the verdict depends on the SET of the
  caller's groups only, not on the username, order or repetition.\<close>

theorem gate_check_boolean:
  assumes "\<And>q. is_ok (own q p s) = is_ok (own q p' s)" "set (pr_groups p) = set (pr_groups p')"
  shows "is_ok (gate_check group_of own a p s) = gate_holds group_of own a p s
    \<and> is_ok (gate_check group_of own a p' s) = is_ok (gate_check group_of own a p s)"
proof -
  have "gate_holds group_of own a p' s = gate_holds group_of own a p s"
    using assms by (induction a) auto
  then show ?thesis by (simp add: check_holds)
qed

definition example_groups :: "string \<Rightarrow> unit \<Rightarrow> string option" where
  "example_groups gr s = (if gr = ''gate'' then Some ''gate-group'' else None)"

definition no_own :: "unit \<Rightarrow> principal \<Rightarrow> unit \<Rightarrow> denial + unit" where
  "no_own q p s = Inl (denial_new '''')"

theorem gate_check_boolean_witness:
  "is_ok (gate_check example_groups no_own (And (HasGroup ''gate'') (Not (HasGroup ''index'')))
     \<lparr>pr_username = ''a'', pr_groups = [''x'', ''gate-group'']\<rparr> ())"
  using gate_check_boolean [of no_own "\<lparr>pr_username = ''a'', pr_groups = [''x'', ''gate-group'']\<rparr>" "()"
      "\<lparr>pr_username = ''b'', pr_groups = [''gate-group'', ''x'']\<rparr>" example_groups
      "And (HasGroup ''gate'') (Not (HasGroup ''index''))"]
  by (simp add: example_groups_def no_own_def insert_commute)

fun membership_gate :: "('g, 'p) gate \<Rightarrow> bool" where
  "membership_gate (HasGroup gr) = True"
| "membership_gate (Or a b) = (membership_gate a \<and> membership_gate b)"
| "membership_gate (And a b) = (membership_gate a \<and> membership_gate b)"
| "membership_gate (Not a) = False"
| "membership_gate (Own q) = False"

lemma membership_empty: "membership_gate a \<Longrightarrow> pr_groups p = [] \<Longrightarrow> \<not> gate_holds group_of own a p s"
  by (induction a) auto

text \<open>Gates fail closed and are monotone: a gate whose membership tests all stand under an even
  number of \<open>Not\<close>s never loses access when groups are added, and a combination of \<open>HasGroup\<close>s by
  \<open>Or\<close> and \<open>And\<close> denies every caller without groups and every state in which no group is
  configured.\<close>

theorem gates_fail_closed:
  assumes "polar True a"
  shows "(set (pr_groups p) \<subseteq> set (pr_groups q) \<longrightarrow> is_ok (gate_check group_of own a p s) \<longrightarrow>
      is_ok (gate_check group_of own a q s))
    \<and> (membership_gate a \<longrightarrow>
         (pr_groups p = [] \<longrightarrow> \<not> is_ok (gate_check group_of own a p s))
         \<and> \<not> is_ok (gate_check (\<lambda>_ _. None) own a p s))"
proof -
  have "membership_gate a \<longrightarrow> \<not> gate_holds (\<lambda>_ _. None) own a p s" by (induction a) auto
  moreover have "set (pr_groups p) \<subseteq> set (pr_groups q) \<longrightarrow> gate_holds group_of own a p s \<longrightarrow>
      gate_holds group_of own a q s"
    using polar_mono [of p q True a group_of own s] assms by simp
  ultimately show ?thesis
    using membership_empty [of a p group_of own s] by (simp add: check_holds)
qed

theorem gates_fail_closed_witness:
  "\<not> is_ok (gate_check example_groups no_own (Or (HasGroup ''gate'') (HasGroup ''index''))
     \<lparr>pr_username = ''a'', pr_groups = []\<rparr> ())"
  using gates_fail_closed [of "Or (HasGroup ''gate'') (HasGroup ''index'')"
      "\<lparr>pr_username = ''a'', pr_groups = []\<rparr>" "\<lparr>pr_username = ''a'', pr_groups = []\<rparr>"] by simp

end
