(* ===== verification/Oidc_Retry.thy ===== *)
theory Oidc_Retry
  imports Rust_Prelude
begin

text \<open>
  \<open>error.rs\<close> and \<open>retry.rs\<close> of \<open>crates/oidc\<close>: how long a request may wait on the IdP. Time is
  in milliseconds. The call is a parameter: for the n-th attempt, started at a time, its result and
  the milliseconds it takes (\<open>None\<close> for one that never answers). The gaps between attempts are
  what \<open>backon\<close>'s builder yields, a list: \<open>base_delays\<close> is the documented exponential schedule, and
  \<open>schedule\<close> the one with jitter, for any random parts added to the delays. The documented behaviour of
  \<open>tokio::time::timeout\<close> is \<open>timeout_at\<close>: a future that is ready by the limit gives its value.
\<close>

section \<open>error.rs\<close>

datatype upstream = Rejected string | Unreachable string

fun upstream_display :: "upstream \<Rightarrow> string" where
  "upstream_display (Rejected why) = ''rejected by the IdP: '' @ why"
| "upstream_display (Unreachable why) = ''no answer from the IdP: '' @ why"

datatype oidc_error = Discovery string | Exchange string | Refresh string | Userinfo string | ConfigError string

fun oidc_error_display :: "oidc_error \<Rightarrow> string" where
  "oidc_error_display (Discovery s) = ''OIDC discovery failed: '' @ s"
| "oidc_error_display (Exchange s) = ''token exchange failed: '' @ s"
| "oidc_error_display (Refresh s) = ''token refresh failed: '' @ s"
| "oidc_error_display (Userinfo s) = ''userinfo rejected/unreachable: '' @ s"
| "oidc_error_display (ConfigError s) = ''invalid configuration: '' @ s"

section \<open>retry.rs\<close>

definition ATTEMPT_TIMEOUT :: nat where "ATTEMPT_TIMEOUT = 1000"
definition DELAY_BUDGET :: nat where "DELAY_BUDGET = 10000"
definition UPSTREAM_BUDGET :: nat where "UPSTREAM_BUDGET = 14000"

text \<open>
  \<open>ExponentialBuilder\<close>: at most \<open>count\<close> gaps, each \<open>factor\<close> times the one before, stopping
  when the next one would take the sum over \<open>bound\<close>.
\<close>

fun exponential :: "nat \<Rightarrow> nat \<Rightarrow> nat \<Rightarrow> nat \<Rightarrow> nat \<Rightarrow> nat list" where
  "exponential 0 d factor bound spent = []"
| "exponential (Suc count) d factor bound spent =
     (if bound < spent + d then []
      else d # exponential count (d * factor) factor bound (spent + d))"

definition base_delays :: "nat list" where
  "base_delays = exponential 5 1000 2 DELAY_BUDGET 0"

text \<open>
  With jitter each gap is longer than its delay by a random part of it (\<open>rand\<close>), and it is the longer
  gap that counts against the total.
\<close>

fun jittered :: "(nat \<Rightarrow> nat) \<Rightarrow> nat \<Rightarrow> nat \<Rightarrow> nat \<Rightarrow> nat \<Rightarrow> nat \<Rightarrow> nat list" where
  "jittered rand 0 d factor bound spent = []"
| "jittered rand (Suc count) d factor bound spent =
     (if bound < spent + (d + rand d) then []
      else (d + rand d) # jittered rand count (d * factor) factor bound (spent + (d + rand d)))"

definition schedule :: "(nat \<Rightarrow> nat) \<Rightarrow> nat list" where
  "schedule rand = jittered rand 5 1000 2 DELAY_BUDGET 0"

type_synonym deadline = nat

definition starting_now :: "nat \<Rightarrow> deadline" where
  "starting_now now = now + UPSTREAM_BUDGET"

definition expired :: "deadline \<Rightarrow> nat \<Rightarrow> bool" where
  "expired d now = (d \<le> now)"

definition remaining :: "deadline \<Rightarrow> nat \<Rightarrow> nat" where
  "remaining d now = d - now"

text \<open>A future started at \<open>t\<close> with its value and duration, under a limit: value and end time.\<close>

definition timeout_at :: "nat \<Rightarrow> nat \<Rightarrow> (upstream + 'a) \<times> nat option \<Rightarrow> upstream \<Rightarrow> (upstream + 'a) \<times> nat" where
  "timeout_at limit t fut e =
     (case snd fut of
        Some dur \<Rightarrow> if dur \<le> limit then (fst fut, t + dur) else (Inl e, t + limit)
      | None \<Rightarrow> (Inl e, t + limit))"

definition no_response :: upstream where
  "no_response = Unreachable ''no response within 1s''"

definition budget_exhausted :: upstream where
  "budget_exhausted = Unreachable ''the request's upstream budget was exhausted''"

definition attempt ::
    "(nat \<Rightarrow> nat \<Rightarrow> (upstream + 'a) \<times> nat option) \<Rightarrow> nat \<Rightarrow> nat \<Rightarrow> (upstream + 'a) \<times> nat" where
  "attempt call n t = timeout_at ATTEMPT_TIMEOUT t (call n t) no_response"

text \<open>
  \<open>attempt.retry(builder).when(...)\<close>: the result, when it is there, and the start times of the
  attempts. A failed attempt is tried again after the next gap when \<open>when\<close> allows it.
\<close>

fun retry_when ::
    "(nat \<Rightarrow> nat \<Rightarrow> (upstream + 'a) \<times> nat option) \<Rightarrow> deadline \<Rightarrow> nat list \<Rightarrow> nat \<Rightarrow> nat
     \<Rightarrow> (upstream + 'a) \<times> nat \<times> nat list" where
  "retry_when call d [] n t = (case attempt call n t of (r, e) \<Rightarrow> (r, e, [t]))"
| "retry_when call d (gap # gaps) n t =
     (case attempt call n t of
        (Inl (Unreachable why), e) \<Rightarrow>
          if \<not> expired d e
          then (case retry_when call d gaps (Suc n) (e + gap) of (r, e', ts) \<Rightarrow> (r, e', t # ts))
          else (Inl (Unreachable why), e, [t])
      | (r, e) \<Rightarrow> (r, e, [t]))"

text \<open>\<open>within_on\<close>, run at time \<open>now\<close>: the result, when it is there, and the attempts started.\<close>

definition within_on ::
    "deadline \<Rightarrow> nat list \<Rightarrow> nat \<Rightarrow> (nat \<Rightarrow> nat \<Rightarrow> (upstream + 'a) \<times> nat option)
     \<Rightarrow> (upstream + 'a) \<times> nat \<times> nat list" where
  "within_on d gaps now call =
     (case retry_when call d gaps 0 now of
        (r, e, ts) \<Rightarrow>
          (case timeout_at (remaining d now) now (r, Some (e - now)) budget_exhausted of
             (r', e') \<Rightarrow> (r', e', takeWhile (\<lambda>t. t \<le> e') ts)))"

definition within ::
    "deadline \<Rightarrow> (nat \<Rightarrow> nat) \<Rightarrow> nat \<Rightarrow> (nat \<Rightarrow> nat \<Rightarrow> (upstream + 'a) \<times> nat option)
     \<Rightarrow> (upstream + 'a) \<times> nat \<times> nat list" where
  "within d rand now call = within_on d (schedule rand) now call"

section \<open>Bounds and the retry rule\<close>

lemma timeout_end: "timeout_at limit t fut e = (r, t') \<Longrightarrow> t \<le> t' \<and> t' \<le> t + limit"
  by (auto simp: timeout_at_def split: option.splits if_splits)

lemma attempt_end: "attempt call n t = (r, e) \<Longrightarrow> t \<le> e \<and> e \<le> t + ATTEMPT_TIMEOUT"
  unfolding attempt_def by (rule timeout_end)

lemma retry_when_shape:
  "retry_when call d gaps n t = (r, e, ts) \<Longrightarrow>
   t \<le> e \<and> ts \<noteq> [] \<and> hd ts = t \<and> length ts \<le> Suc (length gaps)
   \<and> attempt call (n + length ts - 1) (last ts) = (r, e)
   \<and> (\<forall>i < length ts - 1. \<exists>why e'. attempt call (n + i) (ts ! i) = (Inl (Unreachable why), e')
        \<and> e' < d \<and> ts ! Suc i = e' + gaps ! i)"
proof (induction call d gaps n t arbitrary: r e ts rule: retry_when.induct)
  case (1 call d n t)
  then show ?case using attempt_end by (fastforce split: prod.splits)
next
  case (2 call d gap gaps n t)
  obtain r1 e1 where a: "attempt call n t = (r1, e1)" by fastforce
  note ae = attempt_end [OF a]
  show ?case
  proof (cases "\<exists>why. r1 = Inl (Unreachable why) \<and> \<not> expired d e1")
    case True
    then obtain why where why: "r1 = Inl (Unreachable why)" "\<not> expired d e1" by blast
    obtain r2 e2 ts2 where rest: "retry_when call d gaps (Suc n) (e1 + gap) = (r2, e2, ts2)"
      using prod_cases3 by blast
    from "2.prems" a why rest have eq: "r = r2" "e = e2" "ts = t # ts2" by simp_all
    from "2.IH" [OF a [symmetric] why(1) refl why(2) rest] have
      ih: "e1 + gap \<le> e2" "ts2 \<noteq> []" "hd ts2 = e1 + gap" "length ts2 \<le> Suc (length gaps)"
        "attempt call (Suc n + length ts2 - 1) (last ts2) = (r2, e2)"
        "\<forall>i < length ts2 - 1. \<exists>why e'. attempt call (Suc n + i) (ts2 ! i) = (Inl (Unreachable why), e')
          \<and> e' < d \<and> ts2 ! Suc i = e' + gaps ! i" by blast+
    have "\<exists>why e'. attempt call (n + i) ((t # ts2) ! i) = (Inl (Unreachable why), e')
        \<and> e' < d \<and> (t # ts2) ! Suc i = e' + (gap # gaps) ! i" if "i < length ts2" for i
    proof (cases i)
      case 0
      with ih(2,3) a why show ?thesis by (auto simp: expired_def hd_conv_nth)
    next
      case (Suc j)
      with that ih(6) have "\<exists>why e'. attempt call (Suc n + j) (ts2 ! j) = (Inl (Unreachable why), e')
          \<and> e' < d \<and> ts2 ! Suc j = e' + gaps ! j" by auto
      with Suc show ?thesis by simp
    qed
    with eq ih ae show ?thesis by auto
  next
    case False
    with "2.prems" a have "r = r1 \<and> e = e1 \<and> ts = [t]"
      by (cases r1) (auto split: sum.splits upstream.splits if_splits)
    with a ae show ?thesis by simp
  qed
qed

lemma retry_when_starts:
  assumes "retry_when call d gaps n t = (r, e, ts)" "t' \<in> set ts"
  shows "t' \<le> e"
proof -
  note sh = retry_when_shape [OF assms(1)]
  have "last ts \<le> e" using sh attempt_end by blast
  moreover have mono: "ts ! i \<le> ts ! j" if "i \<le> j" "j < length ts" for i j
    using that
  proof (induction rule: dec_induct)
    case (step k)
    with sh obtain why e' where "attempt call (n + k) (ts ! k) = (Inl (Unreachable why), e')"
      "ts ! Suc k = e' + gaps ! k" by (metis Suc_lessD less_diff_conv Suc_eq_plus1)
    with attempt_end [OF this(1)] step show ?case by simp
  qed simp
  moreover from assms(2) obtain i where "i < length ts" "t' = ts ! i" by (auto simp: in_set_conv_nth)
  then have "t' \<le> last ts" using mono [of i "length ts - 1"] sh by (simp add: last_conv_nth)
  ultimately show ?thesis by simp
qed

lemma base_delays_value: "base_delays = [1000, 2000, 4000]"
proof -
  have five: "(5 :: nat) = Suc (Suc (Suc (Suc (Suc 0))))" by simp
  show ?thesis unfolding base_delays_def DELAY_BUDGET_def five exponential.simps by simp
qed

lemma jittered_zero: "jittered (\<lambda>_. 0) count d factor bound spent = exponential count d factor bound spent"
  by (induction count arbitrary: d spent) simp_all

lemma schedule_zero: "schedule (\<lambda>_. 0) = base_delays"
  by (simp add: schedule_def base_delays_def jittered_zero)

text \<open>At most three gaps, which together stay within the total.\<close>

lemma jittered_total: "spent \<le> bound \<Longrightarrow> spent + sum_list (jittered rand count d factor bound spent) \<le> bound"
proof (induction count arbitrary: d spent)
  case (Suc count)
  from Suc.IH [of "spent + (d + rand d)" "d * factor"] Suc.prems show ?case by auto
qed simp

lemma schedule_bounds: "length (schedule rand) \<le> 3" "sum_list (schedule rand) \<le> 10000"
proof -
  have five: "(5 :: nat) = Suc (Suc (Suc (Suc (Suc 0))))" by simp
  show "length (schedule rand) \<le> 3"
    unfolding schedule_def DELAY_BUDGET_def five jittered.simps by simp
  show "sum_list (schedule rand) \<le> 10000"
    using jittered_total [of 0 DELAY_BUDGET rand 5 1000 2] by (simp add: schedule_def DELAY_BUDGET_def)
qed

section \<open>Properties\<close>

lemma within_end:
  assumes "within_on d gaps now call = (r, e, ts)"
  shows "now \<le> e" "e \<le> max now d"
  using assms
  by (auto simp: within_on_def remaining_def split: prod.splits dest!: timeout_end)

fun within_seq ::
    "deadline \<Rightarrow> nat \<Rightarrow> (nat list \<times> (nat \<Rightarrow> nat \<Rightarrow> (upstream + 'a) \<times> nat option)) list \<Rightarrow> nat list" where
  "within_seq d now [] = []"
| "within_seq d now ((gaps, call) # calls) =
     (case within_on d gaps now call of (r, e, ts) \<Rightarrow> e # within_seq d e calls)"

lemma within_seq_bounds:
  "now \<le> d \<Longrightarrow> t \<in> set (within_seq d now calls) \<Longrightarrow> now \<le> t \<and> t \<le> d"
proof (induction d now calls rule: within_seq.induct)
  case (2 d now gaps call calls)
  obtain r e ts where w: "within_on d gaps now call = (r, e, ts)" using prod_cases3 by blast
  from within_end [OF w] "2.prems"(1) have "now \<le> e" "e \<le> d" by auto
  with "2.IH" [OF w [symmetric] refl] "2.prems" w show ?case by force
qed simp

text \<open>C25: One deadline bounds a whole request: however many calls run under it one after the
  other, whatever they answer and however long they take, each ends no earlier than it started and
  the last one ends by the deadline, 14 seconds after it was started, so a request never waits
  longer on the IdP.\<close>

theorem upstream_budget_bounds:
  "list_all (\<lambda>t. now \<le> t \<and> t \<le> now + 14000) (within_seq (starting_now now) now calls)"
  using within_seq_bounds [of now "starting_now now" _ calls]
  by (auto simp: list_all_iff starting_now_def UPSTREAM_BUDGET_def)

lemma within_on_retries:
  assumes "within_on d gaps now call = (r, e, ts)"
  shows "length ts \<le> Suc (length gaps)
    \<and> (\<forall>i. Suc i < length ts \<longrightarrow> (\<exists>why e'. attempt call i (ts ! i) = (Inl (Unreachable why), e')
          \<and> e' < d \<and> ts ! Suc i = e' + gaps ! i))
    \<and> (r = Inl budget_exhausted \<or> r = fst (attempt call (length ts - 1) (last ts)))"
proof -
  obtain r1 e1 ts1 where w: "retry_when call d gaps 0 now = (r1, e1, ts1)"
    using prod_cases3 by blast
  obtain r2 e2 where t: "timeout_at (remaining d now) now (r1, Some (e1 - now)) budget_exhausted = (r2, e2)"
    by fastforce
  from assms w t have eq: "r = r2" "e = e2" "ts = takeWhile (\<lambda>t. t \<le> e2) ts1"
    unfolding within_on_def by auto
  from retry_when_shape [OF w] have sh: "now \<le> e1" "ts1 \<noteq> []" "length ts1 \<le> Suc (length gaps)"
      "attempt call (length ts1 - 1) (last ts1) = (r1, e1)"
      "\<forall>i < length ts1 - 1. \<exists>why e'. attempt call i (ts1 ! i) = (Inl (Unreachable why), e')
        \<and> e' < d \<and> ts1 ! Suc i = e' + gaps ! i" by auto
  have len: "length ts \<le> length ts1" unfolding eq by (rule length_takeWhile_le)
  have nth: "ts ! i = ts1 ! i" if "i < length ts" for i
    using that unfolding eq by (rule takeWhile_nth)
  have "r = Inl budget_exhausted \<or> r = fst (attempt call (length ts - 1) (last ts))"
  proof (cases "e1 - now \<le> remaining d now")
    case True
    with t sh(1) have e2: "r2 = r1" "e2 = e1" by (auto simp: timeout_at_def)
    have "t' \<le> e1" if "t' \<in> set ts1" for t'
      using retry_when_starts [OF w that] .
    then have "ts = ts1" unfolding eq e2 by (simp add: takeWhile_eq_all_conv)
    with sh(4) eq e2 show ?thesis by simp
  next
    case False
    with t eq show ?thesis by (auto simp: timeout_at_def)
  qed
  with len nth sh(3,5) show ?thesis by auto
qed

text \<open>C27: What is retried, whatever the jitter: an attempt follows another only when that one found the
  IdP unreachable before the deadline, and it starts one gap of the schedule later; so a rejection is
  final, there are never more than four attempts with ten seconds of gaps between them, and the answer
  is the last attempt's, unless the budget ran out first.\<close>

theorem only_unreachable_is_retried:
  assumes "within d rand now call = (r, e, ts)"
  shows "length ts \<le> 4 \<and> sum_list (schedule rand) \<le> 10000
    \<and> (\<forall>i. Suc i < length ts \<longrightarrow> (\<exists>why e'. attempt call i (ts ! i) = (Inl (Unreachable why), e')
          \<and> e' < d \<and> ts ! Suc i = e' + schedule rand ! i))
    \<and> (r = Inl budget_exhausted \<or> r = fst (attempt call (length ts - 1) (last ts)))"
proof -
  from within_on_retries [OF assms [unfolded within_def]] schedule_bounds(1) [of rand]
  have "length ts \<le> 4" by linarith
  with within_on_retries [OF assms [unfolded within_def]] schedule_bounds(2) show ?thesis by blast
qed

definition flaky :: "nat \<Rightarrow> nat \<Rightarrow> (upstream + string) \<times> nat option" where
  "flaky n t = (if n = 0 then (Inl (Unreachable ''refused''), Some 5) else (Inr ''ok'', Some 7))"

theorem only_unreachable_is_retried_witness:
  "within (starting_now 0) (\<lambda>_. 0) 0 flaky = (Inr ''ok'', 1012, [0, 1005])
   \<and> attempt flaky 0 0 = (Inl (Unreachable ''refused''), 5)"
proof -
  have w: "within (starting_now 0) (\<lambda>_. 0) 0 flaky = (Inr ''ok'', 1012, [0, 1005])"
    by (simp add: within_def schedule_zero base_delays_value within_on_def attempt_def timeout_at_def flaky_def
        ATTEMPT_TIMEOUT_def starting_now_def UPSTREAM_BUDGET_def remaining_def expired_def)
  from only_unreachable_is_retried [OF w] obtain why e' where
    "attempt flaky 0 0 = (Inl (Unreachable why), e')" "e' < starting_now 0" by force
  then show ?thesis
    using w by (auto simp: attempt_def timeout_at_def flaky_def ATTEMPT_TIMEOUT_def)
qed

end
