(* ===== verification/Oidc_Client.thy ===== *)
theory Oidc_Client
  imports Oidc_Gates Oidc_Retry Config_Schema
begin

text \<open>
  \<open>config.rs\<close>, \<open>section.rs\<close>, \<open>page_config.rs\<close>, \<open>client.rs\<close> and \<open>bearer.rs\<close> of
  \<open>crates/oidc\<close>. The \<open>url\<close> crate is the parameter \<open>url_ops\<close> over an abstract type of URLs; the
  \<open>openidconnect\<close> crate and \<open>reqwest\<close> are functions giving the library's answer to a request;
  what the crate makes of those answers is modelled.
\<close>

section \<open>The url crate\<close>

record 'u url_ops =
  u_parse :: "string \<Rightarrow> string + 'u"
  u_join :: "'u \<Rightarrow> string \<Rightarrow> string + 'u"
  u_same_origin :: "'u \<Rightarrow> 'u \<Rightarrow> bool"
  u_str :: "'u \<Rightarrow> string"
  u_scheme :: "'u \<Rightarrow> string"
  u_host :: "'u \<Rightarrow> string option"
  u_port :: "'u \<Rightarrow> nat option"
  u_path :: "'u \<Rightarrow> string"
  u_query :: "'u \<Rightarrow> string option"
  u_fragment :: "'u \<Rightarrow> string option"
  u_set_scheme :: "'u \<Rightarrow> string \<Rightarrow> 'u option"
  u_set_host :: "'u \<Rightarrow> string option \<Rightarrow> 'u option"
  u_set_port :: "'u \<Rightarrow> nat option \<Rightarrow> 'u option"

section \<open>config.rs\<close>

definition LOGIN_PATH :: string where
  "LOGIN_PATH = ''/oidc/login''"

record 'u oidc_config =
  oc_issuer :: 'u
  oc_backchannel :: "'u option"
  oc_client_id :: string
  oc_client_secret :: "string option"
  oc_redirect_url :: 'u
  oc_scopes :: "string list"
  oc_login_path :: string
  oc_logout_path :: string
  oc_cookie_name :: string
  oc_cookie_secure :: bool
  oc_danger_accept_invalid_certs :: bool
  oc_deployment :: deployment

definition oidc_config_new :: "'u \<Rightarrow> string \<Rightarrow> 'u \<Rightarrow> string \<Rightarrow> 'u oidc_config" where
  "oidc_config_new issuer client_id redirect_url cookie_name =
     \<lparr>oc_issuer = issuer, oc_backchannel = None, oc_client_id = client_id, oc_client_secret = None,
      oc_redirect_url = redirect_url, oc_scopes = [''openid'', ''profile'', ''effective_groups''],
      oc_login_path = LOGIN_PATH, oc_logout_path = ''/common-oidc/logout'',
      oc_cookie_name = cookie_name, oc_cookie_secure = True,
      oc_danger_accept_invalid_certs = False, oc_deployment = Dev\<rparr>"

definition with_client_secret :: "string \<Rightarrow> 'u oidc_config \<Rightarrow> 'u oidc_config" where
  "with_client_secret secret c = c\<lparr>oc_client_secret := Some secret\<rparr>"

definition request_refresh_tokens :: "'u oidc_config \<Rightarrow> 'u oidc_config" where
  "request_refresh_tokens c =
     (if \<not> list_ex (\<lambda>s. s = ''offline_access'') (oc_scopes c)
      then c\<lparr>oc_scopes := oc_scopes c @ [''offline_access'']\<rparr> else c)"

text \<open>\<open>None\<close> is the panic of an \<open>expect\<close>.\<close>

definition swap_origin :: "'u url_ops \<Rightarrow> 'u \<Rightarrow> 'u \<Rightarrow> 'u option" where
  "swap_origin ops url base =
     Option.bind (u_set_scheme ops url (u_scheme ops base)) (\<lambda>out.
       Option.bind (u_set_host ops out (u_host ops base)) (\<lambda>out.
         u_set_port ops out (u_port ops base)))"

section \<open>section.rs\<close>

record 'u oidc_section =
  os_issuer :: 'u
  os_backchannel :: "'u option"
  os_client_id :: string
  os_client_secret :: "string option"
  os_redirect_url :: 'u
  os_cookie_name :: string
  os_cookie_secure :: bool
  os_danger_accept_invalid_certs :: bool
  os_refresh_tokens :: bool

definition to_config :: "'u oidc_section \<Rightarrow> deployment \<Rightarrow> 'u oidc_config" where
  "to_config s deployment =
     (let config = (oidc_config_new (os_issuer s) (os_client_id s) (os_redirect_url s) (os_cookie_name s))
            \<lparr>oc_backchannel := os_backchannel s, oc_client_secret := os_client_secret s,
             oc_cookie_secure := os_cookie_secure s,
             oc_danger_accept_invalid_certs := os_danger_accept_invalid_certs s,
             oc_deployment := deployment\<rparr>
      in if os_refresh_tokens s then request_refresh_tokens config else config)"

section \<open>page_config.rs\<close>

record page_user =
  pu_name :: string
  pu_portrait :: "string option"

record page_config =
  pg_assets_origin :: string
  pg_login_path :: string
  pg_launcher_url :: string
  pg_logout_path :: string
  pg_user :: "page_user option"

definition page_config_build ::
    "string \<Rightarrow> string \<Rightarrow> string option \<Rightarrow> string \<Rightarrow> string \<Rightarrow> page_config" where
  "page_config_build login_path logout_path user launcher_url assets_origin =
     \<lparr>pg_assets_origin = assets_origin, pg_login_path = login_path, pg_launcher_url = launcher_url,
      pg_logout_path = logout_path,
      pg_user = map_option (\<lambda>name. \<lparr>pu_name = name, pu_portrait = None\<rparr>) user\<rparr>"

definition page_config_new :: "'u oidc_config \<Rightarrow> string option \<Rightarrow> string \<Rightarrow> string \<Rightarrow> page_config" where
  "page_config_new cfg user launcher_url assets_origin =
     page_config_build (oc_login_path cfg) (oc_logout_path cfg) user launcher_url assets_origin"

definition page_config_without_oidc :: "string option \<Rightarrow> string \<Rightarrow> string \<Rightarrow> page_config" where
  "page_config_without_oidc user launcher_url assets_origin =
     page_config_build LOGIN_PATH '''' user launcher_url assets_origin"

text \<open>The serialised keys, in the derive's camel case, with the values of the user as an object.\<close>

datatype page_json = JStr string | JNull | JObj "(string \<times> page_json) list"

definition page_user_json :: "page_user \<Rightarrow> page_json" where
  "page_user_json u =
     JObj [(''name'', JStr (pu_name u)),
           (''portrait'', case pu_portrait u of None \<Rightarrow> JNull | Some s \<Rightarrow> JStr s)]"

definition page_config_json :: "page_config \<Rightarrow> page_json" where
  "page_config_json c =
     JObj [(''assetsOrigin'', JStr (pg_assets_origin c)), (''loginPath'', JStr (pg_login_path c)),
           (''launcherUrl'', JStr (pg_launcher_url c)), (''logoutPath'', JStr (pg_logout_path c)),
           (''user'', case pg_user c of None \<Rightarrow> JNull | Some u \<Rightarrow> page_user_json u)]"

section \<open>client.rs\<close>

text \<open>
  The library's errors: \<open>UserInfoResponse code shown why text\<close> has the status, its \<open>Display\<close>,
  the message and the error's own \<open>to_string\<close>; any other variant only its \<open>to_string\<close>.
\<close>

datatype userinfo_error = UserInfoResponse nat string string string | UserInfoOther string

definition classify_userinfo :: "userinfo_error \<Rightarrow> upstream" where
  "classify_userinfo e =
     (case e of
        UserInfoResponse code shown why text' \<Rightarrow>
          if code = 401 \<or> code = 403
          then Rejected (''userinfo returned '' @ shown @ '': '' @ why)
          else Unreachable text'
      | UserInfoOther why \<Rightarrow> Unreachable why)"

record token_bundle =
  tb_access_token :: string
  tb_refresh_token :: "string option"

record 'u oidc_client =
  cl_auth_url :: 'u
  cl_token_url :: 'u
  cl_userinfo_url :: 'u
  cl_config :: "'u oidc_config"
  cl_end_session_url :: "'u option"

datatype fetched = SendError string | StatusError string | JsonError string | Document "string \<Rightarrow> string option"

datatype discover_fault = Failed oidc_error | Panic

definition disco_url :: "'u url_ops \<Rightarrow> 'u oidc_config \<Rightarrow> discover_fault + string" where
  "disco_url ops config =
     (let back = (case oc_backchannel config of Some b \<Rightarrow> b | None \<Rightarrow> oc_issuer config) in
      map_ok (\<lambda>base. (let s = u_str ops base in
                        if ends_with s ''/'' then s else s @ ''/'') @ ''.well-known/openid-configuration'')
        (ok_or Panic (swap_origin ops (oc_issuer config) back)))"

definition endpoint ::
    "'u url_ops \<Rightarrow> (string \<Rightarrow> string option) \<Rightarrow> string \<Rightarrow> 'u \<Rightarrow> discover_fault + 'u" where
  "endpoint ops doc key base =
     and_then (ok_or (Failed (Discovery (''discovery document lacks '' @ key))) (doc key)) (\<lambda>raw.
       and_then (map_err (\<lambda>e. Failed (Discovery (key @ '': '' @ e))) (u_parse ops raw)) (\<lambda>u.
         ok_or Panic (swap_origin ops u base)))"

definition end_session ::
    "'u url_ops \<Rightarrow> (string \<Rightarrow> string option) \<Rightarrow> 'u \<Rightarrow> discover_fault + 'u option" where
  "end_session ops doc issuer =
     (case doc ''end_session_endpoint'' of
        None \<Rightarrow> Inr None
      | Some raw \<Rightarrow>
          (case u_parse ops raw of
             Inl _ \<Rightarrow> Inr None
           | Inr u \<Rightarrow> map_ok Some (ok_or Panic (swap_origin ops u issuer))))"

definition client_discover ::
    "'u url_ops \<Rightarrow> (bool \<Rightarrow> string option) \<Rightarrow> (string \<Rightarrow> fetched) \<Rightarrow> 'u oidc_config
     \<Rightarrow> discover_fault + 'u oidc_client" where
  "client_discover ops build_http get config =
     (case build_http (oc_danger_accept_invalid_certs config) of
        Some e \<Rightarrow> Inl (Failed (ConfigError (''http client: '' @ e)))
      | None \<Rightarrow>
          (let back = (case oc_backchannel config of Some b \<Rightarrow> b | None \<Rightarrow> oc_issuer config) in
           and_then (disco_url ops config) (\<lambda>url.
             case get url of
               SendError e \<Rightarrow> Inl (Failed (Discovery (''GET '' @ url @ '': '' @ e)))
             | StatusError e \<Rightarrow> Inl (Failed (Discovery (''GET '' @ url @ '': '' @ e)))
             | JsonError e \<Rightarrow> Inl (Failed (Discovery (''parse '' @ url @ '': '' @ e)))
             | Document doc \<Rightarrow>
                 and_then (endpoint ops doc ''authorization_endpoint'' (oc_issuer config)) (\<lambda>auth_url.
                 and_then (endpoint ops doc ''token_endpoint'' back) (\<lambda>token_url.
                 and_then (endpoint ops doc ''userinfo_endpoint'' back) (\<lambda>userinfo_url.
                 and_then (end_session ops doc (oc_issuer config)) (\<lambda>end_session_url.
                   Inr \<lparr>cl_auth_url = auth_url, cl_token_url = token_url,
                        cl_userinfo_url = userinfo_url, cl_config = config,
                        cl_end_session_url = end_session_url\<rparr>)))))))"

text \<open>What is asked of the library for an authorize URL; it adds \<open>openid\<close> itself.\<close>

record authorize_params =
  ap_scopes :: "string list"
  ap_prompt_none :: bool

record authorize_request =
  ar_url :: string
  ar_csrf_state :: string
  ar_pkce_verifier :: string

definition authorize_params :: "'u oidc_config \<Rightarrow> bool \<Rightarrow> authorize_params" where
  "authorize_params config silent =
     \<lparr>ap_scopes = filter (\<lambda>s. s \<noteq> ''openid'') (oc_scopes config), ap_prompt_none = silent\<rparr>"

record token_response =
  tr_access_token :: string
  tr_refresh_token :: "string option"

definition exchange_code :: "string + token_response \<Rightarrow> oidc_error + token_bundle" where
  "exchange_code answer =
     map_ok (\<lambda>r. \<lparr>tb_access_token = tr_access_token r, tb_refresh_token = tr_refresh_token r\<rparr>)
       (map_err Exchange answer)"

datatype request_error = ServerResponse string | RequestOther string

definition refresh_tokens :: "string \<Rightarrow> request_error + token_response \<Rightarrow> upstream + token_bundle" where
  "refresh_tokens refresh_token answer =
     map_ok (\<lambda>r. \<lparr>tb_access_token = tr_access_token r,
                  tb_refresh_token = (case tr_refresh_token r of
                                        Some t \<Rightarrow> Some t | None \<Rightarrow> Some refresh_token)\<rparr>)
       (map_err (\<lambda>e. case e of ServerResponse why \<Rightarrow> Rejected why | RequestOther why \<Rightarrow> Unreachable why)
         answer)"

record userinfo_claims =
  uc_subject :: string
  uc_username :: "string option"
  uc_groups :: "string list"

definition principal_from_access_token :: "userinfo_error + userinfo_claims \<Rightarrow> upstream + principal" where
  "principal_from_access_token answer =
     and_then (map_err classify_userinfo answer) (\<lambda>c.
       map_err Rejected (from_userinfo (uc_subject c) (uc_username c) (uc_groups c)))"

section \<open>bearer.rs\<close>

datatype validation_error = BearerRejected | BearerUpstream string

fun validation_error_display :: "validation_error \<Rightarrow> string" where
  "validation_error_display BearerRejected = ''access token rejected by authentik''"
| "validation_error_display (BearerUpstream s) = s"

text \<open>A response: its status, the status' text, and the decoded body or the decoder's error.\<close>

record http_answer =
  ha_status :: nat
  ha_status_text :: string
  ha_body :: "string + userinfo_claims"

definition bearer_outcome :: "string + http_answer \<Rightarrow> validation_error + principal" where
  "bearer_outcome answer =
     and_then (map_err (\<lambda>e. BearerUpstream (''userinfo unreachable: '' @ e)) answer)
       (\<lambda>resp.
          if 200 \<le> ha_status resp \<and> ha_status resp < 300 then
            and_then (map_err (\<lambda>e. BearerUpstream (''userinfo returned invalid payload: '' @ e))
              (ha_body resp))
              (\<lambda>body. map_err BearerUpstream
                 (from_userinfo (uc_subject body) (uc_username body) (uc_groups body)))
          else if ha_status resp = 401 \<or> ha_status resp = 403 then Inl BearerRejected
          else Inl (BearerUpstream (''userinfo returned '' @ ha_status_text resp)))"

text \<open>The validator: the HTTP client, a URL and an \<open>Authorization\<close> header to its answer, and the URL.\<close>

record 'x bearer_validator =
  bv_http :: "string \<Rightarrow> string \<Rightarrow> 'x \<Rightarrow> (string + http_answer) \<times> 'x"
  bv_userinfo_url :: string

definition bearer_validate ::
    "'x bearer_validator \<Rightarrow> string \<Rightarrow> 'x \<Rightarrow> (validation_error + principal) \<times> 'x" where
  "bearer_validate v bearer x =
     (case bv_http v (bv_userinfo_url v) (''Bearer '' @ bearer) x of
        (answer, x') \<Rightarrow> (bearer_outcome answer, x'))"

section \<open>Properties\<close>

text \<open>The document's URL under a key, moved to an origin.\<close>

definition endpoint_at :: "'u url_ops \<Rightarrow> (string \<Rightarrow> string option) \<Rightarrow> string \<Rightarrow> 'u \<Rightarrow> 'u \<Rightarrow> bool" where
  "endpoint_at ops doc key base u \<longleftrightarrow>
     (\<exists>raw v. doc key = Some raw \<and> u_parse ops raw = Inr v \<and> swap_origin ops v base = Some u)"

lemma endpoint_ok: "endpoint ops doc key base = Inr u \<Longrightarrow> endpoint_at ops doc key base u"
  by (auto simp: endpoint_def endpoint_at_def result_simps)

lemma end_session_ok:
  "end_session ops doc base = Inr (Some u) \<Longrightarrow> endpoint_at ops doc ''end_session_endpoint'' base u"
  by (auto simp: end_session_def endpoint_at_def result_simps split: option.splits sum.splits)

lemma discover_inv:
  assumes "client_discover ops build get config = Inr c"
  obtains url doc where "disco_url ops config = Inr url" "get url = Document doc"
    "endpoint ops doc ''authorization_endpoint'' (oc_issuer config) = Inr (cl_auth_url c)"
    "endpoint ops doc ''token_endpoint'' (unwrap_or (oc_issuer config) (oc_backchannel config))
      = Inr (cl_token_url c)"
    "endpoint ops doc ''userinfo_endpoint'' (unwrap_or (oc_issuer config) (oc_backchannel config))
      = Inr (cl_userinfo_url c)"
    "end_session ops doc (oc_issuer config) = Inr (cl_end_session_url c)"
proof -
  let ?bk = "unwrap_or (oc_issuer config) (oc_backchannel config)"
  have bk: "(case oc_backchannel config of Some b \<Rightarrow> b | None \<Rightarrow> oc_issuer config) = ?bk"
    by (simp add: unwrap_or_def split: option.splits)
  from assms obtain url where url: "disco_url ops config = Inr url"
    by (cases "disco_url ops config")
      (auto simp: client_discover_def Let_def split: option.splits)
  from assms url obtain doc where doc: "get url = Document doc"
    by (cases "get url") (auto simp: client_discover_def Let_def split: option.splits)
  from assms url doc obtain a t u e where
    "endpoint ops doc ''authorization_endpoint'' (oc_issuer config) = Inr a"
    "endpoint ops doc ''token_endpoint'' ?bk = Inr t"
    "endpoint ops doc ''userinfo_endpoint'' ?bk = Inr u"
    "end_session ops doc (oc_issuer config) = Inr e"
    "c = \<lparr>cl_auth_url = a, cl_token_url = t, cl_userinfo_url = u, cl_config = config,
          cl_end_session_url = e\<rparr>"
    unfolding client_discover_def Let_def bk
    by (cases "build (oc_danger_accept_invalid_certs config)") (auto simp: result_simps)
  with url doc that show thesis by simp
qed

text \<open>Discovery keeps the two sides apart: of a document that is accepted, the authorization
  endpoint (and the end-session endpoint, when it is there) is moved to the issuer's origin, where
  the browser goes, and the token and userinfo endpoints to the back channel's origin; the document
  itself was fetched from the back channel's.\<close>

theorem discover_endpoints:
  assumes "client_discover ops build get config = Inr c"
  shows "\<exists>url doc base. swap_origin ops (oc_issuer config)
        (unwrap_or (oc_issuer config) (oc_backchannel config)) = Some base
    \<and> starts_with url (u_str ops base) \<and> get url = Document doc
    \<and> endpoint_at ops doc ''authorization_endpoint'' (oc_issuer config) (cl_auth_url c)
    \<and> endpoint_at ops doc ''token_endpoint''
        (unwrap_or (oc_issuer config) (oc_backchannel config)) (cl_token_url c)
    \<and> endpoint_at ops doc ''userinfo_endpoint''
        (unwrap_or (oc_issuer config) (oc_backchannel config)) (cl_userinfo_url c)
    \<and> (\<forall>u. cl_end_session_url c = Some u \<longrightarrow>
         endpoint_at ops doc ''end_session_endpoint'' (oc_issuer config) u)"
proof -
  from discover_inv [OF assms] obtain url doc where d: "disco_url ops config = Inr url"
    "get url = Document doc"
    "endpoint ops doc ''authorization_endpoint'' (oc_issuer config) = Inr (cl_auth_url c)"
    "endpoint ops doc ''token_endpoint'' (unwrap_or (oc_issuer config) (oc_backchannel config))
      = Inr (cl_token_url c)"
    "endpoint ops doc ''userinfo_endpoint'' (unwrap_or (oc_issuer config) (oc_backchannel config))
      = Inr (cl_userinfo_url c)"
    "end_session ops doc (oc_issuer config) = Inr (cl_end_session_url c)" .
  from d(1) obtain base where "swap_origin ops (oc_issuer config)
        (unwrap_or (oc_issuer config) (oc_backchannel config)) = Some base"
    "starts_with url (u_str ops base)"
    by (auto simp: disco_url_def Let_def result_simps starts_with_def unwrap_or_def split: option.splits)
  moreover have "\<forall>u. cl_end_session_url c = Some u \<longrightarrow>
      endpoint_at ops doc ''end_session_endpoint'' (oc_issuer config) u"
    using d(6) end_session_ok by fastforce
  ultimately show ?thesis
    using d(2) endpoint_ok [OF d(3)] endpoint_ok [OF d(4)] endpoint_ok [OF d(5)] by blast
qed

definition demo_urls :: "string url_ops" where
  "demo_urls =
     \<lparr>u_parse = Inr, u_join = (\<lambda>b s. Inr s), u_same_origin = (\<lambda>a b. True), u_str = (\<lambda>u. u),
      u_scheme = (\<lambda>_. ''https''), u_host = (\<lambda>_. None), u_port = (\<lambda>_. None), u_path = (\<lambda>u. u),
      u_query = (\<lambda>_. None), u_fragment = (\<lambda>_. None), u_set_scheme = (\<lambda>u _. Some u),
      u_set_host = (\<lambda>u _. Some u), u_set_port = (\<lambda>u _. Some u)\<rparr>"

definition demo_config :: "string oidc_config" where
  "demo_config = oidc_config_new ''https://idp/'' ''app'' ''https://app/cb'' ''sess''"

theorem discover_endpoints_witness:
  "\<exists>c. client_discover demo_urls (\<lambda>_. None) (\<lambda>_. Document (\<lambda>key. Some (''https://idp/'' @ key))) demo_config
      = Inr c \<and> cl_token_url c = ''https://idp/token_endpoint''"
proof -
  have "\<exists>c. client_discover demo_urls (\<lambda>_. None) (\<lambda>_. Document (\<lambda>key. Some (''https://idp/'' @ key))) demo_config
      = Inr c"
    by (simp add: client_discover_def disco_url_def endpoint_def end_session_def swap_origin_def
        demo_urls_def demo_config_def oidc_config_new_def)
  then obtain c where c: "client_discover demo_urls (\<lambda>_. None)
      (\<lambda>_. Document (\<lambda>key. Some (''https://idp/'' @ key))) demo_config = Inr c" by blast
  from discover_endpoints [OF c] have "cl_token_url c = ''https://idp/token_endpoint''"
    by (auto simp: endpoint_at_def swap_origin_def demo_urls_def)
  with c show ?thesis by blast
qed

end
