(* ===== verification/Oidc_Web.thy ===== *)
theory Oidc_Web
  imports Oidc_Store Oidc_Client
begin

text \<open>
  \<open>web.rs\<close> of \<open>crates/oidc\<close>: redirect targets, cookies, the session behind a request, login,
  callback and logout. A handler is a function of the request and the world, the world being the
  outside (the IdP, the clock and the random source, an abstract state threaded through every call
  to it) and the two stores. The stores are any implementation of the interface \<open>id_store\<close>; what
  a cookie jar, a URL or the IdP library does is in the records \<open>url_ops\<close> and \<open>outside\<close>.
\<close>

definition FLOW_COOKIE :: string where
  "FLOW_COOKIE = ''oidc_flow''"

definition REAUTH_HEADER :: string where
  "REAUTH_HEADER = ''X-Common-OIDC-Reauth''"

section \<open>safe_next\<close>

definition resolve_next :: "'u url_ops \<Rightarrow> string \<Rightarrow> string option" where
  "resolve_next ops raw =
     (if \<not> starts_with raw ''/'' then None
      else (case u_parse ops ''https://next.invalid/'' of
              Inl _ \<Rightarrow> None
            | Inr base \<Rightarrow>
                (case u_join ops base raw of
                   Inl _ \<Rightarrow> None
                 | Inr resolved \<Rightarrow>
                     if \<not> u_same_origin ops resolved base then None
                     else (let out = u_path ops resolved
                             @ (case u_query ops resolved of Some q \<Rightarrow> ''?'' @ q | None \<Rightarrow> '''')
                             @ (case u_fragment ops resolved of Some f \<Rightarrow> ''#'' @ f | None \<Rightarrow> '''')
                           in if starts_with out ''/'' \<and> \<not> starts_with out ''//'' then Some out
                              else None))))"

definition safe_next :: "'u url_ops \<Rightarrow> string option \<Rightarrow> string" where
  "safe_next ops raw = unwrap_or ''/'' (Option.bind raw (resolve_next ops))"

section \<open>Cookies and responses\<close>

record cookie =
  ck_name :: string
  ck_value :: string
  ck_path :: "string option"
  ck_http_only :: bool
  ck_lax :: bool
  ck_secure :: bool
  ck_max_age :: "nat option"

definition cookie_new :: "string \<Rightarrow> string \<Rightarrow> cookie" where
  "cookie_new name val =
     \<lparr>ck_name = name, ck_value = val, ck_path = None, ck_http_only = False, ck_lax = False,
      ck_secure = False, ck_max_age = None\<rparr>"

text \<open>The cookies of the request and the changes recorded for the response, in order.\<close>

datatype jar_op = JarAdd cookie | JarRemove cookie

record jar =
  jr_request :: "string \<Rightarrow> string option"
  jr_ops :: "jar_op list"

definition jar_add :: "cookie \<Rightarrow> jar \<Rightarrow> jar" where
  "jar_add c j = j\<lparr>jr_ops := jr_ops j @ [JarAdd c]\<rparr>"

definition jar_remove :: "cookie \<Rightarrow> jar \<Rightarrow> jar" where
  "jar_remove c j = j\<lparr>jr_ops := jr_ops j @ [JarRemove c]\<rparr>"

definition base_cookie :: "string \<Rightarrow> string \<Rightarrow> 'u oidc_config \<Rightarrow> cookie" where
  "base_cookie name val config =
     (cookie_new name val)\<lparr>ck_path := Some ''/'', ck_http_only := True, ck_lax := True,
        ck_secure := oc_cookie_secure config\<rparr>"

definition removal_cookie :: "string \<Rightarrow> cookie" where
  "removal_cookie name = (cookie_new name '''')\<lparr>ck_path := Some ''/''\<rparr>"

definition expiring_removal :: "(string \<Rightarrow> cookie option) \<Rightarrow> string \<Rightarrow> cookie" where
  "expiring_removal parse_cookie name =
     unwrap_or (removal_cookie name) (parse_cookie (name @ ''=; Path=/; Max-Age=0''))"

text \<open>A response: its status, the \<open>Location\<close>, the re-auth header, the cookie changes, the body.\<close>

datatype body = Text string | Json "(string \<times> string) list"

record response =
  rs_status :: nat
  rs_location :: "string option"
  rs_reauth :: "string option"
  rs_cookies :: "jar_op list"
  rs_body :: body

definition status_response :: "nat \<Rightarrow> jar_op list \<Rightarrow> string \<Rightarrow> response" where
  "status_response code ops txt =
     \<lparr>rs_status = code, rs_location = None, rs_reauth = None, rs_cookies = ops, rs_body = Text txt\<rparr>"

definition redirect_response :: "nat \<Rightarrow> jar_op list \<Rightarrow> string \<Rightarrow> response" where
  "redirect_response code ops url =
     \<lparr>rs_status = code, rs_location = Some url, rs_reauth = None, rs_cookies = ops, rs_body = Text ''''\<rparr>"

section \<open>The outside and the state\<close>

text \<open>
  The calls that leave the process. \<open>xt_userinfo\<close> and \<open>xt_refresh\<close> are
  \<open>retry::within(&deadline, ...)\<close> of the client's call.
\<close>

record 'x outside =
  xt_userinfo :: "string \<Rightarrow> 'x \<Rightarrow> (upstream + principal) \<times> 'x"
  xt_refresh :: "string \<Rightarrow> 'x \<Rightarrow> (upstream + token_bundle) \<times> 'x"
  xt_exchange :: "string \<Rightarrow> string \<Rightarrow> 'x \<Rightarrow> (oidc_error + token_bundle) \<times> 'x"
  xt_authorize :: "authorize_params \<Rightarrow> 'x \<Rightarrow> authorize_request \<times> 'x"
  xt_now :: "'x \<Rightarrow> nat"
  xt_uuid :: "'x \<Rightarrow> string \<times> 'x"
  xt_parse_cookie :: "string \<Rightarrow> cookie option"
  xt_cookies :: "(string \<Rightarrow> string option option) \<Rightarrow> string \<Rightarrow> string option"

record ('x, 's, 'f, 'u) oidc_state =
  os_outside :: "'x outside"
  os_sessions :: "('s, session) store_ops"
  os_flows :: "('f, flow_state) store_ops"
  os_urls :: "'u url_ops"
  os_client :: "'u oidc_client"

record ('x, 's, 'f) world =
  wd_x :: 'x
  wd_sessions :: 's
  wd_flows :: 'f

definition state_config :: "('x, 's, 'f, 'u) oidc_state \<Rightarrow> 'u oidc_config" where
  "state_config oidc = cl_config (os_client oidc)"

definition session_cookie :: "('x, 's, 'f, 'u) oidc_state \<Rightarrow> string" where
  "session_cookie oidc = oc_cookie_name (state_config oidc)"

definition now_of :: "('x, 's, 'f, 'u) oidc_state \<Rightarrow> ('x, 's, 'f) world \<Rightarrow> nat" where
  "now_of oidc w = xt_now (os_outside oidc) (wd_x w)"

definition state_discover ::
    "'u oidc_config \<Rightarrow> (discover_fault + 'u oidc_client) \<Rightarrow> discover_fault + 'u oidc_client" where
  "state_discover config discovered =
     (if oc_deployment config = Prod \<and> oc_danger_accept_invalid_certs config
      then Inl (Failed (ConfigError
        ''danger_accept_invalid_certs is dev-only and refused under DEPLOYMENT_TYPE=prod''))
      else discovered)"

definition sessions_get :: "('x, 's, 'f, 'u) oidc_state \<Rightarrow> string \<Rightarrow> ('x, 's, 'f) world \<Rightarrow> session option" where
  "sessions_get oidc sid w = st_get (os_sessions oidc) (now_of oidc w) (wd_sessions w) sid"

definition sessions_put ::
    "('x, 's, 'f, 'u) oidc_state \<Rightarrow> string \<Rightarrow> session \<Rightarrow> ('x, 's, 'f) world \<Rightarrow> ('x, 's, 'f) world" where
  "sessions_put oidc sid s w =
     w\<lparr>wd_sessions := st_put (os_sessions oidc) (now_of oidc w) sid s (wd_sessions w)\<rparr>"

definition sessions_remove ::
    "('x, 's, 'f, 'u) oidc_state \<Rightarrow> string \<Rightarrow> ('x, 's, 'f) world \<Rightarrow> ('x, 's, 'f) world" where
  "sessions_remove oidc sid w = w\<lparr>wd_sessions := st_remove (os_sessions oidc) sid (wd_sessions w)\<rparr>"

definition flows_get :: "('x, 's, 'f, 'u) oidc_state \<Rightarrow> string \<Rightarrow> ('x, 's, 'f) world \<Rightarrow> flow_state option" where
  "flows_get oidc fid w = st_get (os_flows oidc) (now_of oidc w) (wd_flows w) fid"

definition flows_put ::
    "('x, 's, 'f, 'u) oidc_state \<Rightarrow> string \<Rightarrow> flow_state \<Rightarrow> ('x, 's, 'f) world \<Rightarrow> ('x, 's, 'f) world" where
  "flows_put oidc fid f w =
     w\<lparr>wd_flows := st_put (os_flows oidc) (now_of oidc w) fid f (wd_flows w)\<rparr>"

definition flows_remove ::
    "('x, 's, 'f, 'u) oidc_state \<Rightarrow> string \<Rightarrow> ('x, 's, 'f) world \<Rightarrow> ('x, 's, 'f) world" where
  "flows_remove oidc fid w = w\<lparr>wd_flows := st_remove (os_flows oidc) fid (wd_flows w)\<rparr>"

text \<open>A call to the outside: its answer, and the world after it.\<close>

definition call_out :: "('x \<Rightarrow> 'a \<times> 'x) \<Rightarrow> ('x, 's, 'f) world \<Rightarrow> 'a \<times> ('x, 's, 'f) world" where
  "call_out f w = (case f (wd_x w) of (a, x) \<Rightarrow> (a, w\<lparr>wd_x := x\<rparr>))"

definition new_id :: "('x, 's, 'f, 'u) oidc_state \<Rightarrow> ('x, 's, 'f) world \<Rightarrow> string \<times> ('x, 's, 'f) world" where
  "new_id oidc w =
     (case call_out (xt_uuid (os_outside oidc)) w of
        (a, w) \<Rightarrow> (case call_out (xt_uuid (os_outside oidc)) w of (b, w) \<Rightarrow> (a @ b, w)))"

section \<open>The session behind a request\<close>

definition end_session_of ::
    "('x, 's, 'f, 'u) oidc_state \<Rightarrow> string \<Rightarrow> ('x, 's, 'f) world
     \<Rightarrow> (principal \<times> session) option \<times> ('x, 's, 'f) world" where
  "end_session_of oidc sid w = (None, sessions_remove oidc sid w)"

text \<open>The refresh branch, on a session whose access token was rejected.\<close>

definition refresh_session ::
    "('x, 's, 'f, 'u) oidc_state \<Rightarrow> string \<Rightarrow> session \<Rightarrow> ('x, 's, 'f) world
     \<Rightarrow> (principal \<times> session) option \<times> ('x, 's, 'f) world" where
  "refresh_session oidc sid se w =
     (case se_refresh_token se of
        None \<Rightarrow> end_session_of oidc sid w
      | Some rt \<Rightarrow>
          (case call_out (xt_refresh (os_outside oidc) rt) w of
             (Inl _, w) \<Rightarrow> end_session_of oidc sid w
           | (Inr tokens, w) \<Rightarrow>
               (let refreshed = \<lparr>se_access_token = tb_access_token tokens,
                                 se_refresh_token = tb_refresh_token tokens,
                                 se_created = se_created se\<rparr>;
                    w = sessions_put oidc sid refreshed w
                in (case call_out (xt_userinfo (os_outside oidc) (se_access_token refreshed)) w of
                      (Inr p, w) \<Rightarrow> (Some (p, refreshed), w)
                    | (Inl _, w) \<Rightarrow> end_session_of oidc sid w))))"

definition resolve_session ::
    "('x, 's, 'f, 'u) oidc_state \<Rightarrow> jar \<Rightarrow> ('x, 's, 'f) world
     \<Rightarrow> (principal \<times> session) option \<times> ('x, 's, 'f) world" where
  "resolve_session oidc j w =
     (case jr_request j (session_cookie oidc) of
        None \<Rightarrow> (None, w)
      | Some sid \<Rightarrow>
          (case sessions_get oidc sid w of
             None \<Rightarrow> (None, w)
           | Some se \<Rightarrow>
               (case call_out (xt_userinfo (os_outside oidc) (se_access_token se)) w of
                  (Inr p, w) \<Rightarrow> (Some (p, se), w)
                | (Inl (Unreachable why), w) \<Rightarrow> end_session_of oidc sid w
                | (Inl (Rejected why), w) \<Rightarrow> refresh_session oidc sid se w)))"

section \<open>Login, callback, logout\<close>

definition start_login ::
    "('x, 's, 'f, 'u) oidc_state \<Rightarrow> jar \<Rightarrow> string \<Rightarrow> bool \<Rightarrow> bool \<Rightarrow> ('x, 's, 'f) world
     \<Rightarrow> response \<times> ('x, 's, 'f) world" where
  "start_login oidc j nxt silent interactive_tried w =
     (case call_out (xt_authorize (os_outside oidc) (authorize_params (state_config oidc) silent)) w of
        (auth, w) \<Rightarrow>
          (case new_id oidc w of
             (fid, w) \<Rightarrow>
               (redirect_response 307
                  (jr_ops (jar_add (base_cookie FLOW_COOKIE fid (state_config oidc)) j)) (ar_url auth),
                flows_put oidc fid
                  \<lparr>fl_state = ar_csrf_state auth, fl_verifier = ar_pkce_verifier auth, fl_next = nxt,
                   fl_interactive_tried = interactive_tried, fl_created = now_of oidc w\<rparr> w)))"

definition login ::
    "('x, 's, 'f, 'u) oidc_state \<Rightarrow> jar \<Rightarrow> (string \<Rightarrow> string option) \<Rightarrow> ('x, 's, 'f) world
     \<Rightarrow> response \<times> ('x, 's, 'f) world" where
  "login oidc j params w =
     (let nxt = safe_next (os_urls oidc) (params ''next'');
          silent = (params ''prompt'' \<noteq> Some ''login'')
      in start_login oidc j nxt silent (\<not> silent) w)"

definition needs_interaction :: "string \<Rightarrow> bool" where
  "needs_interaction e = (e \<in> {''login_required'', ''interaction_required'', ''consent_required''})"

definition callback_error ::
    "('x, 's, 'f, 'u) oidc_state \<Rightarrow> jar \<Rightarrow> string \<Rightarrow> flow_state \<Rightarrow> string \<Rightarrow> ('x, 's, 'f) world
     \<Rightarrow> response \<times> ('x, 's, 'f) world" where
  "callback_error oidc j fid flow e w =
     (let w = flows_remove oidc fid w;
          j = jar_remove (removal_cookie FLOW_COOKIE) j
      in if needs_interaction e \<and> \<not> fl_interactive_tried flow
         then start_login oidc j (safe_next (os_urls oidc) (Some (fl_next flow))) False True w
         else (status_response 401 (jr_ops j) (''authentication failed: '' @ e), w))"

definition callback_exchange ::
    "('x, 's, 'f, 'u) oidc_state \<Rightarrow> jar \<Rightarrow> string \<Rightarrow> flow_state \<Rightarrow> string \<Rightarrow> ('x, 's, 'f) world
     \<Rightarrow> response \<times> ('x, 's, 'f) world" where
  "callback_exchange oidc j fid flow code w =
     (case call_out (xt_exchange (os_outside oidc) code (fl_verifier flow)) w of
        (Inr tokens, w) \<Rightarrow>
          (case new_id oidc (flows_remove oidc fid w) of
             (sid, w) \<Rightarrow>
               (redirect_response 307
                  (jr_ops (jar_add (base_cookie (session_cookie oidc) sid (state_config oidc))
                     (jar_remove (removal_cookie FLOW_COOKIE) j)))
                  (safe_next (os_urls oidc) (Some (fl_next flow))),
                sessions_put oidc sid
                  \<lparr>se_access_token = tb_access_token tokens, se_refresh_token = tb_refresh_token tokens,
                   se_created = now_of oidc w\<rparr> w))
      | (Inl e, w) \<Rightarrow>
          (status_response 401 (jr_ops (jar_remove (removal_cookie FLOW_COOKIE) j))
             (''authentication failed: '' @ oidc_error_display e), w))"

definition callback ::
    "('x, 's, 'f, 'u) oidc_state \<Rightarrow> jar \<Rightarrow> (string \<Rightarrow> string option) \<Rightarrow> ('x, 's, 'f) world
     \<Rightarrow> response \<times> ('x, 's, 'f) world" where
  "callback oidc j params w =
     (let flow_id = jr_request j FLOW_COOKIE in
      case Option.bind flow_id (\<lambda>fid. flows_get oidc fid w) of
        None \<Rightarrow> start_login oidc j ''/'' True False w
      | Some flow \<Rightarrow>
          (let fid = unwrap_or '''' flow_id in
           case params ''error'' of
             Some e \<Rightarrow> callback_error oidc j fid flow e w
           | None \<Rightarrow>
               (case (params ''code'', params ''state'') of
                  (Some code, Some st) \<Rightarrow>
                    if st \<noteq> fl_state flow then (status_response 400 [] ''state mismatch'', w)
                    else callback_exchange oidc j fid flow code w
                | _ \<Rightarrow> (status_response 400 [] ''missing code/state'', w))))"

text \<open>\<open>headers name\<close>: \<open>Some None\<close> is a header whose value is not visible ASCII.\<close>

definition header_str :: "(string \<Rightarrow> string option option) \<Rightarrow> string \<Rightarrow> string option" where
  "header_str headers name = Option.bind (headers name) (\<lambda>v. v)"

definition url_origin :: "'u url_ops \<Rightarrow> 'u \<Rightarrow> string" where
  "url_origin ops u =
     u_scheme ops u @ ''://'' @ unwrap_or '''' (u_host ops u)
     @ (case u_port ops u of Some p \<Rightarrow> '':'' @ show_nat p | None \<Rightarrow> '''')"

definition app_origin :: "'u url_ops \<Rightarrow> 'u oidc_config \<Rightarrow> string" where
  "app_origin ops config = url_origin ops (oc_redirect_url config)"

definition user_portal_url :: "'u url_ops \<Rightarrow> 'u oidc_config \<Rightarrow> string" where
  "user_portal_url ops config = url_origin ops (oc_issuer config) @ ''/if/user/''"

definition from_this_site ::
    "'u url_ops \<Rightarrow> (string \<Rightarrow> string option option) \<Rightarrow> 'u oidc_config \<Rightarrow> bool" where
  "from_this_site ops headers config =
     (case header_str headers ''sec-fetch-site'' of
        Some site \<Rightarrow> site = ''same-origin''
      | None \<Rightarrow> (case header_str headers ''origin'' of
                   Some org \<Rightarrow> org = app_origin ops config | None \<Rightarrow> False))"

definition logout ::
    "('x, 's, 'f, 'u) oidc_state \<Rightarrow> jar \<Rightarrow> (string \<Rightarrow> string option option) \<Rightarrow> ('x, 's, 'f) world
     \<Rightarrow> response \<times> ('x, 's, 'f) world" where
  "logout oidc j headers w =
     (if \<not> from_this_site (os_urls oidc) headers (state_config oidc)
      then (status_response 403 [] '''', w)
      else
        (let w = (case jr_request j (session_cookie oidc) of
                    Some sid \<Rightarrow> sessions_remove oidc sid w | None \<Rightarrow> w);
             j = jar_remove (expiring_removal (xt_parse_cookie (os_outside oidc)) (session_cookie oidc)) j
         in (redirect_response 303 (jr_ops j)
               (case cl_end_session_url (os_client oidc) of
                  Some url \<Rightarrow> u_str (os_urls oidc) url | None \<Rightarrow> ''/''), w)))"

section \<open>Routes and refusals\<close>

datatype oidc_route = RouteCallback | RouteLogin | RouteLogout | RouteClientJs

definition oidc_router :: "('x, 's, 'f, 'u) oidc_state \<Rightarrow> (string \<times> string \<times> oidc_route) list" where
  "oidc_router oidc =
     [(u_path (os_urls oidc) (oc_redirect_url (state_config oidc)), ''GET'', RouteCallback),
      (oc_login_path (state_config oidc), ''GET'', RouteLogin),
      (oc_logout_path (state_config oidc), ''POST'', RouteLogout),
      (''/common-oidc.js'', ''GET'', RouteClientJs)]"

record parts =
  pt_method :: string
  pt_headers :: "string \<Rightarrow> string option option"
  pt_path_query :: "string option"

definition wants_html :: "parts \<Rightarrow> bool" where
  "wants_html p \<longleftrightarrow> pt_method p = ''GET''
     \<and> (case header_str (pt_headers p) ''accept'' of Some a \<Rightarrow> contains ''text/html'' a | None \<Rightarrow> False)"

definition unauthorized_with_jar :: "('x, 's, 'f, 'u) oidc_state \<Rightarrow> jar \<Rightarrow> response" where
  "unauthorized_with_jar oidc j =
     \<lparr>rs_status = 401, rs_location = None, rs_reauth = Some (oc_login_path (state_config oidc)),
      rs_cookies = jr_ops (jar_add
        (expiring_removal (xt_parse_cookie (os_outside oidc)) (session_cookie oidc)) j),
      rs_body = Text ''authentication required''\<rparr>"

definition unauthenticated ::
    "('x, 's, 'f, 'u) oidc_state \<Rightarrow> parts \<Rightarrow> jar \<Rightarrow> ('x, 's, 'f) world
     \<Rightarrow> response \<times> ('x, 's, 'f) world" where
  "unauthenticated oidc p j w =
     (if wants_html p
      then start_login oidc (jar_remove (removal_cookie (session_cookie oidc)) j)
             (safe_next (os_urls oidc) (pt_path_query p)) True False w
      else (unauthorized_with_jar oidc j, w))"

definition unauthorized_response :: "('x, 's, 'f, 'u) oidc_state \<Rightarrow> response" where
  "unauthorized_response oidc = unauthorized_with_jar oidc \<lparr>jr_request = Map.empty, jr_ops = []\<rparr>"

definition with_flow_store ::
    "('g, flow_state) store_ops \<Rightarrow> ('x, 's, 'f, 'u) oidc_state \<Rightarrow> ('x, 's, 'g, 'u) oidc_state" where
  "with_flow_store fs oidc =
     \<lparr>os_outside = os_outside oidc, os_sessions = os_sessions oidc, os_flows = fs,
      os_urls = os_urls oidc, os_client = os_client oidc\<rparr>"

definition jar_from_headers :: "('x, 's, 'f, 'u) oidc_state \<Rightarrow> parts \<Rightarrow> jar" where
  "jar_from_headers oidc p = \<lparr>jr_request = xt_cookies (os_outside oidc) (pt_headers p), jr_ops = []\<rparr>"

definition login_redirect ::
    "('x, 's, 'f, 'u) oidc_state \<Rightarrow> parts \<Rightarrow> ('x, 's, 'f) world \<Rightarrow> response \<times> ('x, 's, 'f) world" where
  "login_redirect oidc p w = unauthenticated oidc p (jar_from_headers oidc p) w"

definition principal_from_request_parts ::
    "('x, 's, 'f, 'u) oidc_state \<Rightarrow> parts \<Rightarrow> ('x, 's, 'f) world
     \<Rightarrow> (response + principal) \<times> ('x, 's, 'f) world" where
  "principal_from_request_parts oidc p w =
     (case resolve_session oidc (jar_from_headers oidc p) w of
        (Some (pr, _), w) \<Rightarrow> (Inr pr, w)
      | (None, w) \<Rightarrow>
          (case unauthenticated oidc p (jar_from_headers oidc p) w of (r, w) \<Rightarrow> (Inl r, w)))"

end
