(* ===== verification/Oidc_Web_Proofs.thy ===== *)
theory Oidc_Web_Proofs
  imports Oidc_Web
begin

text \<open>
  What the handlers of \<open>web.rs\<close> guarantee. The locale \<open>web_stores\<close> has the laws of the two
  stores a state was built with; it is interpreted on the state \<open>OidcState::discover\<close> builds
  over the in-memory stores, with every IdP, clock, random source and URL library.
\<close>

section \<open>The handlers over any store\<close>

lemma call_out_world: "call_out f w = (a, w') \<Longrightarrow> \<exists>x'. f (wd_x w) = (a, x') \<and> w' = w\<lparr>wd_x := x'\<rparr>"
  by (auto simp: call_out_def split: prod.splits)

lemma new_id_world: "new_id oidc w = (i, w') \<Longrightarrow> \<exists>x'. w' = w\<lparr>wd_x := x'\<rparr>"
  by (auto simp: new_id_def dest!: call_out_world split: prod.splits)

lemma start_login_sessions:
  "start_login oidc j nxt silent tried w = (r, w') \<Longrightarrow> wd_sessions w' = wd_sessions w"
  by (auto simp: start_login_def flows_put_def dest!: call_out_world new_id_world split: prod.splits)

lemma start_login_response:
  assumes "start_login oidc j nxt silent tried w = (r, w')"
  shows "rs_status r = 307"
    "rs_location r = Some (ar_url (fst (xt_authorize (os_outside oidc)
        (authorize_params (state_config oidc) silent) (wd_x w))))"
  using assms
  by (auto simp: start_login_def redirect_response_def dest!: call_out_world split: prod.splits)

locale web_stores =
  sess: id_store "os_sessions oidc" slive + flow: id_store "os_flows oidc" flive
  for oidc :: "('x, 's, 'f, 'u) oidc_state"
    and slive :: "'s \<Rightarrow> nat \<Rightarrow> session \<Rightarrow> bool" and flive :: "'f \<Rightarrow> nat \<Rightarrow> flow_state \<Rightarrow> bool"
begin

lemma removed_session: "sessions_get oidc sid (sessions_remove oidc sid w) = None"
  by (simp add: sessions_get_def sessions_remove_def now_of_def sess.get_remove_same)

lemma removed_flow: "flows_get oidc fid (flows_remove oidc fid w) = None"
  by (simp add: flows_get_def flows_remove_def now_of_def flow.get_remove_same)

lemma end_session_gone:
  "end_session_of oidc sid w = (r, w') \<Longrightarrow> r = None \<and> sessions_get oidc sid w' = None"
  using removed_session by (auto simp: end_session_of_def)

lemma refresh_session_none:
  "refresh_session oidc sid se w = (None, w') \<Longrightarrow> sessions_get oidc sid w' = None"
  by (auto simp: refresh_session_def Let_def dest!: end_session_gone
      split: option.splits prod.splits sum.splits)

lemma resolve_none:
  assumes "resolve_session oidc j w = (None, w')" "jr_request j (session_cookie oidc) = Some sid"
  shows "sessions_get oidc sid w' = None"
  using assms
  by (auto simp: resolve_session_def dest!: end_session_gone refresh_session_none
      split: option.splits prod.splits sum.splits upstream.splits)

lemma refresh_session_some:
  assumes "refresh_session oidc sid se w = (Some (p, se'), w')"
  shows "se_created se' = se_created se \<and>
    (\<exists>x x'. xt_userinfo (os_outside oidc) (se_access_token se') x = (Inr p, x'))"
  using assms
  apply (clarsimp simp: refresh_session_def Let_def dest!: end_session_gone call_out_world
      split: option.splits prod.splits sum.splits)
  by blast

lemma resolve_some:
  assumes "resolve_session oidc j w = (Some (p, se), w')"
  shows "\<exists>sid se0 x x'. jr_request j (session_cookie oidc) = Some sid
    \<and> sessions_get oidc sid w = Some se0 \<and> se_created se = se_created se0
    \<and> xt_userinfo (os_outside oidc) (se_access_token se) x = (Inr p, x')"
proof -
  from assms obtain sid se0 where sid: "jr_request j (session_cookie oidc) = Some sid"
    "sessions_get oidc sid w = Some se0"
    by (auto simp: resolve_session_def split: option.splits)
  obtain r w1 where call: "call_out (xt_userinfo (os_outside oidc) (se_access_token se0)) w = (r, w1)"
    by fastforce
  have "se_created se = se_created se0 \<and>
      (\<exists>x x'. xt_userinfo (os_outside oidc) (se_access_token se) x = (Inr p, x'))"
  proof (cases r)
    case (Inl e)
    with assms sid call have "refresh_session oidc sid se0 w1 = (Some (p, se), w')"
      by (auto simp: resolve_session_def end_session_of_def split: upstream.splits)
    then show ?thesis by (rule refresh_session_some)
  next
    case (Inr q)
    with assms sid call call_out_world [OF call] show ?thesis by (auto simp: resolve_session_def)
  qed
  with sid show ?thesis by blast
qed

lemma callback_exchange_ok:
  assumes "callback_exchange oidc j fid flw code w = (r, w')"
    and "wd_sessions w' \<noteq> wd_sessions w"
  shows "\<exists>tokens x'. xt_exchange (os_outside oidc) code (fl_verifier flw) (wd_x w) = (Inr tokens, x')
    \<and> flows_get oidc fid w' = None"
  using assms flow.get_remove_same
  by (auto simp: callback_exchange_def flows_remove_def sessions_put_def flows_get_def now_of_def
      dest!: call_out_world new_id_world split: prod.splits sum.splits)

lemma callback_error_sessions:
  "callback_error oidc j fid flw e w = (r, w') \<Longrightarrow> wd_sessions w' = wd_sessions w"
  by (auto simp: callback_error_def Let_def flows_remove_def dest!: start_login_sessions
      split: if_splits)

lemma callback_new_session:
  assumes "callback oidc j params w = (r, w')" "wd_sessions w' \<noteq> wd_sessions w"
  obtains fid flw code tokens x' where "jr_request j FLOW_COOKIE = Some fid"
    "flows_get oidc fid w = Some flw" "params ''error'' = None" "params ''code'' = Some code"
    "params ''state'' = Some (fl_state flw)"
    "xt_exchange (os_outside oidc) code (fl_verifier flw) (wd_x w) = (Inr tokens, x')"
    "flows_get oidc fid w' = None"
  using assms
  by (auto simp: callback_def Let_def bind_eq_Some_conv dest!: start_login_sessions callback_error_sessions
      callback_exchange_ok split: option.splits if_splits)

end

section \<open>The state over the in-memory stores\<close>

definition memory_state ::
    "'x outside \<Rightarrow> 'u url_ops \<Rightarrow> 'u oidc_client
     \<Rightarrow> ('x, session expiring, flow_state expiring, 'u) oidc_state" where
  "memory_state out urls client =
     \<lparr>os_outside = out, os_sessions = session_ops, os_flows = flow_ops, os_urls = urls,
      os_client = client\<rparr>"

lemma memory_state_simps [simp]:
  "os_outside (memory_state out urls client) = out"
  "os_sessions (memory_state out urls client) = session_ops"
  "os_flows (memory_state out urls client) = flow_ops"
  "os_urls (memory_state out urls client) = urls"
  "os_client (memory_state out urls client) = client"
  by (simp_all add: memory_state_def)

interpretation memory: web_stores "memory_state out urls client"
    "\<lambda>e now v. expiring_live se_created (ex_max_age e) v now"
    "\<lambda>e now v. expiring_live fl_created (ex_max_age e) v now"
  unfolding web_stores_def memory_state_simps
  using sessions.id_store_axioms flows.id_store_axioms by blast

section \<open>Redirect targets\<close>

definition site_path :: "string \<Rightarrow> bool" where
  "site_path p \<longleftrightarrow> starts_with p ''/'' \<and> \<not> starts_with p ''//''"

lemma safe_next_site: "site_path (safe_next ops raw)"
proof (cases "Option.bind raw (resolve_next ops)")
  case None
  then show ?thesis by (simp add: safe_next_def site_path_def starts_with_def)
next
  case (Some out)
  then have "site_path out"
    by (auto simp: bind_eq_Some_conv resolve_next_def Let_def site_path_def
        split: if_splits sum.splits)
  with Some show ?thesis by (simp add: safe_next_def)
qed

text \<open>
  What the URL library and the browser do, by the WHATWG URL standard: TAB, LF and CR are dropped
  from the input; after a scheme such as \<open>https\<close>, a backslash counts as a slash; two of them start an
  authority; one starts a path of the base's site, which always resolves. \<open>local_reference\<close> are
  the references of this last kind.
\<close>

definition unbroken :: "string \<Rightarrow> string" where
  "unbroken s = filter (\<lambda>c. c \<notin> {CHR 0x09, CHR 0x0A, CHR 0x0D}) s"

definition slash_like :: "char \<Rightarrow> bool" where
  "slash_like c \<longleftrightarrow> c \<in> {CHR ''/'', CHR 0x5C}"

definition local_reference :: "string \<Rightarrow> bool" where
  "local_reference t \<longleftrightarrow> unbroken t = t \<and>
     (\<exists>rest. t = CHR ''/'' # rest \<and> (case rest of c # _ \<Rightarrow> \<not> slash_like c | [] \<Rightarrow> True))"

text \<open>The path, query and fragment of a URL, as \<open>resolve\<close> puts them together.\<close>

definition url_target :: "'u url_ops \<Rightarrow> 'u \<Rightarrow> string" where
  "url_target ops u =
     u_path ops u @ (case u_query ops u of Some q \<Rightarrow> ''?'' @ q | None \<Rightarrow> '''')
       @ (case u_fragment ops u of Some f \<Rightarrow> ''#'' @ f | None \<Rightarrow> '''')"

text \<open>
  The three parts of the standard the redirect relies on: a parsed \<open>https\<close> URL has no TAB, LF or CR in
  its components and no backslash in its path; a reference with two leading slashes is one with an
  authority; a local reference leads to the site of its base.
\<close>

definition url_standard :: "'u url_ops \<Rightarrow> 'u \<Rightarrow> bool" where
  "url_standard ops base \<longleftrightarrow>
     u_parse ops ''https://next.invalid/'' = Inr base
     \<and> (\<forall>raw u. u_join ops base raw = Inr u \<longrightarrow> u_same_origin ops u base \<longrightarrow>
          unbroken (url_target ops u) = url_target ops u \<and> CHR 0x5C \<notin> set (u_path ops u))
     \<and> (\<forall>raw c d rest u. unbroken raw = c # d # rest \<longrightarrow> slash_like c \<longrightarrow> slash_like d \<longrightarrow>
          (u_join ops base raw = Inr u \<longleftrightarrow> u_parse ops (''https://'' @ rest) = Inr u))
     \<and> (\<forall>site t. u_scheme ops site \<in> {''http'', ''https''} \<longrightarrow> local_reference t \<longrightarrow>
          (\<exists>u. u_join ops site t = Inr u \<and> u_same_origin ops u site))"

lemma resolve_next_Some:
  assumes "url_standard ops base" "resolve_next ops raw = Some t"
  shows "\<exists>u. starts_with raw ''/'' \<and> u_join ops base raw = Inr u \<and> u_same_origin ops u base
    \<and> t = url_target ops u \<and> site_path t"
  using assms
  by (auto simp: resolve_next_def url_standard_def Let_def url_target_def site_path_def
      split: if_splits sum.splits)

lemma url_target_local:
  assumes "url_standard ops base" "u_join ops base raw = Inr u" "u_same_origin ops u base"
    and "site_path (url_target ops u)"
  shows "local_reference (url_target ops u)"
proof -
  from assms(4) obtain rest where t: "url_target ops u = CHR ''/'' # rest"
    by (cases "url_target ops u") (auto simp: site_path_def starts_with_def)
  have "\<not> slash_like c" if "rest = c # cs" for c cs
  proof -
    from t assms(4) that have "c \<noteq> CHR ''/''" by (auto simp: site_path_def starts_with_def)
    moreover from assms(1-3) have "CHR 0x5C \<notin> set (u_path ops u)" unfolding url_standard_def by blast
    with t that have "c \<noteq> CHR 0x5C"
      by (cases "u_path ops u"; cases "tl (u_path ops u)")
        (auto simp: url_target_def split: option.splits)
    ultimately show ?thesis by (simp add: slash_like_def)
  qed
  moreover from assms(1-3) have "unbroken (url_target ops u) = url_target ops u"
    unfolding url_standard_def by blast
  ultimately show ?thesis using t unfolding local_reference_def by (cases rest) auto
qed

lemma safe_next_local:
  assumes "url_standard ops base"
  shows "local_reference (safe_next ops raw)"
proof (cases "Option.bind raw (resolve_next ops)")
  case None
  then show ?thesis by (simp add: safe_next_def local_reference_def unbroken_def)
next
  case (Some t)
  then obtain s where "resolve_next ops s = Some t" by (auto simp: bind_eq_Some_conv)
  with resolve_next_Some [OF assms] url_target_local [OF assms] have "local_reference t" by blast
  with Some show ?thesis by (simp add: safe_next_def)
qed

lemma safe_next_refused:
  assumes "url_standard ops base"
    and "\<not> starts_with s ''/'' \<or> (\<forall>u. u_join ops base s = Inr u \<longrightarrow> \<not> u_same_origin ops u base)"
  shows "safe_next ops (Some s) = ''/''"
proof (cases "resolve_next ops s")
  case (Some t)
  with resolve_next_Some [OF assms(1)] assms(2) show ?thesis by blast
qed (simp add: safe_next_def)

section \<open>Properties\<close>

text \<open>C13: No open redirect, with a URL library and a browser that follow the URL standard. Whatever
  \<open>next\<close> a request or a stored flow carries, a browser on any page of an http or https site that
  is sent to the target stays on that site: the target is one slash, then neither a slash nor a
  backslash, without TAB, LF or CR. A \<open>next\<close> that does not begin with a slash, or that resolves to
  another origin, becomes \<open>/\<close>, in particular one that begins, once TAB, LF and CR are dropped, with
  two slashes or backslashes and names another host. One that resolves to a path of the same
  origin becomes that path, query and fragment, except that a path of two slashes becomes \<open>/\<close>.\<close>

theorem safe_next_no_open_redirect:
  assumes "url_standard ops base"
  shows "local_reference (safe_next ops raw)
    \<and> (\<forall>site. u_scheme ops site \<in> {''http'', ''https''} \<longrightarrow>
         (\<exists>u. u_join ops site (safe_next ops raw) = Inr u \<and> u_same_origin ops u site))
    \<and> (\<forall>s. raw = Some s \<longrightarrow>
         \<not> starts_with s ''/'' \<or> (\<forall>u. u_join ops base s = Inr u \<longrightarrow> \<not> u_same_origin ops u base) \<longrightarrow>
         safe_next ops raw = ''/'')
    \<and> (\<forall>s c d rest. raw = Some s \<longrightarrow> unbroken s = c # d # rest \<longrightarrow> slash_like c \<longrightarrow> slash_like d \<longrightarrow>
         (\<forall>u. u_parse ops (''https://'' @ rest) = Inr u \<longrightarrow> \<not> u_same_origin ops u base) \<longrightarrow>
         safe_next ops raw = ''/'')
    \<and> (\<forall>s u. raw = Some s \<longrightarrow> starts_with s ''/'' \<longrightarrow> u_join ops base s = Inr u \<longrightarrow>
         u_same_origin ops u base \<longrightarrow>
         safe_next ops raw = (if site_path (url_target ops u) then url_target ops u else ''/''))"
proof -
  note local = safe_next_local [OF assms, of raw]
  have authority: "\<forall>u. u_join ops base s = Inr u \<longrightarrow> \<not> u_same_origin ops u base"
    if "unbroken s = c # d # rest" "slash_like c" "slash_like d"
      "\<forall>u. u_parse ops (''https://'' @ rest) = Inr u \<longrightarrow> \<not> u_same_origin ops u base" for s c d rest
    using assms that unfolding url_standard_def by metis
  have kept: "safe_next ops (Some s) = (if site_path (url_target ops u) then url_target ops u else ''/'')"
    if "starts_with s ''/''" "u_join ops base s = Inr u" "u_same_origin ops u base" for s u
    using assms that by (simp add: safe_next_def resolve_next_def url_standard_def url_target_def
        site_path_def Let_def)
  from assms local have
    "\<forall>site. u_scheme ops site \<in> {''http'', ''https''} \<longrightarrow>
       (\<exists>u. u_join ops site (safe_next ops raw) = Inr u \<and> u_same_origin ops u site)"
    unfolding url_standard_def by blast
  with local safe_next_refused [OF assms] authority kept show ?thesis by (intro conjI) blast+
qed

text \<open>
  The URL standard in miniature, for \<open>https\<close> URLs of a host and a path: \<open>(host, path)\<close>.
\<close>

definition folded :: "string \<Rightarrow> string" where
  "folded s = map (\<lambda>c. if slash_like c then CHR ''/'' else c) s"

definition mini_parse :: "string \<Rightarrow> string + string \<times> string" where
  "mini_parse s =
     (case strip_prefix ''https://'' s of
        None \<Rightarrow> Inl ''not an https URL''
      | Some r \<Rightarrow>
          (let r = dropWhile slash_like (unbroken r);
               host = takeWhile (\<lambda>c. \<not> slash_like c) r;
               path = folded (dropWhile (\<lambda>c. \<not> slash_like c) r)
           in if host = [] then Inl ''empty host'' else Inr (host, if path = [] then ''/'' else path)))"

definition mini_join :: "string \<times> string \<Rightarrow> string \<Rightarrow> string + string \<times> string" where
  "mini_join site s =
     (case unbroken s of
        c # d # rest \<Rightarrow>
          if slash_like c \<and> slash_like d then mini_parse (''https://'' @ rest)
          else if slash_like c
          then Inr (fst site, CHR ''/'' # folded (d # rest))
          else Inl ''not absolute''
      | [c] \<Rightarrow> if slash_like c then Inr (fst site, ''/'') else Inl ''not absolute''
      | [] \<Rightarrow> Inl ''not absolute'')"

definition mini_urls :: "(string \<times> string) url_ops" where
  "mini_urls =
     \<lparr>u_parse = mini_parse, u_join = mini_join, u_same_origin = (\<lambda>a b. fst a = fst b),
      u_str = (\<lambda>u. ''https://'' @ fst u @ snd u), u_scheme = (\<lambda>_. ''https''), u_host = (\<lambda>u. Some (fst u)),
      u_port = (\<lambda>_. None), u_path = snd, u_query = (\<lambda>_. None), u_fragment = (\<lambda>_. None),
      u_set_scheme = (\<lambda>u _. Some u), u_set_host = (\<lambda>u _. Some u), u_set_port = (\<lambda>u _. Some u)\<rparr>"

lemma unbroken_idem [simp]: "unbroken (unbroken s) = unbroken s"
  by (simp add: unbroken_def)

lemma unbroken_dropWhile [simp]:
  "unbroken s = s \<Longrightarrow> unbroken (dropWhile p s) = dropWhile p s"
  by (auto simp: unbroken_def filter_id_conv dest!: set_dropWhileD)

lemma folded_clean [simp]:
  "unbroken s = s \<Longrightarrow> unbroken (folded s) = folded s" "CHR 0x5C \<notin> set (folded s)"
  by (auto simp: folded_def unbroken_def filter_id_conv slash_like_def)

lemma unbroken_slash [simp]: "unbroken ''/'' = ''/''"
  by (simp add: unbroken_def)

lemma unbroken_Cons: "unbroken s = c # t \<Longrightarrow> unbroken (c # t) = c # t \<and> unbroken t = t"
  by (metis unbroken_def unbroken_idem filter.simps(2) list.inject impossible_Cons length_filter_le)

lemma mini_parse_clean:
  assumes "mini_parse s = Inr u"
  shows "unbroken (snd u) = snd u \<and> CHR 0x5C \<notin> set (snd u)"
  using assms by (auto simp: mini_parse_def Let_def split: option.splits if_splits)

lemma mini_join_clean:
  assumes "mini_join site s = Inr u"
  shows "unbroken (snd u) = snd u \<and> CHR 0x5C \<notin> set (snd u)"
proof (cases "unbroken s" rule: remdups_adj.cases)
  case (3 c d rest)
  have "unbroken (folded (d # rest)) = folded (d # rest)" using unbroken_Cons [OF 3] by simp
  then have "unbroken (CHR ''/'' # folded (d # rest)) = CHR ''/'' # folded (d # rest)"
    by (simp add: unbroken_def)
  with assms 3 mini_parse_clean show ?thesis
    using folded_clean(2) [of "d # rest"] by (auto simp: mini_join_def split: if_splits)
qed (use assms in \<open>auto simp: mini_join_def split: if_splits\<close>)

lemma mini_standard: "url_standard mini_urls (''next.invalid'', ''/'')"
proof -
  have "mini_parse ''https://next.invalid/'' = Inr (''next.invalid'', ''/'')" by code_simp
  moreover have "\<exists>u. mini_join site t = Inr u \<and> fst u = fst site" if "local_reference t" for site t
  proof -
    from that obtain rest where "unbroken t = t" "t = CHR ''/'' # rest"
      "case rest of c # _ \<Rightarrow> \<not> slash_like c | [] \<Rightarrow> True" unfolding local_reference_def by blast
    then show ?thesis by (cases rest) (simp_all add: mini_join_def slash_like_def)
  qed
  moreover have "mini_join site raw = mini_parse (''https://'' @ rest)"
    if "unbroken raw = c # d # rest" "slash_like c" "slash_like d" for site raw c d rest
    using that by (simp add: mini_join_def)
  ultimately show ?thesis
    using mini_join_clean by (simp add: url_standard_def mini_urls_def url_target_def)
qed

theorem safe_next_no_open_redirect_witness:
  "safe_next mini_urls (Some (''/'' @ [CHR 0x5C] @ ''evil.example'')) = ''/''
   \<and> safe_next mini_urls (Some (''/'' @ [CHR 0x09] @ ''/evil.example'')) = ''/''
   \<and> safe_next mini_urls (Some ''/me'') = ''/me''"
proof -
  have other: "\<forall>u. mini_join (''next.invalid'', ''/'') s = Inr u \<longrightarrow> fst u \<noteq> ''next.invalid''"
    if "s \<in> {''/'' @ [CHR 0x5C] @ ''evil.example'', ''/'' @ [CHR 0x09] @ ''/evil.example''}" for s
  proof -
    have "mini_join (''next.invalid'', ''/'') (''/'' @ [CHR 0x5C] @ ''evil.example'') = Inr (''evil.example'', ''/'')"
      "mini_join (''next.invalid'', ''/'') (''/'' @ [CHR 0x09] @ ''/evil.example'') = Inr (''evil.example'', ''/'')"
      by code_simp+
    with that show ?thesis by auto
  qed
  have "mini_join (''next.invalid'', ''/'') ''/me'' = Inr (''next.invalid'', ''/me'')" by code_simp
  then have "safe_next mini_urls (Some ''/me'') = ''/me''"
    using safe_next_no_open_redirect [OF mini_standard, of "Some ''/me''"]
    by (simp add: mini_urls_def url_target_def site_path_def starts_with_def)
  moreover have "safe_next mini_urls (Some s) = ''/''"
    if "s \<in> {''/'' @ [CHR 0x5C] @ ''evil.example'', ''/'' @ [CHR 0x09] @ ''/evil.example''}" for s
    using safe_next_no_open_redirect [OF mini_standard, of "Some s"] other [OF that]
    by (simp add: mini_urls_def)
  ultimately show ?thesis by blast
qed

text \<open>C3: A callback creates a session only for the flow it answers: the request carries the flow
  cookie of a stored, unexpired flow, no error, a state equal to the flow's (the CSRF check) and a
  code the IdP exchanged for tokens with that flow's PKCE verifier; and the flow is used up, so the
  same callback cannot create a second one.\<close>

theorem callback_creates_session_only_for_its_flow:
  assumes "callback (memory_state out urls client) j params w = (r, w')"
    and "wd_sessions w' \<noteq> wd_sessions w"
  shows "\<exists>fid flw code tokens x'. jr_request j FLOW_COOKIE = Some fid
    \<and> flows_get (memory_state out urls client) fid w = Some flw
    \<and> params ''error'' = None \<and> params ''code'' = Some code \<and> params ''state'' = Some (fl_state flw)
    \<and> xt_exchange out code (fl_verifier flw) (wd_x w) = (Inr tokens, x')
    \<and> flows_get (memory_state out urls client) fid w' = None"
  by (rule memory.callback_new_session [OF assms]) (auto simp del: not_None_eq)

text \<open>A toy outside for the witnesses: a counter that is the clock and the source of ids.\<close>

definition toy_outside :: "nat outside" where
  "toy_outside =
     \<lparr>xt_userinfo = (\<lambda>tok x. (if tok = ''good'' then Inr \<lparr>pr_username = ''alice'', pr_groups = []\<rparr>
        else Inl (Rejected ''expired''), Suc x)),
      xt_refresh = (\<lambda>rt x. (Inl (Rejected ''revoked''), Suc x)),
      xt_exchange = (\<lambda>code v x. (if code = ''c'' \<and> v = ''v''
        then Inr \<lparr>tb_access_token = ''good'', tb_refresh_token = None\<rparr>
        else Inl (Exchange ''refused''), Suc x)),
      xt_authorize = (\<lambda>p x. (\<lparr>ar_url = ''https://idp/'', ar_csrf_state = ''s'', ar_pkce_verifier = ''v''\<rparr>, x)),
      xt_now = (\<lambda>x. x), xt_uuid = (\<lambda>x. (show_nat x, Suc x)), xt_parse_cookie = (\<lambda>_. None),
      xt_cookies = (\<lambda>h name. header_str h ''cookie'')\<rparr>"

definition toy_urls :: "string url_ops" where
  "toy_urls =
     \<lparr>u_parse = Inr, u_join = (\<lambda>b s. Inr s), u_same_origin = (\<lambda>a b. True), u_str = (\<lambda>u. u),
      u_scheme = (\<lambda>_. ''https''), u_host = (\<lambda>_. Some ''app.example''), u_port = (\<lambda>_. None),
      u_path = (\<lambda>u. u), u_query = (\<lambda>_. None), u_fragment = (\<lambda>_. None),
      u_set_scheme = (\<lambda>u _. Some u), u_set_host = (\<lambda>u _. Some u), u_set_port = (\<lambda>u _. Some u)\<rparr>"

definition toy_client :: "string oidc_client" where
  "toy_client =
     \<lparr>cl_auth_url = ''a'', cl_token_url = ''t'', cl_userinfo_url = ''u'',
      cl_config = oidc_config_new ''i'' ''app'' ''https://app.example/cb'' ''sess'',
      cl_end_session_url = None\<rparr>"

definition toy_flow :: flow_state where
  "toy_flow = \<lparr>fl_state = ''s'', fl_verifier = ''v'', fl_next = ''/me'', fl_interactive_tried = False,
     fl_created = 3\<rparr>"

definition toy_world :: "(nat, session expiring, flow_state expiring) world" where
  "toy_world = \<lparr>wd_x = 5, wd_sessions = memory_store 100,
     wd_flows = expiring_put fl_created 3 ''f'' toy_flow (memory_flow_store 10)\<rparr>"

definition toy_jar :: "string \<Rightarrow> string \<Rightarrow> jar" where
  "toy_jar name val = \<lparr>jr_request = [name \<mapsto> val], jr_ops = []\<rparr>"

definition toy_params :: "string \<Rightarrow> string option" where
  "toy_params = [''code'' \<mapsto> ''c'', ''state'' \<mapsto> ''s'']"

lemma toy_callback:
  "wd_sessions (snd (callback (memory_state toy_outside toy_urls toy_client) (toy_jar FLOW_COOKIE ''f'')
     toy_params toy_world)) \<noteq> wd_sessions toy_world"
proof -
  let ?oidc = "memory_state toy_outside toy_urls toy_client"
  have flow: "flows_get ?oidc ''f'' toy_world = Some toy_flow"
    by (simp add: flows_get_def flow_ops_def memory_ops_def expiring_get_def expiring_put_def toy_world_def
        now_of_def toy_outside_def expiring_live_def duration_since_def toy_flow_def
        memory_flow_store_def expiring_new_def)
  have "callback ?oidc (toy_jar FLOW_COOKIE ''f'') toy_params toy_world =
      callback_exchange ?oidc (toy_jar FLOW_COOKIE ''f'') ''f'' toy_flow ''c'' toy_world"
    by (simp add: callback_def toy_jar_def flow toy_params_def toy_flow_def)
  then show ?thesis
    by (simp add: callback_exchange_def toy_outside_def call_out_def new_id_def toy_flow_def
        sessions_put_def session_ops_def memory_ops_def expiring_put_def flows_remove_def
        toy_world_def memory_store_def expiring_new_def fun_eq_iff)
qed

theorem callback_creates_session_only_for_its_flow_witness:
  "\<exists>fid flw. flows_get (memory_state toy_outside toy_urls toy_client) fid toy_world = Some flw
     \<and> fl_state flw = ''s''"
proof -
  obtain r w' where c: "callback (memory_state toy_outside toy_urls toy_client) (toy_jar FLOW_COOKIE ''f'')
      toy_params toy_world = (r, w')" by fastforce
  with toy_callback have "wd_sessions w' \<noteq> wd_sessions toy_world" by simp
  from callback_creates_session_only_for_its_flow [OF c this] obtain fid flw where
    "flows_get (memory_state toy_outside toy_urls toy_client) fid toy_world = Some flw"
    "toy_params ''state'' = Some (fl_state flw)" by blast
  then show ?thesis by (intro exI conjI) (auto simp: toy_params_def)
qed

text \<open>C2: Resolving a session fails closed. A caller is identified only when the request's cookie
  names a stored session and the IdP, asked during this very request, vouched for the access token
  of the session returned; a refresh keeps the creation time, so it never extends a session's life.
  In every other case the session behind the cookie is gone from the store afterwards.\<close>

theorem resolve_session_fails_closed:
  assumes "resolve_session (memory_state out urls client) j w = (res, w')"
  shows "case res of
      Some (p, se) \<Rightarrow> \<exists>sid se0 x x'.
        jr_request j (session_cookie (memory_state out urls client)) = Some sid
        \<and> sessions_get (memory_state out urls client) sid w = Some se0
        \<and> se_created se = se_created se0
        \<and> xt_userinfo out (se_access_token se) x = (Inr p, x')
    | None \<Rightarrow> (case jr_request j (session_cookie (memory_state out urls client)) of
        Some sid \<Rightarrow> sessions_get (memory_state out urls client) sid w' = None
      | None \<Rightarrow> w' = w)"
proof (cases res)
  case None
  then show ?thesis
    using assms memory.resolve_none [of out urls client j w w']
    by (auto simp: resolve_session_def split: option.splits)
next
  case (Some r)
  obtain p se where "r = (p, se)" by (cases r)
  with Some assms memory.resolve_some [of out urls client j w p se w'] show ?thesis by simp
qed

theorem resolve_session_fails_closed_witness:
  "\<exists>w'. resolve_session (memory_state toy_outside toy_urls toy_client) (toy_jar ''sess'' ''a'') toy_world
      = (None, w') \<and> sessions_get (memory_state toy_outside toy_urls toy_client) ''a'' w' = None"
proof -
  let ?oidc = "memory_state toy_outside toy_urls toy_client"
  have cookie: "session_cookie ?oidc = ''sess''"
    by (simp add: session_cookie_def state_config_def toy_client_def oidc_config_new_def)
  have none: "sessions_get ?oidc ''a'' toy_world = None"
    by (simp add: sessions_get_def session_ops_def memory_ops_def expiring_get_def toy_world_def
        memory_store_def expiring_new_def)
  have r: "resolve_session ?oidc (toy_jar ''sess'' ''a'') toy_world = (None, toy_world)"
    by (simp add: resolve_session_def cookie toy_jar_def none)
  from resolve_session_fails_closed [OF r] cookie r show ?thesis by (simp add: toy_jar_def)
qed

lemma from_this_site_iff:
  "from_this_site urls headers config \<longleftrightarrow>
     header_str headers ''sec-fetch-site'' = Some ''same-origin''
     \<or> header_str headers ''sec-fetch-site'' = None
       \<and> header_str headers ''origin'' = Some (app_origin urls config)"
  by (auto simp: from_this_site_def split: option.splits)

text \<open>C9: Logout. A request that does not prove it came from this site (\<open>Sec-Fetch-Site: same-origin\<close>,
  or, without that header, the app's own \<open>Origin\<close>) is refused with 403 and changes nothing; any other ends with a 303 and the session its cookie names is no longer served,
  while every other session is as it was.\<close>

theorem logout_ends_the_session:
  "case logout (memory_state out urls client) j headers w of
     (r, w') \<Rightarrow>
       if header_str headers ''sec-fetch-site'' = Some ''same-origin''
         \<or> header_str headers ''sec-fetch-site'' = None
           \<and> header_str headers ''origin'' = Some (app_origin urls (cl_config client))
       then rs_status r = 303
         \<and> (case jr_request j (oc_cookie_name (cl_config client)) of
              None \<Rightarrow> w' = w
            | Some sid \<Rightarrow> sessions_get (memory_state out urls client) sid w' = None
                \<and> (\<forall>other. other \<noteq> sid \<longrightarrow>
                     sessions_get (memory_state out urls client) other w' =
                     sessions_get (memory_state out urls client) other w))
       else rs_status r = 403 \<and> w' = w"
  using memory.removed_session [of out urls client]
  by (auto simp: logout_def from_this_site_iff Let_def state_config_def session_cookie_def
      redirect_response_def status_response_def sessions_get_def sessions_remove_def now_of_def
      sessions.get_remove_other split: option.splits)

theorem logout_ends_the_session_witness:
  "rs_status (fst (logout (memory_state toy_outside toy_urls toy_client) (toy_jar ''sess'' ''a'')
     [''sec-fetch-site'' \<mapsto> Some ''cross-site''] toy_world)) = 403"
proof -
  have "header_str [''sec-fetch-site'' \<mapsto> Some ''cross-site''] ''sec-fetch-site'' = Some ''cross-site''"
    by (simp add: header_str_def)
  then show ?thesis
    using logout_ends_the_session [where out = toy_outside and urls = toy_urls and client = toy_client
        and j = "toy_jar ''sess'' ''a''" and headers = "[''sec-fetch-site'' \<mapsto> Some ''cross-site'']"
        and w = toy_world]
    by (simp split: prod.splits)
qed

text \<open>What a login leaves: its flow under a fresh id, the flow cookie, the other flows.\<close>

lemma start_login_stored:
  assumes "start_login (memory_state out urls client) j nxt silent tried w = (r, w')"
  shows "\<exists>fid flw w1 w2. new_id (memory_state out urls client) w1 = (fid, w2)
    \<and> rs_cookies r = jr_ops j @ [JarAdd (base_cookie FLOW_COOKIE fid (cl_config client))]
    \<and> ex_entries (wd_flows w') fid = Some flw \<and> fl_interactive_tried flw = tried
    \<and> (\<forall>i. i \<noteq> fid \<longrightarrow> ex_entries (wd_flows w') i \<in> {None, ex_entries (wd_flows w) i})"
proof -
  let ?oidc = "memory_state out urls client"
  obtain auth w1 where a: "call_out (xt_authorize (os_outside ?oidc)
      (authorize_params (state_config ?oidc) silent)) w = (auth, w1)" by fastforce
  obtain fid w2 where i: "new_id ?oidc w1 = (fid, w2)" by fastforce
  from a i have "wd_flows w2 = wd_flows w" by (auto simp: new_id_def dest!: call_out_world split: prod.splits)
  with assms a i show ?thesis
    by (intro exI [of _ fid] exI [of _ w1] exI [of _ w2])
      (auto simp: start_login_def flows_put_def flow_ops_def memory_ops_def expiring_put_def
        redirect_response_def jar_add_def state_config_def split: option.splits)
qed

lemma interactive_error_refused:
  assumes "jr_request j FLOW_COOKIE = Some fid" "flows_get oidc fid w = Some flw"
    and "fl_interactive_tried flw" "params ''error'' = Some e"
  shows "rs_status (fst (callback oidc j params w)) = 401"
  using assms by (simp add: callback_def callback_error_def Let_def status_response_def)

text \<open>C12: A silent login escalates to an interactive one at most once. When the IdP answers a
  callback with an error, no session is created and the flow is used up. A new login is started only
  if the error asks for interaction and the flow was not already interactive: it redirects to the
  IdP's interactive page, its flow is recorded as interactive under a freshly drawn id which becomes
  the browser's flow cookie, and of the flows stored before only others than the one used remain; an
  error callback on the new flow, whatever the error and however much later, is answered with 401. In
  every other case this callback itself is, and the flow is no longer served.\<close>

theorem error_callback_escalates_once:
  assumes "jr_request j FLOW_COOKIE = Some fid"
    and "flows_get (memory_state out urls client) fid w = Some flw" "params ''error'' = Some e"
    and "callback (memory_state out urls client) j params w = (r, w')"
  shows "wd_sessions w' = wd_sessions w \<and>
    (if needs_interaction e \<and> \<not> fl_interactive_tried flw
     then \<exists>fid' flw' x' w1 w2. rs_status r = 307
       \<and> rs_location r = Some (ar_url (fst (xt_authorize out
            (authorize_params (cl_config client) False) x')))
       \<and> new_id (memory_state out urls client) w1 = (fid', w2)
       \<and> rs_cookies r = jr_ops j @ [JarRemove (removal_cookie FLOW_COOKIE),
            JarAdd (base_cookie FLOW_COOKIE fid' (cl_config client))]
       \<and> ex_entries (wd_flows w') fid' = Some flw' \<and> fl_interactive_tried flw'
       \<and> (\<forall>i. i \<noteq> fid' \<longrightarrow> ex_entries (wd_flows w') i \<noteq> None \<longrightarrow>
            i \<noteq> fid \<and> ex_entries (wd_flows w') i = ex_entries (wd_flows w) i)
       \<and> (\<forall>j' params' w'' e'. jr_request j' FLOW_COOKIE = Some fid' \<longrightarrow>
            flows_get (memory_state out urls client) fid' w'' = Some flw' \<longrightarrow>
            params' ''error'' = Some e' \<longrightarrow>
            rs_status (fst (callback (memory_state out urls client) j' params' w'')) = 401)
     else rs_status r = 401 \<and> flows_get (memory_state out urls client) fid w' = None)"
proof -
  let ?oidc = "memory_state out urls client"
  from assms have c: "callback_error ?oidc j fid flw e w = (r, w')"
    by (simp add: callback_def)
  note same = memory.callback_error_sessions [OF c]
  show ?thesis
  proof (cases "needs_interaction e \<and> \<not> fl_interactive_tried flw")
    case False
    with c have "rs_status r = 401" "w' = flows_remove ?oidc fid w"
      by (auto simp: callback_error_def Let_def status_response_def)
    with False same memory.removed_flow [of out urls client fid w] show ?thesis by auto
  next
    case True
    with c have s: "start_login ?oidc (jar_remove (removal_cookie FLOW_COOKIE) j)
        (safe_next urls (Some (fl_next flw))) False True (flows_remove ?oidc fid w) = (r, w')"
      by (simp add: callback_error_def Let_def)
    from start_login_stored [OF s] obtain fid' flw' w1 w2 where n: "new_id ?oidc w1 = (fid', w2)"
        "rs_cookies r = jr_ops j @ [JarRemove (removal_cookie FLOW_COOKIE),
            JarAdd (base_cookie FLOW_COOKIE fid' (cl_config client))]"
        "ex_entries (wd_flows w') fid' = Some flw'" "fl_interactive_tried flw'"
      and o: "\<forall>i. i \<noteq> fid' \<longrightarrow>
            ex_entries (wd_flows w') i \<in> {None, ex_entries (wd_flows (flows_remove ?oidc fid w)) i}"
      by (auto simp: jar_remove_def)
    have removed: "ex_entries (wd_flows (flows_remove ?oidc fid w)) = (ex_entries (wd_flows w))(fid := None)"
      by (simp add: flows_remove_def flow_ops_def memory_ops_def expiring_remove_def)
    from o have others: "\<forall>i. i \<noteq> fid' \<longrightarrow> ex_entries (wd_flows w') i \<noteq> None \<longrightarrow>
        i \<noteq> fid \<and> ex_entries (wd_flows w') i = ex_entries (wd_flows w) i"
      unfolding removed by (metis fun_upd_apply insertE singletonD)
    have once: "\<forall>j' params' w'' e'. jr_request j' FLOW_COOKIE = Some fid' \<longrightarrow>
        flows_get ?oidc fid' w'' = Some flw' \<longrightarrow> params' ''error'' = Some e' \<longrightarrow>
        rs_status (fst (callback ?oidc j' params' w'')) = 401"
      using interactive_error_refused n(4) by blast
    from start_login_response [OF s] obtain x' where
      "rs_status r = 307" "rs_location r = Some (ar_url (fst (xt_authorize out
          (authorize_params (cl_config client) False) x')))"
      by (auto simp: state_config_def)
    with True same n others once show ?thesis by (simp only: if_True simp_thms) blast
  qed
qed

lemma toy_flow_stored:
  "flows_get (memory_state toy_outside toy_urls toy_client) ''f'' toy_world = Some toy_flow"
  by (simp add: flows_get_def flow_ops_def memory_ops_def expiring_get_def expiring_put_def toy_world_def
      now_of_def toy_outside_def expiring_live_def duration_since_def toy_flow_def
      memory_flow_store_def expiring_new_def)

theorem error_callback_escalates_once_witness:
  "rs_status (fst (callback (memory_state toy_outside toy_urls toy_client) (toy_jar FLOW_COOKIE ''f'')
     [''error'' \<mapsto> ''login_required''] toy_world)) = 307"
proof -
  let ?oidc = "memory_state toy_outside toy_urls toy_client"
  obtain r w' where c: "callback ?oidc (toy_jar FLOW_COOKIE ''f'') [''error'' \<mapsto> ''login_required''] toy_world
      = (r, w')" by fastforce
  have cookie: "jr_request (toy_jar FLOW_COOKIE ''f'') FLOW_COOKIE = Some ''f''"
    by (simp add: toy_jar_def)
  have err: "[''error'' \<mapsto> ''login_required''] ''error'' = Some ''login_required''" by simp
  from error_callback_escalates_once [OF cookie toy_flow_stored err c] c
  show ?thesis by (simp add: needs_interaction_def toy_flow_def)
qed

text \<open>
  A failed exchange removes the cookie only: the flow stays in the store until it expires, so a
  request that still has the cookie runs the exchange again with the same verifier.
\<close>

lemma failed_exchange_keeps_flow:
  assumes "xt_exchange (os_outside oidc) code (fl_verifier flw) (wd_x w) = (Inl e, x')"
  shows "callback_exchange oidc j fid flw code w =
    (status_response 401 (jr_ops (jar_remove (removal_cookie FLOW_COOKIE) j))
       (''authentication failed: '' @ oidc_error_display e), w\<lparr>wd_x := x'\<rparr>)"
  using assms by (simp add: callback_exchange_def call_out_def)

end
