(* ===== verification/Oidc_Auth.thy ===== *)
theory Oidc_Auth
  imports Oidc_Web_Proofs
begin

text \<open>
  \<open>auth.rs\<close> of \<open>crates/oidc\<close>: the middleware that resolves the identity behind a request once,
  and the extractors that turn it into a handler's argument or a refusal. The request's extensions
  are an optional context and optional providers; a handler's gate is \<open>check\<close>, a \<open>Predicate\<close>
  of \<open>Oidc_Gates\<close> on the service's state.
\<close>

section \<open>Providers and contexts\<close>

datatype auth_via = ViaSession | ViaBearer | ViaStub

datatype auth_context = Disabled | AuthenticatedAs principal auth_via | Anonymous string

record refusals =
  rf_unauthorized :: "(parts \<Rightarrow> response) option"
  rf_denied :: "(parts \<Rightarrow> denial \<Rightarrow> response) option"

record ('x, 's, 'f, 'u) auth_providers =
  ap_oidc :: "('x, 's, 'f, 'u) oidc_state option"
  ap_bearer :: "'x bearer_validator option"
  ap_dev_stub :: "principal option"
  ap_refusals :: refusals

definition auth_providers_new ::
    "('x, 's, 'f, 'u) oidc_state option \<Rightarrow> 'x bearer_validator option \<Rightarrow> principal option
     \<Rightarrow> ('x, 's, 'f, 'u) auth_providers" where
  "auth_providers_new oidc bearer stub =
     \<lparr>ap_oidc = oidc, ap_bearer = bearer, ap_dev_stub = stub,
      ap_refusals = \<lparr>rf_unauthorized = None, rf_denied = None\<rparr>\<rparr>"

definition on_unauthorized ::
    "(parts \<Rightarrow> response) \<Rightarrow> ('x, 's, 'f, 'u) auth_providers \<Rightarrow> ('x, 's, 'f, 'u) auth_providers" where
  "on_unauthorized f ps = ps\<lparr>ap_refusals := (ap_refusals ps)\<lparr>rf_unauthorized := Some f\<rparr>\<rparr>"

definition on_denied ::
    "(parts \<Rightarrow> denial \<Rightarrow> response) \<Rightarrow> ('x, 's, 'f, 'u) auth_providers \<Rightarrow> ('x, 's, 'f, 'u) auth_providers" where
  "on_denied f ps = ps\<lparr>ap_refusals := (ap_refusals ps)\<lparr>rf_denied := Some f\<rparr>\<rparr>"

definition stub_actor :: "('x, 's, 'f, 'u) auth_providers \<Rightarrow> string" where
  "stub_actor ps = unwrap_or ''-'' (map_option pr_username (ap_dev_stub ps))"

section \<open>Resolving the context\<close>

definition bearer_token :: "(string \<Rightarrow> string option option) \<Rightarrow> string option" where
  "bearer_token headers =
     Option.bind (header_str headers ''authorization'') (\<lambda>raw.
       Option.bind (case strip_prefix ''Bearer '' raw of
                      Some t \<Rightarrow> Some t | None \<Rightarrow> strip_prefix ''bearer '' raw) (\<lambda>token.
         if trim token \<noteq> [] then Some (trim token) else None))"

definition bearer_context ::
    "'x bearer_validator option \<Rightarrow> string \<Rightarrow> ('x, 's, 'f) world \<Rightarrow> auth_context \<times> ('x, 's, 'f) world" where
  "bearer_context bearer token w =
     (case bearer of
        Some validator \<Rightarrow>
          (case call_out (bearer_validate validator token) w of
             (Inr who, w) \<Rightarrow> (AuthenticatedAs who ViaBearer, w)
           | (Inl e, w) \<Rightarrow> (Anonymous (''bearer rejected: '' @ validation_error_display e), w))
      | None \<Rightarrow> (Anonymous ''bearer presented but no validator is configured'', w))"

definition no_session_context :: "('x, 's, 'f, 'u) auth_providers \<Rightarrow> auth_context" where
  "no_session_context ps =
     (if ap_dev_stub ps \<noteq> None then Disabled
      else Anonymous (if ap_oidc ps \<noteq> None then ''no valid session''
                      else ''no credential matched an authenticator''))"

definition resolve_context ::
    "('x, 's, 'f, 'u) auth_providers \<Rightarrow> parts \<Rightarrow> ('x, 's, 'f) world
     \<Rightarrow> auth_context \<times> ('x, 's, 'f) world" where
  "resolve_context ps p w =
     (case bearer_token (pt_headers p) of
        Some token \<Rightarrow> bearer_context (ap_bearer ps) token w
      | None \<Rightarrow>
          (case ap_oidc ps of
             None \<Rightarrow> (no_session_context ps, w)
           | Some oidc \<Rightarrow>
               (case resolve_session oidc (jar_from_headers oidc p) w of
                  (Some (who, _), w) \<Rightarrow> (AuthenticatedAs who ViaSession, w)
                | (None, w) \<Rightarrow> (no_session_context ps, w))))"

text \<open>A request as the extractors see it: what the middleware put in its extensions.\<close>

record ('x, 's, 'f, 'u) request =
  rq_parts :: parts
  rq_context :: "auth_context option"
  rq_providers :: "('x, 's, 'f, 'u) auth_providers option"

text \<open>The middleware up to \<open>next.run\<close>: the request passed on, the actor logged, the world.\<close>

definition set_auth_context ::
    "('x, 's, 'f, 'u) auth_providers \<Rightarrow> parts \<Rightarrow> ('x, 's, 'f) world
     \<Rightarrow> ('x, 's, 'f, 'u) request \<times> string \<times> ('x, 's, 'f) world" where
  "set_auth_context ps p w =
     (if ap_oidc ps = None \<and> ap_bearer ps = None
      then (\<lparr>rq_parts = p, rq_context = Some Disabled, rq_providers = Some ps\<rparr>, stub_actor ps, w)
      else (case resolve_context ps p w of
              (context, w) \<Rightarrow>
                (\<lparr>rq_parts = p, rq_context = Some context, rq_providers = Some ps\<rparr>,
                 (case context of
                    Disabled \<Rightarrow> stub_actor ps
                  | AuthenticatedAs who _ \<Rightarrow> pr_username who
                  | Anonymous _ \<Rightarrow> ''-''),
                 w)))"

section \<open>Refusals\<close>

definition json_response :: "nat \<Rightarrow> (string \<times> string) list \<Rightarrow> response" where
  "json_response code kvs =
     \<lparr>rs_status = code, rs_location = None, rs_reauth = None, rs_cookies = [], rs_body = Json kvs\<rparr>"

definition internal_response :: response where
  "internal_response = json_response 500 [(''error'', ''internal'')]"

definition disabled_principal :: "('x, 's, 'f, 'u) request \<Rightarrow> principal" where
  "disabled_principal rq =
     unwrap_or \<lparr>pr_username = ''-'', pr_groups = []\<rparr> (Option.bind (rq_providers rq) ap_dev_stub)"

definition unauthorized_wire :: "('x, 's, 'f, 'u) request \<Rightarrow> response" where
  "unauthorized_wire rq =
     (case Option.bind (rq_providers rq) (\<lambda>ps. rf_unauthorized (ap_refusals ps)) of
        Some f \<Rightarrow> f (rq_parts rq)
      | None \<Rightarrow> json_response 401 [(''error'', ''unauthenticated'')])"

definition denied_response :: "('x, 's, 'f, 'u) request \<Rightarrow> denial \<Rightarrow> response" where
  "denied_response rq d =
     (case Option.bind (rq_providers rq) (\<lambda>ps. rf_denied (ap_refusals ps)) of
        Some f \<Rightarrow> f (rq_parts rq) d
      | None \<Rightarrow> json_response 403 [(''error'', ''denied''), (''gate'', dn_gate d)])"

definition anonymous_response ::
    "('x, 's, 'f, 'u) request \<Rightarrow> ('x, 's, 'f) world \<Rightarrow> response \<times> ('x, 's, 'f) world" where
  "anonymous_response rq w =
     (if wants_html (rq_parts rq)
      then (case Option.bind (rq_providers rq) ap_oidc of
              Some oidc \<Rightarrow> login_redirect oidc (rq_parts rq) w
            | None \<Rightarrow> (unauthorized_wire rq, w))
      else (unauthorized_wire rq, w))"

section \<open>Extractors\<close>

definition extract_authenticated ::
    "('x, 's, 'f, 'u) request \<Rightarrow> ('x, 's, 'f) world \<Rightarrow> (response + principal) \<times> ('x, 's, 'f) world" where
  "extract_authenticated rq w =
     (case rq_context rq of
        None \<Rightarrow> (Inl internal_response, w)
      | Some Disabled \<Rightarrow> (Inr (disabled_principal rq), w)
      | Some (AuthenticatedAs who _) \<Rightarrow> (Inr who, w)
      | Some (Anonymous _) \<Rightarrow> (case anonymous_response rq w of (r, w) \<Rightarrow> (Inl r, w)))"

definition extract_service_account :: "('x, 's, 'f, 'u) request \<Rightarrow> response + principal" where
  "extract_service_account rq =
     (case rq_context rq of
        None \<Rightarrow> Inl internal_response
      | Some (AuthenticatedAs who ViaBearer) \<Rightarrow> Inr who
      | Some _ \<Rightarrow> Inl (unauthorized_wire rq))"

definition extract_maybe_authenticated :: "('x, 's, 'f, 'u) request \<Rightarrow> principal option" where
  "extract_maybe_authenticated rq =
     (case rq_context rq of
        Some Disabled \<Rightarrow> Some (disabled_principal rq)
      | Some (AuthenticatedAs who _) \<Rightarrow> Some who
      | _ \<Rightarrow> None)"

definition extract_gated_by ::
    "(principal \<Rightarrow> 'st \<Rightarrow> denial + unit) \<Rightarrow> 'st \<Rightarrow> ('x, 's, 'f, 'u) request \<Rightarrow> ('x, 's, 'f) world
     \<Rightarrow> (response + principal) \<times> ('x, 's, 'f) world" where
  "extract_gated_by check st rq w =
     (case rq_context rq of
        None \<Rightarrow> (Inl internal_response, w)
      | Some Disabled \<Rightarrow> (Inr (disabled_principal rq), w)
      | Some (AuthenticatedAs who _) \<Rightarrow>
          (case check who st of
             Inr _ \<Rightarrow> (Inr who, w)
           | Inl denial \<Rightarrow> (Inl (denied_response rq denial), w))
      | Some (Anonymous _) \<Rightarrow> (case anonymous_response rq w of (r, w) \<Rightarrow> (Inl r, w)))"

text \<open>A gated request from the middleware to the handler's argument.\<close>

definition gated_request ::
    "('x, 's, 'f, 'u) auth_providers \<Rightarrow> (principal \<Rightarrow> 'st \<Rightarrow> denial + unit) \<Rightarrow> 'st \<Rightarrow> parts
     \<Rightarrow> ('x, 's, 'f) world \<Rightarrow> (response + principal) \<times> ('x, 's, 'f) world" where
  "gated_request ps check st p w =
     (case set_auth_context ps p w of (rq, actor, w) \<Rightarrow> extract_gated_by check st rq w)"

section \<open>Who gets through\<close>

lemma bearer_context_cases:
  assumes "bearer_context bearer token w = (ctx, w')"
  shows "(\<exists>reason. ctx = Anonymous reason) \<or>
    (\<exists>validator who x'. bearer = Some validator \<and> ctx = AuthenticatedAs who ViaBearer
       \<and> bearer_validate validator token (wd_x w) = (Inr who, x'))"
  using assms
  by (auto simp: bearer_context_def dest!: call_out_world split: option.splits prod.splits sum.splits)

lemma bearer_context_sessions:
  "bearer_context bearer token w = (ctx, w') \<Longrightarrow> wd_sessions w' = wd_sessions w \<and> wd_flows w' = wd_flows w"
  by (auto simp: bearer_context_def dest!: call_out_world split: option.splits prod.splits sum.splits)

text \<open>Which context the middleware hands on, without a bearer token.\<close>

lemma resolve_context_session:
  assumes "bearer_token (pt_headers p) = None" "resolve_context ps p w = (ctx, w')"
  shows "(\<exists>oidc who se. ap_oidc ps = Some oidc \<and> ctx = AuthenticatedAs who ViaSession
        \<and> resolve_session oidc (jar_from_headers oidc p) w = (Some (who, se), w'))
    \<or> ctx = no_session_context ps
      \<and> (\<forall>oidc. ap_oidc ps = Some oidc \<longrightarrow> fst (resolve_session oidc (jar_from_headers oidc p) w) = None)"
  using assms by (auto simp: resolve_context_def split: option.splits prod.splits)

lemma resolve_context_bearer:
  assumes "bearer_token (pt_headers p) = Some token" "resolve_context ps p w = (ctx, w')"
  shows "(\<exists>reason. ctx = Anonymous reason) \<or>
    (\<exists>validator who x'. ap_bearer ps = Some validator \<and> ctx = AuthenticatedAs who ViaBearer
       \<and> bearer_validate validator token (wd_x w) = (Inr who, x'))"
  using assms bearer_context_cases by (simp add: resolve_context_def)

text \<open>A gated handler runs for the stub's caller, unchecked, or for one the check admits.\<close>

lemma gated_request_context:
  assumes "gated_request ps check st p w = (Inr who, w')" "\<not> (ap_oidc ps = None \<and> ap_bearer ps = None)"
  shows "\<exists>ctx. resolve_context ps p w = (ctx, w') \<and>
    (ctx = Disabled \<and> who = unwrap_or \<lparr>pr_username = ''-'', pr_groups = []\<rparr> (ap_dev_stub ps)
     \<or> (\<exists>via. ctx = AuthenticatedAs who via \<and> is_ok (check who st)))"
  using assms
  by (auto simp: gated_request_def set_auth_context_def extract_gated_by_def disabled_principal_def
      split: prod.splits auth_context.splits sum.splits)

lemma gated_request_off:
  assumes "gated_request ps check st p w = (Inr who, w')" "ap_oidc ps = None" "ap_bearer ps = None"
  shows "who = unwrap_or \<lparr>pr_username = ''-'', pr_groups = []\<rparr> (ap_dev_stub ps) \<and> w' = w"
  using assms by (simp add: gated_request_def set_auth_context_def extract_gated_by_def disabled_principal_def)

section \<open>Properties\<close>

text \<open>C4: For whom a gated handler runs, and who vouched for the caller. With neither a session nor a
  bearer authenticator the gates are off: the handler runs for the development stub's caller, or for
  \<open>-\<close>, unchecked. Otherwise, with a bearer token, only for a caller whom the bearer validator accepted
  in this request and whom the check admits; without one, for a caller whom the session cookie
  resolved to in this request and whom the check admits, or, where a development stub is configured
  and the cookie resolved to nobody, for the stub's caller, unchecked.\<close>

theorem gated_handler_admits_only_vouched_callers:
  assumes "gated_request ps check st p w = (Inr who, w')"
  shows "if ap_oidc ps = None \<and> ap_bearer ps = None
    then who = unwrap_or \<lparr>pr_username = ''-'', pr_groups = []\<rparr> (ap_dev_stub ps) \<and> w' = w
    else (case bearer_token (pt_headers p) of
       Some token \<Rightarrow> is_ok (check who st) \<and> (\<exists>validator x'. ap_bearer ps = Some validator
         \<and> bearer_validate validator token (wd_x w) = (Inr who, x'))
     | None \<Rightarrow>
         is_ok (check who st) \<and> (\<exists>oidc se. ap_oidc ps = Some oidc
           \<and> resolve_session oidc (jar_from_headers oidc p) w = (Some (who, se), w'))
         \<or> ap_dev_stub ps = Some who \<and> (\<forall>oidc. ap_oidc ps = Some oidc
           \<longrightarrow> fst (resolve_session oidc (jar_from_headers oidc p) w) = None))"
proof (cases "ap_oidc ps = None \<and> ap_bearer ps = None")
  case True
  with gated_request_off [OF assms] show ?thesis by simp
next
  case False
  from gated_request_context [OF assms False] obtain ctx where c: "resolve_context ps p w = (ctx, w')"
    and k: "ctx = Disabled \<and> who = unwrap_or \<lparr>pr_username = ''-'', pr_groups = []\<rparr> (ap_dev_stub ps)
      \<or> (\<exists>via. ctx = AuthenticatedAs who via \<and> is_ok (check who st))" by blast
  show ?thesis
  proof (cases "bearer_token (pt_headers p)")
    case None
    with resolve_context_session [OF None c] k False show ?thesis
      by (auto simp: no_session_context_def split: if_splits)
  next
    case (Some token)
    with resolve_context_bearer [OF Some c] k False show ?thesis by auto
  qed
qed

definition toy_validator :: "nat bearer_validator" where
  "toy_validator =
     \<lparr>bv_http = (\<lambda>url hdr x. (if hdr = ''Bearer tok''
        then Inr \<lparr>ha_status = 200, ha_status_text = ''200 OK'',
                  ha_body = Inr \<lparr>uc_subject = ''alice'', uc_username = None, uc_groups = [''g'']\<rparr>\<rparr>
        else Inl ''no route'', Suc x)),
      bv_userinfo_url = ''https://idp/userinfo''\<rparr>"

definition toy_parts :: parts where
  "toy_parts = \<lparr>pt_method = ''GET'', pt_headers = [''authorization'' \<mapsto> Some ''Bearer tok''],
     pt_path_query = Some ''/''\<rparr>"

definition toy_providers ::
    "(nat, session expiring, flow_state expiring, string) auth_providers" where
  "toy_providers = auth_providers_new None (Some toy_validator) None"

definition toy_check :: "principal \<Rightarrow> unit \<Rightarrow> denial + unit" where
  "toy_check who st = gate_check (\<lambda>_ _. Some ''g'') (\<lambda>_ _ _. Inl (denial_new '''')) (HasGroup () :: (unit, unit) gate) who st"

lemma toy_trim: "trim ''tok'' = ''tok''"
  by (rule trim_visible) (simp add: visible_def)

lemma toy_bearer: "bearer_token (pt_headers toy_parts) = Some ''tok''"
  by (simp add: toy_parts_def bearer_token_def header_str_def strip_prefix_def starts_with_def toy_trim)

theorem gated_handler_admits_only_vouched_callers_witness:
  "\<exists>who w'. gated_request toy_providers toy_check () toy_parts toy_world = (Inr who, w')
     \<and> is_ok (toy_check who ())"
proof -
  have "\<exists>who w'. gated_request toy_providers toy_check () toy_parts toy_world = (Inr who, w')"
    by (simp add: gated_request_def set_auth_context_def toy_providers_def auth_providers_new_def
        resolve_context_def toy_bearer bearer_context_def call_out_def bearer_validate_def toy_validator_def
        bearer_outcome_def from_userinfo_def extract_gated_by_def toy_check_def in_group_def)
  then obtain who w' where g: "gated_request toy_providers toy_check () toy_parts toy_world = (Inr who, w')"
    by blast
  with gated_handler_admits_only_vouched_callers [OF g] show ?thesis
    by (auto simp: toy_providers_def auth_providers_new_def toy_bearer)
qed

text \<open>C23: A bearer token is never replaced by a session. When a request carries one, the middleware
  settles the identity by the validator alone: the stores are untouched, the cookie is not looked
  at, and a rejected token, or no validator, makes the caller anonymous, even with a development
  stub configured.\<close>

theorem bearer_never_falls_back:
  assumes "bearer_token (pt_headers p) = Some token"
    and "resolve_context ps p w = (ctx, w')"
  shows "wd_sessions w' = wd_sessions w \<and> wd_flows w' = wd_flows w \<and>
    (case ctx of
       Disabled \<Rightarrow> False
     | Anonymous reason \<Rightarrow> True
     | AuthenticatedAs who via \<Rightarrow> via = ViaBearer \<and> (\<exists>validator x'. ap_bearer ps = Some validator
         \<and> bearer_validate validator token (wd_x w) = (Inr who, x')))"
proof -
  from assms have b: "bearer_context (ap_bearer ps) token w = (ctx, w')"
    by (simp add: resolve_context_def)
  from bearer_context_sessions [OF b] bearer_context_cases [OF b] show ?thesis by auto
qed

theorem bearer_never_falls_back_witness:
  "\<exists>ctx w'. resolve_context (auth_providers_new
      (Some (memory_state toy_outside toy_urls toy_client)) None (Some \<lparr>pr_username = ''dev'', pr_groups = []\<rparr>))
      toy_parts toy_world = (ctx, w') \<and> ctx \<noteq> Disabled"
proof -
  let ?ps = "auth_providers_new (Some (memory_state toy_outside toy_urls toy_client)) None
      (Some \<lparr>pr_username = ''dev'', pr_groups = []\<rparr>)"
  obtain ctx w' where c: "resolve_context ?ps toy_parts toy_world = (ctx, w')" by fastforce
  from bearer_never_falls_back [OF toy_bearer c] have "ctx \<noteq> Disabled" by auto
  with c show ?thesis by blast
qed

text \<open>A service account is a bearer caller. The extractor yields a principal only for a context
  authenticated by bearer token; a session, the disabled context and an anonymous caller get the
  401 answer, and a route reached without the middleware answers 500. The other extractors never
  turn an anonymous or missing context into a principal either.\<close>

theorem extractors_need_a_context:
  "(extract_service_account rq = Inr who) = (rq_context rq = Some (AuthenticatedAs who ViaBearer))
   \<and> (\<exists>r. rq_context rq = None \<longrightarrow> extract_service_account rq = Inl r \<and> rs_status r = 500
        \<and> extract_authenticated rq w = (Inl r, w) \<and> extract_gated_by check st rq w = (Inl r, w))
   \<and> (rq_context rq = Some (Anonymous reason) \<longrightarrow> \<not> is_ok (fst (extract_authenticated rq w))
        \<and> \<not> is_ok (fst (extract_gated_by check st rq w)) \<and> extract_maybe_authenticated rq = None)"
  by (auto simp: extract_service_account_def extract_authenticated_def extract_gated_by_def
      extract_maybe_authenticated_def internal_response_def json_response_def
      split: option.splits auth_context.splits auth_via.splits prod.splits)

theorem extractors_need_a_context_witness:
  "\<not> is_ok (fst (extract_authenticated
      (\<lparr>rq_parts = toy_parts, rq_context = Some (Anonymous ''x''), rq_providers = Some toy_providers\<rparr>) toy_world))"
  using extractors_need_a_context [of "\<lparr>rq_parts = toy_parts, rq_context = Some (Anonymous ''x''),
      rq_providers = Some toy_providers\<rparr>" _ toy_world toy_check "()" "''x''"] by simp

end
