(* ===== verification/Oidc_Journey.thy ===== *)
theory Oidc_Journey
  imports Oidc_Auth
begin

text \<open>
  The handlers of \<open>web.rs\<close> and the middleware of \<open>auth.rs\<close> put together: a browser that keeps the
  cookies it is sent goes from the login route through the IdP's callback to a gated handler, while
  other requests use the same stores.
\<close>

section \<open>The browser\<close>

text \<open>
  What \<open>Set-Cookie\<close> headers make of a browser's cookies: a removal, and a cookie that is added
  with a maximal age of zero, take the cookie away.
\<close>

fun browser :: "jar_op list \<Rightarrow> (string \<Rightarrow> string option) \<Rightarrow> string \<Rightarrow> string option" where
  "browser [] ck = ck"
| "browser (JarAdd c # ops) ck =
     browser ops (ck(ck_name c := (if ck_max_age c = Some 0 then None else Some (ck_value c))))"
| "browser (JarRemove c # ops) ck = browser ops (ck(ck_name c := None))"

definition browser_jar :: "(string \<Rightarrow> string option) \<Rightarrow> jar" where
  "browser_jar ck = \<lparr>jr_request = ck, jr_ops = []\<rparr>"

definition cookie_sent :: "(string \<Rightarrow> string option) \<Rightarrow> string \<Rightarrow> string" where
  "cookie_sent ck name = unwrap_or '''' (ck name)"

text \<open>Operations of other requests on a store up to a time: none on this id.\<close>

definition others :: "nat \<Rightarrow> string \<Rightarrow> (nat \<times> string \<times> 'v option) list \<Rightarrow> bool" where
  "others now i es \<longleftrightarrow> list_all (\<lambda>(t, j, x). t \<le> now \<and> j \<noteq> i) es"

lemma browser_append: "browser (ops @ ops') ck = browser ops' (browser ops ck)"
proof (induction ops arbitrary: ck)
  case (Cons op ops)
  show ?case by (cases op) (simp_all only: append_Cons browser.simps Cons.IH)
qed simp

lemma base_cookie_fields [simp]:
  "ck_name (base_cookie name val config) = name" "ck_value (base_cookie name val config) = val"
  "ck_max_age (base_cookie name val config) = None"
  by (simp_all add: base_cookie_def cookie_new_def)

lemma jar_ops_simps [simp]:
  "jr_ops (jar_add c j) = jr_ops j @ [JarAdd c]" "jr_ops (jar_remove c j) = jr_ops j @ [JarRemove c]"
  "jr_ops (browser_jar ck) = []" "jr_request (browser_jar ck) = ck"
  by (simp_all add: jar_add_def jar_remove_def browser_jar_def)

section \<open>The steps\<close>

text \<open>A login leaves its flow in the store, under the id in the browser's flow cookie.\<close>

lemma login_step:
  assumes "login (memory_state out urls client) (browser_jar ck) params w = (r, w')"
    and "fst (xt_authorize out (authorize_params (cl_config client)
        (params ''prompt'' \<noteq> Some ''login'')) (wd_x w)) = auth"
  shows "\<exists>fid flw. browser (rs_cookies r) ck FLOW_COOKIE = Some fid
    \<and> rs_status r = 307 \<and> rs_location r = Some (ar_url auth)
    \<and> wd_sessions w' = wd_sessions w
    \<and> wd_flows w' = st_put flow_ops (fl_created flw) fid flw (wd_flows w)
    \<and> fl_state flw = ar_csrf_state auth \<and> fl_verifier flw = ar_pkce_verifier auth
    \<and> fl_next flw = safe_next urls (params ''next'') \<and> fl_created flw = xt_now out (wd_x w')"
proof -
  let ?oidc = "memory_state out urls client"
  obtain a w1 where a: "call_out (xt_authorize out (authorize_params (state_config ?oidc)
      (params ''prompt'' \<noteq> Some ''login''))) w = (a, w1)" by fastforce
  obtain fid w2 where i: "new_id ?oidc w1 = (fid, w2)" by fastforce
  from call_out_world [OF a] assms(2) have "a = auth" by (auto simp: state_config_def)
  moreover from call_out_world [OF a] new_id_world [OF i] obtain x where "w2 = w\<lparr>wd_x := x\<rparr>" by auto
  moreover define flw where "flw = \<lparr>fl_state = ar_csrf_state auth, fl_verifier = ar_pkce_verifier auth,
      fl_next = safe_next urls (params ''next''), fl_interactive_tried = (params ''prompt'' = Some ''login''),
      fl_created = xt_now out x\<rparr>"
  ultimately show ?thesis
    using assms(1) a i
    by (intro exI [of _ fid] exI [of _ flw])
      (auto simp: login_def start_login_def redirect_response_def flows_put_def now_of_def browser_append)
qed

text \<open>The callback of a stored flow, with an answer the IdP exchanges, stores a session.\<close>

lemma callback_step:
  assumes "callback (memory_state out urls client) (browser_jar ck) params w = (r, w')"
    and "ck FLOW_COOKIE = Some fid" "flows_get (memory_state out urls client) fid w = Some flw"
    and "params ''error'' = None" "params ''code'' = Some code" "params ''state'' = Some (fl_state flw)"
    and "xt_exchange out code (fl_verifier flw) (wd_x w) = (Inr tokens, x)"
  shows "\<exists>sid se. browser (rs_cookies r) ck (oc_cookie_name (cl_config client)) = Some sid
    \<and> rs_status r = 307 \<and> rs_location r = Some (safe_next urls (Some (fl_next flw)))
    \<and> wd_sessions w' = st_put session_ops (se_created se) sid se (wd_sessions w)
    \<and> se_access_token se = tb_access_token tokens \<and> se_created se = xt_now out (wd_x w')"
proof -
  let ?oidc = "memory_state out urls client"
  from assms have c: "callback_exchange ?oidc (browser_jar ck) fid flw code w = (r, w')"
    by (simp add: callback_def)
  obtain sid w2 where i: "new_id ?oidc (flows_remove ?oidc fid (w\<lparr>wd_x := x\<rparr>)) = (sid, w2)" by fastforce
  from new_id_world [OF i] obtain x' where "w2 = (flows_remove ?oidc fid (w\<lparr>wd_x := x\<rparr>))\<lparr>wd_x := x'\<rparr>" by blast
  then have "wd_sessions w2 = wd_sessions w" by (simp add: flows_remove_def)
  moreover define se where "se = \<lparr>se_access_token = tb_access_token tokens,
      se_refresh_token = tb_refresh_token tokens, se_created = xt_now out (wd_x w2)\<rparr>"
  ultimately show ?thesis
    using c i assms(7)
    by (intro exI [of _ sid] exI [of _ se])
      (auto simp: callback_exchange_def call_out_def redirect_response_def sessions_put_def now_of_def
        session_cookie_def state_config_def browser_append)
qed

text \<open>A stored session whose token the IdP vouches for is the identity of a request.\<close>

lemma session_step:
  assumes "ap_oidc ps = Some (memory_state out urls client)" "bearer_token (pt_headers p) = None"
    and "xt_cookies out (pt_headers p) (oc_cookie_name (cl_config client)) = Some sid"
    and "sessions_get (memory_state out urls client) sid w = Some se"
    and "xt_userinfo out (se_access_token se) (wd_x w) = (Inr who, x)" "check who st = Inr u"
  shows "gated_request ps check st p w = (Inr who, w\<lparr>wd_x := x\<rparr>)"
proof -
  let ?oidc = "memory_state out urls client"
  have "resolve_session ?oidc (jar_from_headers ?oidc p) w = (Some (who, se), w\<lparr>wd_x := x\<rparr>)"
    using assms by (simp add: resolve_session_def jar_from_headers_def session_cookie_def
        state_config_def call_out_def)
  with assms(1,2,6) show ?thesis
    by (simp add: gated_request_def set_auth_context_def resolve_context_def extract_gated_by_def)
qed

lemma flow_served:
  assumes "others now i es" "t \<le> now" "now < fl_created v + ex_max_age s"
  shows "st_get flow_ops now (flows.run es (st_put flow_ops t i v s)) i = Some v"
  using assms by (intro flows.put_served) (auto simp: others_def list_all_iff live_iff)

lemma session_served:
  assumes "others now i es" "t \<le> now" "now < se_created v + ex_max_age s"
  shows "st_get session_ops now (sessions.run es (st_put session_ops t i v s)) i = Some v"
  using assms by (intro sessions.put_served) (auto simp: others_def list_all_iff live_iff)

text \<open>A time that is not before another and younger than an age.\<close>

definition within_age :: "nat \<Rightarrow> nat \<Rightarrow> nat \<Rightarrow> bool" where
  "within_age t age now \<longleftrightarrow> t \<le> now \<and> now < t + age"

section \<open>Properties\<close>

text \<open>C5: A login leads to the handler. A browser asks for the login route, is sent to the IdP, comes
  back to the callback with the state of that login and a code the IdP exchanges for this login's
  verifier, and later asks for a gated route with the cookies it was sent: it gets a redirect to the
  IdP, then one to the page it asked for, and then the handler runs for the caller the IdP names. This
  holds when the gate admits that caller, when the callback comes within the flow's age and the last
  request within the session's, and when in between no other request stored or removed this flow or
  this session: no second callback, and no logout or session check of the same browser, which use the
  same entries. To all other entries the other requests may do anything.\<close>

theorem login_reaches_gated_handler:
  assumes "login (memory_state out urls client) (browser_jar ck) params w0 = (r1, w1)"
    and "fst (xt_authorize out (authorize_params (cl_config client)
        (params ''prompt'' \<noteq> Some ''login'')) (wd_x w0)) = auth"
    and "ck1 = browser (rs_cookies r1) ck"
    and "others (xt_now out (wd_x w2)) (cookie_sent ck1 FLOW_COOKIE) es1"
    and "wd_flows w2 = flows.run es1 (wd_flows w1)"
    and "within_age (xt_now out (wd_x w1)) (ex_max_age (wd_flows w0)) (xt_now out (wd_x w2))"
    and "callback (memory_state out urls client) (browser_jar ck1) params' w2 = (r2, w3)"
    and "params' ''error'' = None" "params' ''code'' = Some code"
    and "params' ''state'' = Some (ar_csrf_state auth)"
    and "xt_exchange out code (ar_pkce_verifier auth) (wd_x w2) = (Inr tokens, x)"
    and "ck2 = browser (rs_cookies r2) ck1"
    and "others (xt_now out (wd_x w4)) (cookie_sent ck2 (oc_cookie_name (cl_config client))) es2"
    and "wd_sessions w4 = sessions.run es2 (wd_sessions w3)"
    and "within_age (xt_now out (wd_x w3)) (ex_max_age (wd_sessions w2)) (xt_now out (wd_x w4))"
    and "ap_oidc ps = Some (memory_state out urls client)" "bearer_token (pt_headers p) = None"
    and "xt_cookies out (pt_headers p) (oc_cookie_name (cl_config client))
        = Some (cookie_sent ck2 (oc_cookie_name (cl_config client)))"
    and "xt_userinfo out (tb_access_token tokens) (wd_x w4) = (Inr who, x')" "check who st = Inr ()"
  shows "rs_status r1 = 307 \<and> rs_location r1 = Some (ar_url auth)
    \<and> rs_status r2 = 307
    \<and> rs_location r2 = Some (safe_next urls (Some (safe_next urls (params ''next''))))
    \<and> gated_request ps check st p w4 = (Inr who, w4\<lparr>wd_x := x'\<rparr>)"
proof -
  from login_step [OF assms(1,2)] obtain fid flw where
    flw: "ck1 FLOW_COOKIE = Some fid" "rs_status r1 = 307" "rs_location r1 = Some (ar_url auth)"
      "wd_flows w1 = st_put flow_ops (fl_created flw) fid flw (wd_flows w0)"
      "fl_state flw = ar_csrf_state auth" "fl_verifier flw = ar_pkce_verifier auth"
      "fl_next flw = safe_next urls (params ''next'')" "fl_created flw = xt_now out (wd_x w1)"
    unfolding assms(3) by blast
  from assms(4-6) flw(1,4,8)
  have "flows_get (memory_state out urls client) fid w2 = Some flw"
    by (simp add: flows_get_def now_of_def cookie_sent_def flow_served within_age_def)
  from callback_step [OF assms(7) flw(1) this assms(8,9)] assms(10,11) flw(5,6) obtain sid se where
    se: "ck2 (oc_cookie_name (cl_config client)) = Some sid" "rs_status r2 = 307"
      "rs_location r2 = Some (safe_next urls (Some (fl_next flw)))"
      "wd_sessions w3 = st_put session_ops (se_created se) sid se (wd_sessions w2)"
      "se_access_token se = tb_access_token tokens" "se_created se = xt_now out (wd_x w3)"
    unfolding assms(12) by metis
  from assms(13-15) se(1,4,6)
  have "sessions_get (memory_state out urls client) sid w4 = Some se"
    by (simp add: sessions_get_def now_of_def cookie_sent_def session_served within_age_def)
  from session_step [where check = check and st = st, OF assms(16,17) _ this _ assms(20)] assms(18,19) se(1,5) cookie_sent_def
  have "gated_request ps check st p w4 = (Inr who, w4\<lparr>wd_x := x'\<rparr>)" by simp
  with flw se show ?thesis by simp
qed

text \<open>The toy outside of \<open>Oidc_Web_Proofs\<close>, from its clock at 5: a login, the callback and a request.\<close>

definition toy_request :: "string \<Rightarrow> parts" where
  "toy_request sid = \<lparr>pt_method = ''GET'', pt_headers = [''cookie'' \<mapsto> Some sid], pt_path_query = Some ''/me''\<rparr>"

definition toy_open :: "principal \<Rightarrow> unit \<Rightarrow> denial + unit" where
  "toy_open who st = Inr ()"

theorem login_reaches_gated_handler_witness:
  "\<exists>sid w4 x'. gated_request (auth_providers_new (Some (memory_state toy_outside toy_urls toy_client)) None None)
      toy_open () (toy_request sid) w4
    = (Inr \<lparr>pr_username = ''alice'', pr_groups = []\<rparr>, w4\<lparr>wd_x := x'\<rparr>)"
proof -
  let ?oidc = "memory_state toy_outside toy_urls toy_client"
  obtain r1 w1 where l: "login ?oidc (browser_jar Map.empty) Map.empty toy_world = (r1, w1)" by fastforce
  define ck1 where "ck1 = browser (rs_cookies r1) Map.empty"
  obtain r2 w3 where c: "callback ?oidc (browser_jar ck1) toy_params w1 = (r2, w3)" by fastforce
  define ck2 where "ck2 = browser (rs_cookies r2) ck1"
  define p where "p = toy_request (cookie_sent ck2 ''sess'')"
  let ?ps = "auth_providers_new (Some ?oidc) None None"
  from login_step [OF l refl] have sess: "wd_sessions w1 = memory_store 100"
    by (auto simp: toy_world_def)
  have "gated_request ?ps toy_open () p w3 = (Inr \<lparr>pr_username = ''alice'', pr_groups = []\<rparr>, w3\<lparr>wd_x := Suc (wd_x w3)\<rparr>)"
    using login_reaches_gated_handler [OF l refl ck1_def, where ?es1.0 = "[]" and ?w2.0 = w1
        and params' = toy_params and code = "''c''" and ?r2.0 = r2 and ?w3.0 = w3 and ?ck2.0 = ck2
        and ?es2.0 = "[]" and ?w4.0 = w3 and ps = ?ps and p = p and check = toy_open and st = "()"
        and tokens = "\<lparr>tb_access_token = ''good'', tb_refresh_token = None\<rparr>" and x = "Suc (wd_x w1)"
        and who = "\<lparr>pr_username = ''alice'', pr_groups = []\<rparr>" and x' = "Suc (wd_x w3)"]
      c ck2_def sess
    by (simp add: others_def within_age_def toy_params_def toy_outside_def p_def toy_request_def
        auth_providers_new_def toy_open_def bearer_token_def header_str_def toy_client_def
        oidc_config_new_def toy_world_def memory_store_def memory_flow_store_def expiring_new_def
        expiring_put_def)
  then show ?thesis unfolding p_def by blast
qed

end
