(* ===== verification/Oidc_Steps.thy ===== *)
theory Oidc_Steps
  imports Oidc_Auth
begin

text \<open>
  The handlers of \<open>web.rs\<close> cut at their awaits. A request in flight is a task: what it holds between two
  operations on the stores or calls to the IdP, and so where its handler goes on. \<open>arrive\<close> is a
  handler up to its first await, \<open>resume\<close> what it does from one await to the next, with the
  operation it waits for. Resumed until it answers, with nothing in between, a task does what the
  handler does.
\<close>

section \<open>Tasks\<close>

text \<open>
  In \<open>resolve_session\<close>: before the IdP is asked about the session read, before the refresh, before the
  refreshed session is stored, before the IdP is asked about it, before the session is removed; then the
  result. In \<open>callback\<close>: before the flow of a failed login is removed, and after it; before the code is
  exchanged, before the flow is removed, before the session is stored. Then the response.
\<close>

datatype task =
    AskUser string session
  | AskRefresh string session string
  | StoreRefreshed string session
  | AskAgain string session
  | EndSession string
  | Resolved "(principal \<times> session) option"
  | DropFlow jar string flow_state string
  | FailLogin jar flow_state string
  | AskExchange jar string flow_state string
  | UseFlow jar string flow_state token_bundle
  | CreateSession jar flow_state token_bundle
  | Answered response

definition created_session :: "token_bundle \<Rightarrow> nat \<Rightarrow> session" where
  "created_session tokens t =
     \<lparr>se_access_token = tb_access_token tokens, se_refresh_token = tb_refresh_token tokens, se_created = t\<rparr>"

text \<open>From one await to the next.\<close>

fun resume ::
    "('x, 's, 'f, 'u) oidc_state \<Rightarrow> task \<Rightarrow> ('x, 's, 'f) world \<Rightarrow> task \<times> ('x, 's, 'f) world" where
  "resume oidc (AskUser sid se) w =
     (case call_out (xt_userinfo (os_outside oidc) (se_access_token se)) w of
        (Inr p, w) \<Rightarrow> (Resolved (Some (p, se)), w)
      | (Inl (Unreachable why), w) \<Rightarrow> (EndSession sid, w)
      | (Inl (Rejected why), w) \<Rightarrow>
          (case se_refresh_token se of
             Some rt \<Rightarrow> (AskRefresh sid se rt, w)
           | None \<Rightarrow> (EndSession sid, w)))"
| "resume oidc (AskRefresh sid se rt) w =
     (case call_out (xt_refresh (os_outside oidc) rt) w of
        (Inl _, w) \<Rightarrow> (EndSession sid, w)
      | (Inr tokens, w) \<Rightarrow> (StoreRefreshed sid (created_session tokens (se_created se)), w))"
| "resume oidc (StoreRefreshed sid se) w = (AskAgain sid se, sessions_put oidc sid se w)"
| "resume oidc (AskAgain sid se) w =
     (case call_out (xt_userinfo (os_outside oidc) (se_access_token se)) w of
        (Inr p, w) \<Rightarrow> (Resolved (Some (p, se)), w)
      | (Inl _, w) \<Rightarrow> (EndSession sid, w))"
| "resume oidc (EndSession sid) w = (Resolved None, sessions_remove oidc sid w)"
| "resume oidc (DropFlow j fid flow e) w =
     (FailLogin (jar_remove (removal_cookie FLOW_COOKIE) j) flow e, flows_remove oidc fid w)"
| "resume oidc (FailLogin j flow e) w =
     (if needs_interaction e \<and> \<not> fl_interactive_tried flow
      then (case start_login oidc j (safe_next (os_urls oidc) (Some (fl_next flow))) False True w of
              (r, w) \<Rightarrow> (Answered r, w))
      else (Answered (status_response 401 (jr_ops j) (''authentication failed: '' @ e)), w))"
| "resume oidc (AskExchange j fid flow code) w =
     (case call_out (xt_exchange (os_outside oidc) code (fl_verifier flow)) w of
        (Inr tokens, w) \<Rightarrow> (UseFlow j fid flow tokens, w)
      | (Inl e, w) \<Rightarrow>
          (Answered (status_response 401 (jr_ops (jar_remove (removal_cookie FLOW_COOKIE) j))
             (''authentication failed: '' @ oidc_error_display e)), w))"
| "resume oidc (UseFlow j fid flow tokens) w = (CreateSession j flow tokens, flows_remove oidc fid w)"
| "resume oidc (CreateSession j flow tokens) w =
     (case new_id oidc w of
        (sid, w) \<Rightarrow>
          (Answered (redirect_response 307
             (jr_ops (jar_add (base_cookie (session_cookie oidc) sid (state_config oidc))
                (jar_remove (removal_cookie FLOW_COOKIE) j)))
             (safe_next (os_urls oidc) (Some (fl_next flow)))),
           sessions_put oidc sid (created_session tokens (now_of oidc w)) w))"
| "resume oidc t w = (t, w)"

text \<open>A request as it comes in; \<open>Refuse\<close> is a request whose session was not resolved.\<close>

datatype arrival =
    Login jar "string \<Rightarrow> string option"
  | Callback jar "string \<Rightarrow> string option"
  | Logout jar "string \<Rightarrow> string option option"
  | Resolve jar
  | Refuse parts jar

definition callback_arrives ::
    "('x, 's, 'f, 'u) oidc_state \<Rightarrow> jar \<Rightarrow> (string \<Rightarrow> string option) \<Rightarrow> ('x, 's, 'f) world
     \<Rightarrow> task \<times> ('x, 's, 'f) world" where
  "callback_arrives oidc j params w =
     (let flow_id = jr_request j FLOW_COOKIE in
      case Option.bind flow_id (\<lambda>fid. flows_get oidc fid w) of
        None \<Rightarrow> (case start_login oidc j ''/'' True False w of (r, w) \<Rightarrow> (Answered r, w))
      | Some flow \<Rightarrow>
          (let fid = unwrap_or '''' flow_id in
           case params ''error'' of
             Some e \<Rightarrow> (DropFlow j fid flow e, w)
           | None \<Rightarrow>
               (case (params ''code'', params ''state'') of
                  (Some code, Some st) \<Rightarrow>
                    if st \<noteq> fl_state flow then (Answered (status_response 400 [] ''state mismatch''), w)
                    else (AskExchange j fid flow code, w)
                | _ \<Rightarrow> (Answered (status_response 400 [] ''missing code/state''), w))))"

definition resolve_arrives ::
    "('x, 's, 'f, 'u) oidc_state \<Rightarrow> jar \<Rightarrow> ('x, 's, 'f) world \<Rightarrow> task \<times> ('x, 's, 'f) world" where
  "resolve_arrives oidc j w =
     (case jr_request j (session_cookie oidc) of
        None \<Rightarrow> (Resolved None, w)
      | Some sid \<Rightarrow>
          (case sessions_get oidc sid w of
             None \<Rightarrow> (Resolved None, w)
           | Some se \<Rightarrow> (AskUser sid se, w)))"

abbreviation answers :: "response \<times> ('x, 's, 'f) world \<Rightarrow> task \<times> ('x, 's, 'f) world" where
  "answers rw \<equiv> (Answered (fst rw), snd rw)"

fun arrive ::
    "('x, 's, 'f, 'u) oidc_state \<Rightarrow> arrival \<Rightarrow> ('x, 's, 'f) world \<Rightarrow> task \<times> ('x, 's, 'f) world" where
  "arrive oidc (Login j params) w = answers (login oidc j params w)"
| "arrive oidc (Callback j params) w = callback_arrives oidc j params w"
| "arrive oidc (Logout j headers) w = answers (logout oidc j headers w)"
| "arrive oidc (Resolve j) w = resolve_arrives oidc j w"
| "arrive oidc (Refuse p j) w = answers (unauthenticated oidc p j w)"

section \<open>Run to its end\<close>

text \<open>A task that has answered stays; five resumes are enough for every other.\<close>

abbreviation resumed ::
    "('x, 's, 'f, 'u) oidc_state \<Rightarrow> task \<times> ('x, 's, 'f) world \<Rightarrow> task \<times> ('x, 's, 'f) world" where
  "resumed oidc tw \<equiv> resume oidc (fst tw) (snd tw)"

definition run_task ::
    "('x, 's, 'f, 'u) oidc_state \<Rightarrow> task \<times> ('x, 's, 'f) world \<Rightarrow> task \<times> ('x, 's, 'f) world" where
  "run_task oidc tw = (resumed oidc ^^ 5) tw"

lemma run_task_resumes:
  "run_task oidc tw = resumed oidc (resumed oidc (resumed oidc (resumed oidc (resumed oidc tw))))"
  by (simp add: run_task_def numeral_eq_Suc)

lemma resolve_session_run:
  "run_task oidc (arrive oidc (Resolve j) w) =
     (case resolve_session oidc j w of (res, w') \<Rightarrow> (Resolved res, w'))"
  by (simp add: run_task_resumes resolve_arrives_def resolve_session_def refresh_session_def
      end_session_of_def created_session_def Let_def
      split: option.split prod.split sum.split upstream.split)

lemma callback_run:
  "run_task oidc (arrive oidc (Callback j params) w) = answers (callback oidc j params w)"
  by (simp add: run_task_resumes callback_arrives_def callback_def callback_error_def callback_exchange_def
      created_session_def now_of_def Let_def
      split: option.split prod.split sum.split)

lemma login_run: "run_task oidc (arrive oidc (Login j params) w) = answers (login oidc j params w)"
  by (simp add: run_task_resumes)

lemma logout_run: "run_task oidc (arrive oidc (Logout j headers) w) = answers (logout oidc j headers w)"
  by (simp add: run_task_resumes)

lemma unauthenticated_run:
  "run_task oidc (arrive oidc (Refuse p j) w) = answers (unauthenticated oidc p j w)"
  by (simp add: run_task_resumes)

end
