(* ===== verification/Oidc_Server.thy ===== *)
theory Oidc_Server
  imports Oidc_Journey Oidc_Steps "HOL-Library.Multiset"
begin

text \<open>
  The server as a state machine. From empty in-memory stores, any number of requests to the routes of
  \<open>web.rs\<close> and to handlers behind the middleware of \<open>auth.rs\<close> run at once: each is a task of
  \<open>Oidc_Steps\<close>, and between any two awaits of one others take their steps, the outside (the IdP, the
  clock, the random source) moves on, and a request whose client went away is dropped. What holds of
  every reachable configuration is proved step by step; each handler run without interruption is a
  path of these steps.
\<close>

section \<open>The step relation\<close>

type_synonym 'x server = "('x, session expiring, flow_state expiring) world \<times> task multiset"

inductive server_step ::
    "'x outside \<Rightarrow> 'u url_ops \<Rightarrow> 'u oidc_client \<Rightarrow> 'x server \<Rightarrow> 'x server \<Rightarrow> bool"
  for out urls client where
  outside_moves: "server_step out urls client (w, ts) (w\<lparr>wd_x := x\<rparr>, ts)"
| arrives: "arrive (memory_state out urls client) a w = (t, w') \<Longrightarrow>
    server_step out urls client (w, ts) (w', add_mset t ts)"
| resumes: "resume (memory_state out urls client) t w = (t', w') \<Longrightarrow>
    server_step out urls client (w, add_mset t ts) (w', add_mset t' ts)"
| leaves: "server_step out urls client (w, add_mset t ts) (w, ts)"

definition boot_world :: "'x \<Rightarrow> nat \<Rightarrow> nat \<Rightarrow> ('x, session expiring, flow_state expiring) world" where
  "boot_world x session_age flow_age =
     \<lparr>wd_x = x, wd_sessions = memory_store session_age, wd_flows = memory_flow_store flow_age\<rparr>"

definition reachable ::
    "'x outside \<Rightarrow> 'u url_ops \<Rightarrow> 'u oidc_client \<Rightarrow> 'x server \<Rightarrow> bool" where
  "reachable out urls client c \<longleftrightarrow>
     (\<exists>x session_age flow_age.
        (server_step out urls client)\<^sup>*\<^sup>* (boot_world x session_age flow_age, {#}) c)"

abbreviation server_path ::
    "'x outside \<Rightarrow> 'u url_ops \<Rightarrow> 'u oidc_client \<Rightarrow> ('x, session expiring, flow_state expiring) world
     \<Rightarrow> ('x, session expiring, flow_state expiring) world \<Rightarrow> task multiset \<Rightarrow> bool" where
  "server_path out urls client w w' ts \<equiv> (server_step out urls client)\<^sup>*\<^sup>* (w, ts) (w', ts)"

section \<open>The invariant\<close>

text \<open>An id this server drew: two answers of the random source in a row.\<close>

definition drawn :: "'x outside \<Rightarrow> string \<Rightarrow> bool" where
  "drawn out i \<longleftrightarrow>
     (\<exists>x. i = fst (xt_uuid out x) @ fst (xt_uuid out (snd (xt_uuid out x))))"

text \<open>A flow this server started: its state and verifier are those of one authorize request.\<close>

definition flow_started :: "'x outside \<Rightarrow> 'u oidc_client \<Rightarrow> string \<Rightarrow> flow_state \<Rightarrow> bool" where
  "flow_started out client fid flw \<longleftrightarrow>
     drawn out fid \<and> site_path (fl_next flw)
     \<and> (\<exists>silent x. case fst (xt_authorize out (authorize_params (cl_config client) silent) x) of
           a \<Rightarrow> fl_state flw = ar_csrf_state a \<and> fl_verifier flw = ar_pkce_verifier a
             \<and> fl_interactive_tried flw = (\<not> silent))"

text \<open>
  Tokens obtained through a login of this server: exchanged for the verifier of an authorize request
  it made, or refreshed from tokens obtained so.
\<close>

inductive issued :: "'x outside \<Rightarrow> 'u oidc_client \<Rightarrow> string \<Rightarrow> string option \<Rightarrow> bool" for out client where
  exchanged: "xt_exchange out code
      (ar_pkce_verifier (fst (xt_authorize out (authorize_params (cl_config client) silent) x0))) x
      = (Inr tokens, x') \<Longrightarrow> issued out client (tb_access_token tokens) (tb_refresh_token tokens)"
| refreshed: "issued out client a (Some rt) \<Longrightarrow> xt_refresh out rt x = (Inr tokens, x') \<Longrightarrow>
    issued out client (tb_access_token tokens) (tb_refresh_token tokens)"

definition session_issued :: "'x outside \<Rightarrow> 'u oidc_client \<Rightarrow> string \<Rightarrow> session \<Rightarrow> bool" where
  "session_issued out client sid se \<longleftrightarrow>
     drawn out sid \<and> issued out client (se_access_token se) (se_refresh_token se)"

definition store_all :: "(string \<Rightarrow> 'v \<Rightarrow> bool) \<Rightarrow> 'v expiring \<Rightarrow> bool" where
  "store_all P e \<longleftrightarrow> (\<forall>i v. ex_entries e i = Some v \<longrightarrow> P i v)"

definition world_ok ::
    "'x outside \<Rightarrow> 'u oidc_client \<Rightarrow> ('x, session expiring, flow_state expiring) world \<Rightarrow> bool" where
  "world_ok out client w \<longleftrightarrow>
     store_all (session_issued out client) (wd_sessions w) \<and> store_all (flow_started out client) (wd_flows w)"

lemma store_all_put: "store_all P e \<Longrightarrow> P i v \<Longrightarrow> store_all P (expiring_put created t i v e)"
  by (auto simp: store_all_def expiring_put_def split: option.splits if_splits)

lemma store_all_remove: "store_all P e \<Longrightarrow> store_all P (expiring_remove i e)"
  by (auto simp: store_all_def expiring_remove_def)

lemma store_all_new: "store_all P (expiring_new age)"
  by (simp add: store_all_def expiring_new_def)

named_theorems world_intros

lemma world_ok_x [world_intros]: "world_ok out client w \<Longrightarrow> world_ok out client (w\<lparr>wd_x := x\<rparr>)"
  by (simp add: world_ok_def)

lemma world_ok_sessions_put [world_intros]:
  "world_ok out client w \<Longrightarrow> session_issued out client sid se \<Longrightarrow>
   world_ok out client (sessions_put (memory_state out urls client) sid se w)"
  by (simp add: world_ok_def sessions_put_def session_ops_def memory_ops_def store_all_put)

lemma world_ok_sessions_remove [world_intros]:
  "world_ok out client w \<Longrightarrow> world_ok out client (sessions_remove (memory_state out urls client) sid w)"
  by (simp add: world_ok_def sessions_remove_def session_ops_def memory_ops_def store_all_remove)

lemma world_ok_flows_put [world_intros]:
  "world_ok out client w \<Longrightarrow> flow_started out client fid flw \<Longrightarrow>
   world_ok out client (flows_put (memory_state out urls client) fid flw w)"
  by (simp add: world_ok_def flows_put_def flow_ops_def memory_ops_def store_all_put)

lemma world_ok_flows_remove [world_intros]:
  "world_ok out client w \<Longrightarrow> world_ok out client (flows_remove (memory_state out urls client) fid w)"
  by (simp add: world_ok_def flows_remove_def flow_ops_def memory_ops_def store_all_remove)

lemma world_ok_call:
  assumes "call_out f w = (a, w')" "world_ok out client w"
  shows "world_ok out client w'"
  using call_out_world [OF assms(1)] assms(2) by (auto intro: world_intros)

lemma expiring_get_entry: "expiring_get created now e i = Some v \<Longrightarrow> ex_entries e i = Some v"
  by (auto simp: expiring_get_def split: option.splits if_splits)

lemma world_ok_session:
  assumes "world_ok out client w" "sessions_get (memory_state out urls client) sid w = Some se"
  shows "session_issued out client sid se"
  using assms by (auto simp: world_ok_def store_all_def sessions_get_def session_ops_def memory_ops_def
      dest: expiring_get_entry)

lemma world_ok_flow:
  assumes "world_ok out client w" "flows_get (memory_state out urls client) fid w = Some flw"
  shows "flow_started out client fid flw"
  using assms by (auto simp: world_ok_def store_all_def flows_get_def flow_ops_def memory_ops_def
      dest: expiring_get_entry)

lemma new_id_drawn:
  assumes "new_id (memory_state out urls client) w = (i, w')" "world_ok out client w"
  shows "drawn out i \<and> world_ok out client w'"
proof -
  from assms(1) have "i = fst (xt_uuid out (wd_x w)) @ fst (xt_uuid out (snd (xt_uuid out (wd_x w))))"
    by (auto simp: new_id_def call_out_def split: prod.splits)
  moreover from new_id_world [OF assms(1)] assms(2) have "world_ok out client w'"
    by (auto intro: world_intros)
  ultimately show ?thesis by (auto simp: drawn_def)
qed

section \<open>Every step keeps it\<close>

text \<open>What a request in flight holds is as good as what is stored.\<close>

fun task_ok :: "'x outside \<Rightarrow> 'u oidc_client \<Rightarrow> task \<Rightarrow> bool" where
  "task_ok out client (AskUser sid se) = session_issued out client sid se"
| "task_ok out client (AskRefresh sid se rt) = (session_issued out client sid se \<and> se_refresh_token se = Some rt)"
| "task_ok out client (StoreRefreshed sid se) = session_issued out client sid se"
| "task_ok out client (AskAgain sid se) = session_issued out client sid se"
| "task_ok out client (Resolved (Some (who, se))) =
     (issued out client (se_access_token se) (se_refresh_token se)
      \<and> (\<exists>x x'. xt_userinfo out (se_access_token se) x = (Inr who, x')))"
| "task_ok out client (AskExchange j fid flw code) = flow_started out client fid flw"
| "task_ok out client (UseFlow j fid flw tokens) =
     issued out client (tb_access_token tokens) (tb_refresh_token tokens)"
| "task_ok out client (CreateSession j flw tokens) =
     issued out client (tb_access_token tokens) (tb_refresh_token tokens)"
| "task_ok out client t = True"

definition server_ok :: "'x outside \<Rightarrow> 'u oidc_client \<Rightarrow> 'x server \<Rightarrow> bool" where
  "server_ok out client c \<longleftrightarrow> world_ok out client (fst c) \<and> (\<forall>t \<in># snd c. task_ok out client t)"

lemma start_login_ok:
  assumes "start_login (memory_state out urls client) j nxt silent (\<not> silent) w = (r, w')"
    and "world_ok out client w" "site_path nxt"
  shows "world_ok out client w'"
proof -
  let ?oidc = "memory_state out urls client"
  obtain a w1 where a: "call_out (xt_authorize out (authorize_params (cl_config client) silent)) w = (a, w1)"
    by fastforce
  obtain fid w2 where i: "new_id ?oidc w1 = (fid, w2)" by fastforce
  from new_id_drawn [OF i world_ok_call [OF a assms(2)]] have d: "drawn out fid" "world_ok out client w2"
    by auto
  from call_out_world [OF a] have "a = fst (xt_authorize out (authorize_params (cl_config client) silent) (wd_x w))"
    by auto
  then have "flow_started out client fid
      \<lparr>fl_state = ar_csrf_state a, fl_verifier = ar_pkce_verifier a, fl_next = nxt,
       fl_interactive_tried = (\<not> silent), fl_created = now_of ?oidc w2\<rparr>"
    using d(1) assms(3) unfolding flow_started_def by (auto intro!: exI)
  with d(2) assms(1) a i show ?thesis
    by (auto simp: start_login_def state_config_def intro: world_intros)
qed

lemma created_session_issued:
  "drawn out sid \<Longrightarrow> issued out client (tb_access_token tokens) (tb_refresh_token tokens) \<Longrightarrow>
   session_issued out client sid (created_session tokens t)"
  by (simp add: session_issued_def created_session_def)

lemma exchanged_issued:
  assumes "flow_started out client fid flw"
    and "call_out (xt_exchange out code (fl_verifier flw)) w = (Inr tokens, w')"
  shows "issued out client (tb_access_token tokens) (tb_refresh_token tokens)"
  using assms(1) call_out_world [OF assms(2)]
  by (auto simp: flow_started_def intro: issued.exchanged)

lemma refreshed_issued:
  assumes "session_issued out client sid se" "se_refresh_token se = Some rt"
    and "call_out (xt_refresh out rt) w = (Inr tokens, w')"
  shows "session_issued out client sid (created_session tokens t)"
  using assms(1,2) call_out_world [OF assms(3)]
  by (auto simp: session_issued_def created_session_def intro: issued.refreshed)

lemma start_ok:
  assumes "start_login (memory_state out urls client) j nxt silent tried w = (r, w')"
    and "tried = (\<not> silent)" "world_ok out client w" "site_path nxt"
  shows "world_ok out client w'"
  using start_login_ok assms by blast

lemma site_root: "site_path ''/''"
  by (simp add: site_path_def starts_with_def)

lemma arrive_ok:
  assumes "arrive (memory_state out urls client) a w = (t, w')" "world_ok out client w"
  shows "world_ok out client w' \<and> task_ok out client t"
proof (cases a)
  case (Login j params)
  with assms show ?thesis
    by (cases "login (memory_state out urls client) j params w")
      (auto simp: login_def Let_def intro: start_ok [OF _ _ _ safe_next_site])
next
  case (Callback j params)
  with assms show ?thesis
    by (auto simp: callback_arrives_def Let_def bind_eq_Some_conv
        intro: start_ok [OF _ _ _ site_root] dest: world_ok_flow split: option.splits prod.splits if_splits)
next
  case (Logout j headers)
  with assms show ?thesis
    by (auto simp: logout_def Let_def intro: world_intros split: option.splits if_splits)
next
  case (Resolve j)
  with assms show ?thesis
    by (auto simp: resolve_arrives_def intro: world_ok_session split: option.splits)
next
  case (Refuse p j)
  with assms show ?thesis
    by (cases "unauthenticated (memory_state out urls client) p j w")
      (auto simp: unauthenticated_def intro: start_ok [OF _ _ _ safe_next_site] split: if_splits)
qed

lemma asked_ok:
  assumes "session_issued out client sid se" "call_out (xt_userinfo out (se_access_token se)) w = (Inr who, w')"
  shows "task_ok out client (Resolved (Some (who, se)))"
  using assms(1) call_out_world [OF assms(2)] by (auto simp: session_issued_def)

lemma resume_ok:
  assumes "resume (memory_state out urls client) t w = (t', w')" "world_ok out client w" "task_ok out client t"
  shows "world_ok out client w' \<and> task_ok out client t'"
proof (cases t)
  case (AskUser sid se)
  with assms show ?thesis
    by (auto intro: world_ok_call asked_ok simp del: task_ok.simps(5)
        split: prod.splits sum.splits upstream.splits option.splits)
next
  case (AskRefresh sid se rt)
  with assms show ?thesis
    by (auto intro: world_ok_call refreshed_issued split: prod.splits sum.splits)
next
  case (AskAgain sid se)
  with assms show ?thesis
    by (auto intro: world_ok_call asked_ok simp del: task_ok.simps(5) split: prod.splits sum.splits)
next
  case (FailLogin j flw e)
  with assms show ?thesis
    by (auto intro: start_ok [OF _ _ _ safe_next_site] split: prod.splits if_splits)
next
  case (AskExchange j fid flw code)
  with assms show ?thesis
    by (auto intro: world_ok_call exchanged_issued split: prod.splits sum.splits)
next
  case (CreateSession j flw tokens)
  with assms show ?thesis
    by (auto dest: new_id_drawn intro: world_intros created_session_issued split: prod.splits)
qed (use assms in \<open>auto intro: world_intros\<close>)

lemma server_step_ok:
  assumes "server_step out urls client c c'" "server_ok out client c"
  shows "server_ok out client c'"
  using assms
  by (induction rule: server_step.induct)
    (auto simp: server_ok_def intro: world_intros dest: arrive_ok resume_ok)

lemma reachable_ok:
  assumes "reachable out urls client c"
  shows "server_ok out client c"
proof -
  from assms obtain x a b where
    "(server_step out urls client)\<^sup>*\<^sup>* (boot_world x a b, {#}) c" unfolding reachable_def by blast
  then show ?thesis
  proof (induction rule: rtranclp_induct)
    case base
    show ?case
      by (simp add: server_ok_def world_ok_def boot_world_def memory_store_def memory_flow_store_def
          store_all_new)
  next
    case (step c c')
    then show ?case by (blast intro: server_step_ok)
  qed
qed

section \<open>Every handler is a path\<close>

lemma path_step: "server_step out urls client c c' \<Longrightarrow> (server_step out urls client)\<^sup>*\<^sup>* c c'"
  by blast

lemma path_refl: "server_path out urls client w w ts"
  by blast

lemma resumed_path:
  "(server_step out urls client)\<^sup>*\<^sup>* (snd tw, add_mset (fst tw) ts)
     (snd ((resumed (memory_state out urls client) ^^ n) tw),
      add_mset (fst ((resumed (memory_state out urls client) ^^ n) tw)) ts)"
proof (induction n)
  case (Suc n)
  have "server_step out urls client (snd uw, add_mset (fst uw) ts)
      (snd (resumed (memory_state out urls client) uw), add_mset (fst (resumed (memory_state out urls client) uw)) ts)"
    for uw by (rule resumes) simp
  from rtranclp.rtrancl_into_rtrancl [OF Suc this] show ?case by simp
qed simp

text \<open>A request that runs from its arrival to its answer and leaves.\<close>

lemma run_path:
  "server_path out urls client w
     (snd (run_task (memory_state out urls client) (arrive (memory_state out urls client) a w))) ts"
proof -
  let ?oidc = "memory_state out urls client"
  have "server_step out urls client (w, ts) (snd (arrive ?oidc a w), add_mset (fst (arrive ?oidc a w)) ts)"
    by (rule arrives) simp
  also note resumed_path [of out urls client "arrive ?oidc a w" ts 5, folded run_task_def]
  also have "server_step out urls client (snd (run_task ?oidc (arrive ?oidc a w)),
      add_mset (fst (run_task ?oidc (arrive ?oidc a w))) ts) (snd (run_task ?oidc (arrive ?oidc a w)), ts)"
    by (rule leaves)
  finally show ?thesis .
qed

lemma login_path:
  assumes "login (memory_state out urls client) j params w = (r, w')"
  shows "server_path out urls client w w' ts"
  using run_path [of out urls client w _ "Login j params"] assms by (simp only: login_run snd_conv)

lemma callback_steps:
  assumes "callback (memory_state out urls client) j params w = (r, w')"
  shows "server_path out urls client w w' ts"
  using run_path [of out urls client w _ "Callback j params"] assms by (simp only: callback_run snd_conv)

lemma logout_steps:
  assumes "logout (memory_state out urls client) j headers w = (r, w')"
  shows "server_path out urls client w w' ts"
  using run_path [of out urls client w _ "Logout j headers"] assms by (simp only: logout_run snd_conv)

lemma resolve_session_steps:
  assumes "resolve_session (memory_state out urls client) j w = (res, w')"
  shows "server_path out urls client w w' ts"
  using run_path [of out urls client w _ "Resolve j"] assms
  by (simp only: resolve_session_run prod.case snd_conv)

lemma unauthenticated_steps:
  assumes "unauthenticated (memory_state out urls client) p j w = (r, w')"
  shows "server_path out urls client w w' ts"
  using run_path [of out urls client w _ "Refuse p j"] assms by (simp only: unauthenticated_run snd_conv)

lemma principal_extractor_steps:
  assumes "principal_from_request_parts (memory_state out urls client) p w = (res, w')"
  shows "server_path out urls client w w' ts"
proof -
  let ?oidc = "memory_state out urls client"
  obtain q w1 where q: "resolve_session ?oidc (jar_from_headers ?oidc p) w = (q, w1)" by fastforce
  with assms have "w' = w1 \<or> (\<exists>r. unauthenticated ?oidc p (jar_from_headers ?oidc p) w1 = (r, w'))"
    by (auto simp: principal_from_request_parts_def split: option.splits prod.splits)
  with resolve_session_steps [OF q] unauthenticated_steps show ?thesis by (blast intro: rtranclp_trans)
qed

definition behind :: "('x, 's, 'f, 'u) auth_providers \<Rightarrow> ('x, 's, 'f, 'u) oidc_state \<Rightarrow> bool" where
  "behind ps oidc \<longleftrightarrow> ap_oidc ps = None \<or> ap_oidc ps = Some oidc"

lemma bearer_context_steps:
  assumes "bearer_context bearer token w = (ctx, w')"
  shows "server_path out urls client w w' ts"
proof -
  from bearer_context_sessions [OF assms] have "w' = w\<lparr>wd_x := wd_x w'\<rparr>" by simp
  then show ?thesis using outside_moves by (metis path_step)
qed

lemma resolve_context_steps:
  assumes "resolve_context ps p w = (ctx, w')" "behind ps (memory_state out urls client)"
  shows "server_path out urls client w w' ts"
proof (cases "bearer_token (pt_headers p)")
  case (Some token)
  with assms(1) show ?thesis by (auto simp: resolve_context_def intro: bearer_context_steps)
next
  case none: None
  show ?thesis
  proof (cases "ap_oidc ps")
    case None
    with assms(1) none show ?thesis by (simp add: resolve_context_def)
  next
    case (Some oidc)
    with assms(2) have o: "oidc = memory_state out urls client" by (simp add: behind_def)
    obtain q w1 where q: "resolve_session oidc (jar_from_headers oidc p) w = (q, w1)" by fastforce
    with assms(1) none Some have "w' = w1"
      by (auto simp: resolve_context_def split: option.splits prod.splits)
    with resolve_session_steps [OF q [unfolded o]] show ?thesis by simp
  qed
qed

lemma middleware_steps:
  assumes "set_auth_context ps p w = (rq, actor, w')" "behind ps (memory_state out urls client)"
  shows "server_path out urls client w w' ts \<and> rq_providers rq = Some ps"
proof -
  obtain ctx w1 where c: "resolve_context ps p w = (ctx, w1)" by fastforce
  with assms(1) have "w' = w \<or> w' = w1" "rq_providers rq = Some ps"
    by (auto simp: set_auth_context_def split: if_splits)
  with resolve_context_steps [OF c assms(2)] show ?thesis by auto
qed

lemma refusal_steps:
  assumes "anonymous_response rq w = (r, w')" "rq_providers rq = Some ps"
    and "behind ps (memory_state out urls client)"
  shows "server_path out urls client w w' ts"
  using assms
  by (auto simp: anonymous_response_def login_redirect_def behind_def
      intro: unauthenticated_steps split: if_splits option.splits)

lemma gated_request_steps:
  assumes "gated_request ps check st p w = (res, w')" "behind ps (memory_state out urls client)"
  shows "server_path out urls client w w' ts"
proof -
  obtain rq actor w1 where m: "set_auth_context ps p w = (rq, actor, w1)" using prod_cases3 by blast
  with assms(1) have "w' = w1 \<or> (\<exists>r. anonymous_response rq w1 = (r, w'))"
    by (auto simp: gated_request_def extract_gated_by_def
        split: option.splits auth_context.splits sum.splits prod.splits)
  with middleware_steps [OF m assms(2)] refusal_steps [OF _ _ assms(2)] show ?thesis
    by (blast intro: rtranclp_trans)
qed

text \<open>A request to one of the routes, or to a gated handler or the \<open>Principal\<close> extractor behind them.\<close>

datatype web_request =
    LoginRequest jar "string \<Rightarrow> string option"
  | CallbackRequest jar "string \<Rightarrow> string option"
  | LogoutRequest jar "string \<Rightarrow> string option option"
  | PrincipalRequest parts
  | GatedRequest parts

fun serve ::
    "('x, 's, 'f, 'u) oidc_state \<Rightarrow> ('x, 's, 'f, 'u) auth_providers
     \<Rightarrow> (principal \<Rightarrow> 'st \<Rightarrow> denial + unit) \<Rightarrow> 'st \<Rightarrow> web_request \<Rightarrow> ('x, 's, 'f) world \<Rightarrow> ('x, 's, 'f) world" where
  "serve oidc ps check st (LoginRequest j params) w = snd (login oidc j params w)"
| "serve oidc ps check st (CallbackRequest j params) w = snd (callback oidc j params w)"
| "serve oidc ps check st (LogoutRequest j headers) w = snd (logout oidc j headers w)"
| "serve oidc ps check st (PrincipalRequest p) w = snd (principal_from_request_parts oidc p w)"
| "serve oidc ps check st (GatedRequest p) w = snd (gated_request ps check st p w)"

lemma serve_path:
  assumes "behind ps (memory_state out urls client)"
  shows "server_path out urls client w (serve (memory_state out urls client) ps check st q w) ts"
  using assms
  by (cases q) (auto intro: surjective_pairing login_path callback_steps logout_steps
      principal_extractor_steps gated_request_steps)

section \<open>Whom a session identifies\<close>

text \<open>
  What the IdP has to say, from a state \<open>x\<close> of the outside on, for a stored session \<open>se0\<close> to identify
  \<open>who\<close> with the tokens of \<open>se\<close>: it names \<open>who\<close> for the stored access token, and the session
  is the stored one; or it rejects that token, gives new tokens for the stored refresh token and names
  \<open>who\<close> for the new access token, and the session is the stored one with these tokens.
\<close>

definition identifies :: "'x outside \<Rightarrow> session \<Rightarrow> 'x \<Rightarrow> principal \<Rightarrow> session \<Rightarrow> bool" where
  "identifies out se0 x who se \<longleftrightarrow>
     se = se0 \<and> (\<exists>x'. xt_userinfo out (se_access_token se0) x = (Inr who, x'))
     \<or> (\<exists>why x1 rt tokens x2 x3. xt_userinfo out (se_access_token se0) x = (Inl (Rejected why), x1)
          \<and> se_refresh_token se0 = Some rt \<and> xt_refresh out rt x1 = (Inr tokens, x2)
          \<and> se = created_session tokens (se_created se0)
          \<and> xt_userinfo out (se_access_token se) x2 = (Inr who, x3))"

lemma refresh_session_identifies:
  assumes "refresh_session (memory_state out urls client) sid se0 w = (Some (who, se), w')"
  shows "\<exists>rt tokens x2 x3. se_refresh_token se0 = Some rt \<and> xt_refresh out rt (wd_x w) = (Inr tokens, x2)
    \<and> se = created_session tokens (se_created se0) \<and> xt_userinfo out (se_access_token se) x2 = (Inr who, x3)"
  using assms
  by (auto simp: refresh_session_def end_session_of_def created_session_def call_out_def sessions_put_def Let_def
      split: option.splits prod.splits sum.splits)

lemma resolve_session_identifies:
  assumes "resolve_session (memory_state out urls client) j w = (Some (who, se), w')"
  shows "\<exists>sid se0. jr_request j (oc_cookie_name (cl_config client)) = Some sid
    \<and> sessions_get (memory_state out urls client) sid w = Some se0 \<and> identifies out se0 (wd_x w) who se"
proof -
  let ?oidc = "memory_state out urls client"
  from assms obtain sid se0 where sid: "jr_request j (session_cookie ?oidc) = Some sid"
    "sessions_get ?oidc sid w = Some se0"
    by (auto simp: resolve_session_def split: option.splits)
  obtain p w1 where p: "call_out (xt_userinfo out (se_access_token se0)) w = (p, w1)" by fastforce
  from assms sid p have "p = Inr who \<and> se = se0
      \<or> (\<exists>why. p = Inl (Rejected why) \<and> refresh_session ?oidc sid se0 w1 = (Some (who, se), w'))"
    by (auto simp: resolve_session_def end_session_of_def split: sum.splits upstream.splits)
  with call_out_world [OF p] refresh_session_identifies [of out urls client sid se0 w1 who se w']
  have "identifies out se0 (wd_x w) who se" by (fastforce simp: identifies_def)
  with sid show ?thesis by (auto simp: session_cookie_def state_config_def)
qed

lemma identifies_issued:
  assumes "identifies out se0 x who se" "session_issued out client sid se0"
  shows "session_issued out client sid se"
  using assms refreshed_issued
  by (auto simp: identifies_def session_issued_def created_session_def intro: issued.refreshed)

section \<open>Properties\<close>

text \<open>C1: Who a session stands for, over any run of the server with any number of requests in flight. In
  every reachable configuration each stored session sits under an id this server drew (so no client
  ever chooses one) and holds tokens the IdP gave for the verifier of an authorize request this server
  made, or refreshed from such; each stored flow is under a drawn id, has the state and verifier of one
  authorize request, is marked interactive exactly when that request was, and leads to a path of this
  site. A request's cookie identifies nobody but the user of its session: if it resolves to a
  principal, it is the id of a stored session, the IdP, asked during this resolution about that
  session's token, or about the token refreshed from that session's, named this principal, and the
  session handed out is that session, or that session with the refreshed tokens. And every request in
  flight that was resolved to a principal has tokens of a login of this server for which the IdP named
  that principal.\<close>

theorem sessions_come_from_logins:
  assumes "reachable out urls client (w, ts)"
  shows "(\<forall>sid se. ex_entries (wd_sessions w) sid = Some se \<longrightarrow>
        drawn out sid \<and> issued out client (se_access_token se) (se_refresh_token se))
    \<and> (\<forall>fid flw. ex_entries (wd_flows w) fid = Some flw \<longrightarrow> flow_started out client fid flw)
    \<and> (case resolve_session (memory_state out urls client) j w of
         (Some (who, se), w') \<Rightarrow> \<exists>sid se0. jr_request j (oc_cookie_name (cl_config client)) = Some sid
           \<and> sessions_get (memory_state out urls client) sid w = Some se0
           \<and> identifies out se0 (wd_x w) who se
           \<and> drawn out sid \<and> issued out client (se_access_token se) (se_refresh_token se)
       | (None, w') \<Rightarrow> True)
    \<and> (\<forall>who se. Resolved (Some (who, se)) \<in># ts \<longrightarrow>
         issued out client (se_access_token se) (se_refresh_token se)
         \<and> (\<exists>x x'. xt_userinfo out (se_access_token se) x = (Inr who, x')))"
proof -
  from reachable_ok [OF assms] have ok: "world_ok out client w" "\<forall>t \<in># ts. task_ok out client t"
    by (simp_all add: server_ok_def)
  have "case resolve_session (memory_state out urls client) j w of
      (Some (who, se), w') \<Rightarrow> \<exists>sid se0. jr_request j (oc_cookie_name (cl_config client)) = Some sid
        \<and> sessions_get (memory_state out urls client) sid w = Some se0
        \<and> identifies out se0 (wd_x w) who se
        \<and> drawn out sid \<and> issued out client (se_access_token se) (se_refresh_token se)
    | (None, w') \<Rightarrow> True"
    using resolve_session_identifies [of out urls client j w] world_ok_session [OF ok(1), of urls]
      identifies_issued [of out]
    by (fastforce simp: session_issued_def split: option.split)
  with ok show ?thesis by (fastforce simp: world_ok_def store_all_def session_issued_def)
qed

text \<open>A login and its callback on the toy outside: the world they reach has a session.\<close>

theorem sessions_come_from_logins_witness:
  "\<exists>w sid se. reachable toy_outside toy_urls toy_client (w, {#}) \<and> ex_entries (wd_sessions w) sid = Some se
     \<and> drawn toy_outside sid \<and> issued toy_outside toy_client (se_access_token se) (se_refresh_token se)"
proof -
  let ?oidc = "memory_state toy_outside toy_urls toy_client"
  let ?w0 = "boot_world (5 :: nat) 100 10"
  obtain r1 w1 where l: "login ?oidc (browser_jar Map.empty) Map.empty ?w0 = (r1, w1)" by fastforce
  define ck1 where "ck1 = browser (rs_cookies r1) Map.empty"
  obtain r2 w2 where c: "callback ?oidc (browser_jar ck1) toy_params w1 = (r2, w2)" by fastforce
  have reach: "reachable toy_outside toy_urls toy_client (w2, {#})"
    unfolding reachable_def using rtranclp_trans [OF login_path [OF l] callback_steps [OF c]] by blast
  from login_step [OF l refl] obtain fid flw where
    flw: "ck1 FLOW_COOKIE = Some fid" "wd_flows w1 = st_put flow_ops (fl_created flw) fid flw (memory_flow_store 10)"
      "fl_state flw = ''s''" "fl_verifier flw = ''v''" "fl_created flw = xt_now toy_outside (wd_x w1)"
    unfolding ck1_def by (auto simp: toy_outside_def boot_world_def)
  have "others (xt_now toy_outside (wd_x w1)) fid []" by (simp add: others_def)
  from flow_served [OF this, of "fl_created flw" flw "memory_flow_store 10"] flw(2,5)
  have "flows_get ?oidc fid w1 = Some flw"
    by (simp add: flows_get_def now_of_def memory_flow_store_def expiring_new_def)
  from callback_step [OF c flw(1) this, of "''c''" "\<lparr>tb_access_token = ''good'', tb_refresh_token = None\<rparr>"
      "Suc (wd_x w1)"] flw(3,4) obtain sid se where
    "wd_sessions w2 = st_put session_ops (se_created se) sid se (wd_sessions w1)"
    by (auto simp: toy_params_def toy_outside_def)
  then have "ex_entries (wd_sessions w2) sid = Some se"
    by (simp add: session_ops_def memory_ops_def expiring_put_def)
  with sessions_come_from_logins [OF reach, of "browser_jar ck1"] reach show ?thesis by blast
qed

text \<open>C8: The steps are those of the code. Any sequence of requests to the routes and to gated handlers,
  each run to its end, is a path of the step relation, whatever else is in flight and left alone; so
  what holds of every reachable configuration holds after any such sequence.\<close>

theorem requests_refine_server_steps:
  assumes "behind ps (memory_state out urls client)"
  shows "(server_step out urls client)\<^sup>*\<^sup>* (w, ts)
    (fold (serve (memory_state out urls client) ps check st) requests w, ts)"
proof (induction requests arbitrary: w)
  case (Cons q qs)
  from serve_path [OF assms] Cons.IH show ?case unfolding fold_Cons comp_def by (rule rtranclp_trans)
qed simp

theorem requests_refine_server_steps_witness:
  "reachable toy_outside toy_urls toy_client
     (fold (serve (memory_state toy_outside toy_urls toy_client)
        (auth_providers_new (Some (memory_state toy_outside toy_urls toy_client)) None None) toy_open ())
        [LoginRequest (browser_jar Map.empty) Map.empty, GatedRequest (toy_request ''7'')]
        (boot_world 5 100 10), {#})"
proof -
  have "behind (auth_providers_new (Some (memory_state toy_outside toy_urls toy_client)) None None)
      (memory_state toy_outside toy_urls toy_client)"
    by (simp add: behind_def auth_providers_new_def)
  note path = requests_refine_server_steps [OF this]
  show ?thesis unfolding reachable_def by (intro exI) (rule path)
qed

end
