(* ===== verification/Oidc_Race.thy ===== *)
theory Oidc_Race
  imports Oidc_Server
begin

text \<open>
  Logout against the requests in flight, on the steps of \<open>Oidc_Server\<close>: when the session it removed
  stays removed, and the run in which a refresh in flight stores it again.
\<close>

section \<open>Who may store a session\<close>

text \<open>A task that may still store a session under the id: it has a refresh token of it, or the tokens.\<close>

fun may_store :: "string \<Rightarrow> task \<Rightarrow> bool" where
  "may_store i (AskUser sid se) = (sid = i \<and> se_refresh_token se \<noteq> None)"
| "may_store i (AskRefresh sid se rt) = (sid = i)"
| "may_store i (StoreRefreshed sid se) = (sid = i)"
| "may_store i t = False"

text \<open>The session is not stored, and nobody in flight may store it.\<close>

definition gone :: "string \<Rightarrow> 'x server \<Rightarrow> bool" where
  "gone i c \<longleftrightarrow> ex_entries (wd_sessions (fst c)) i = None \<and> (\<forall>t \<in># snd c. \<not> may_store i t)"

lemma entries_call: "call_out f w = (a, w') \<Longrightarrow> wd_sessions w' = wd_sessions w"
  by (auto dest: call_out_world)

lemma entries_new_id: "new_id oidc w = (i, w') \<Longrightarrow> wd_sessions w' = wd_sessions w"
  by (auto dest: new_id_world)

lemma entries_removed:
  "ex_entries (wd_sessions w) i = None \<Longrightarrow>
   ex_entries (wd_sessions (sessions_remove (memory_state out urls client) sid w)) i = None"
  by (simp add: sessions_remove_def session_ops_def memory_ops_def expiring_remove_def)

lemma entries_put:
  "ex_entries (wd_sessions w) i = None \<Longrightarrow> sid \<noteq> i \<Longrightarrow>
   ex_entries (wd_sessions (sessions_put (memory_state out urls client) sid se w)) i = None"
  by (simp add: sessions_put_def session_ops_def memory_ops_def expiring_put_def)

lemma entries_flows_removed:
  "wd_sessions (flows_remove oidc fid w) = wd_sessions w"
  by (simp add: flows_remove_def)

lemma gone_get:
  assumes "ex_entries (wd_sessions w) i = None"
  shows "sessions_get (memory_state out urls client) i w = None"
  using assms by (simp add: sessions_get_def session_ops_def memory_ops_def expiring_get_def)

lemma arrive_gone:
  assumes "arrive (memory_state out urls client) a w = (t, w')" "ex_entries (wd_sessions w) i = None"
  shows "ex_entries (wd_sessions w') i = None \<and> \<not> may_store i t"
proof (cases a)
  case (Login j params)
  with assms show ?thesis
    by (cases "login (memory_state out urls client) j params w")
      (auto simp: login_def Let_def dest: start_login_sessions)
next
  case (Callback j params)
  with assms show ?thesis
    by (auto simp: callback_arrives_def Let_def dest: start_login_sessions
        split: option.splits prod.splits if_splits)
next
  case (Logout j headers)
  with assms show ?thesis
    by (auto simp: logout_def Let_def intro: entries_removed split: option.splits if_splits)
next
  case (Resolve j)
  with assms show ?thesis by (auto simp: resolve_arrives_def gone_get split: option.splits)
next
  case (Refuse p j)
  with assms show ?thesis
    by (cases "unauthenticated (memory_state out urls client) p j w")
      (auto simp: unauthenticated_def dest: start_login_sessions split: if_splits)
qed

lemma resume_gone:
  assumes "resume (memory_state out urls client) t w = (t', w')" "ex_entries (wd_sessions w) i = None"
    and "\<not> may_store i t" "fst (new_id (memory_state out urls client) w) \<noteq> i"
  shows "ex_entries (wd_sessions w') i = None \<and> \<not> may_store i t'"
  using assms
  by (cases t)
    (auto simp: entries_flows_removed intro: entries_removed entries_put
      dest!: entries_call entries_new_id start_login_sessions
      split: prod.splits sum.splits upstream.splits option.splits if_splits)

text \<open>Steps in which the random source does not give the id again.\<close>

abbreviation step_avoiding ::
    "'x outside \<Rightarrow> 'u url_ops \<Rightarrow> 'u oidc_client \<Rightarrow> string \<Rightarrow> 'x server \<Rightarrow> 'x server \<Rightarrow> bool" where
  "step_avoiding out urls client i c c' \<equiv>
     server_step out urls client c c' \<and> fst (new_id (memory_state out urls client) (fst c)) \<noteq> i"

lemma gone_step:
  assumes "step_avoiding out urls client i c c'" "gone i c"
  shows "gone i c'"
proof -
  from assms(1) have "server_step out urls client c c'" by simp
  then show ?thesis
  proof cases
    case (arrives a w t w' ts)
    with assms(2) arrive_gone [OF arrives(3), of i] show ?thesis by (auto simp: gone_def)
  next
    case (resumes t w t' w' ts)
    with assms resume_gone [OF resumes(3), of i] show ?thesis by (auto simp: gone_def)
  qed (use assms(2) in \<open>auto simp: gone_def\<close>)
qed

lemma gone_path:
  assumes "(step_avoiding out urls client i)\<^sup>*\<^sup>* c c'" "gone i c"
  shows "gone i c'"
  using assms
proof (induction rule: rtranclp_induct)
  case (step c1 c2)
  with gone_step [OF step(2)] show ?case by blast
qed

text \<open>An accepted logout removes the session its cookie names, and touches nothing else.\<close>

lemma logout_accepted:
  assumes "logout (memory_state out urls client) j headers w = (r, w')" "rs_status r = 303"
    and "jr_request j (session_cookie (memory_state out urls client)) = Some sid"
  shows "w' = sessions_remove (memory_state out urls client) sid w"
  using assms by (auto simp: logout_def Let_def status_response_def split: if_splits)

lemma removed_entry:
  "ex_entries (wd_sessions (sessions_remove (memory_state out urls client) sid w)) sid = None"
  by (simp add: sessions_remove_def session_ops_def memory_ops_def expiring_remove_def)

section \<open>Properties\<close>

text \<open>C6: Without a refresh token in flight, logout is final. After a logout that was accepted, whatever
  requests were in flight and come in later, in any order of their steps: as long as no request in
  flight at the logout still holds a refresh token of the session or its refreshed tokens, and the
  random source does not give the session's id again, the session is not served, and a request with
  its cookie is resolved to nobody, without asking the IdP.\<close>

theorem logout_final_without_refresh:
  assumes "logout (memory_state out urls client) j headers w = (r, w1)" "rs_status r = 303"
    and "jr_request j (oc_cookie_name (cl_config client)) = Some sid"
    and "\<forall>t \<in># ts. \<not> may_store sid t"
    and "(step_avoiding out urls client sid)\<^sup>*\<^sup>* (w1, ts) (w2, ts2)"
    and "jr_request j2 (oc_cookie_name (cl_config client)) = Some sid"
  shows "sessions_get (memory_state out urls client) sid w2 = None
    \<and> resolve_session (memory_state out urls client) j2 w2 = (None, w2)"
proof -
  from assms(3,6) have cookie: "jr_request j (session_cookie (memory_state out urls client)) = Some sid"
    "jr_request j2 (session_cookie (memory_state out urls client)) = Some sid"
    by (simp_all add: session_cookie_def state_config_def)
  have "gone sid (w1, ts)"
    using assms(4) removed_entry by (simp add: gone_def logout_accepted [OF assms(1,2) cookie(1)])
  from gone_path [OF assms(5) this] have "sessions_get (memory_state out urls client) sid w2 = None"
    by (simp add: gone_def gone_get)
  with cookie(2) show ?thesis by (simp add: resolve_session_def)
qed

text \<open>
  On the toy outside: a request waits for the IdP about the session \<open>a\<close>, which has no refresh token;
  the user logs out; the IdP rejects the token and the request ends.
\<close>

definition race_session :: "string option \<Rightarrow> session" where
  "race_session rt = \<lparr>se_access_token = ''old'', se_refresh_token = rt, se_created = 5\<rparr>"

definition race_world :: "string option \<Rightarrow> (nat, session expiring, flow_state expiring) world" where
  "race_world rt = toy_world\<lparr>wd_sessions := st_put session_ops 5 ''a'' (race_session rt) (memory_store 10)\<rparr>"

definition race_headers :: "string \<Rightarrow> string option option" where
  "race_headers = [''sec-fetch-site'' \<mapsto> Some ''same-origin'']"

lemma race_cookie [simp]: "jr_request (toy_jar ''sess'' ''a'') (oc_cookie_name (cl_config toy_client)) = Some ''a''"
  by (simp add: toy_jar_def toy_client_def oidc_config_new_def)

lemma race_logout:
  "\<exists>r. logout (memory_state out urls toy_client) (toy_jar ''sess'' ''a'') race_headers w
      = (r, sessions_remove (memory_state out urls toy_client) ''a'' w) \<and> rs_status r = 303"
  by (simp add: logout_def from_this_site_def header_str_def race_headers_def session_cookie_def
      state_config_def redirect_response_def Let_def)

theorem logout_final_without_refresh_witness:
  "\<exists>r w1 w2. logout (memory_state toy_outside toy_urls toy_client) (toy_jar ''sess'' ''a'') race_headers
      (race_world None) = (r, w1)
     \<and> server_step toy_outside toy_urls toy_client (w1, {#AskUser ''a'' (race_session None)#})
         (w2, {#EndSession ''a''#})
     \<and> resolve_session (memory_state toy_outside toy_urls toy_client) (toy_jar ''sess'' ''a'') w2 = (None, w2)"
proof -
  let ?oidc = "memory_state toy_outside toy_urls toy_client"
  define w1 where "w1 = sessions_remove ?oidc ''a'' (race_world None)"
  define w2 where "w2 = w1\<lparr>wd_x := Suc (wd_x w1)\<rparr>"
  from race_logout [of toy_outside toy_urls "race_world None"] obtain r where
    r: "logout ?oidc (toy_jar ''sess'' ''a'') race_headers (race_world None) = (r, w1)" "rs_status r = 303"
    unfolding w1_def by blast
  have "resume ?oidc (AskUser ''a'' (race_session None)) w1 = (EndSession ''a'', w2)"
    by (simp add: call_out_def toy_outside_def race_session_def w2_def)
  then have s: "server_step toy_outside toy_urls toy_client
      (w1, add_mset (AskUser ''a'' (race_session None)) {#}) (w2, add_mset (EndSession ''a'') {#})"
    by (rule resumes)
  have "fst (new_id ?oidc w1) \<noteq> ''a''"
    by (simp add: new_id_def call_out_def toy_outside_def w1_def race_world_def toy_world_def sessions_remove_def
        show_nat.simps [of 5] show_nat.simps [of 6] digit_char_def)
  with s have "(step_avoiding toy_outside toy_urls toy_client ''a'')\<^sup>*\<^sup>*
      (w1, {#AskUser ''a'' (race_session None)#}) (w2, {#EndSession ''a''#})" by auto
  from logout_final_without_refresh [OF r race_cookie _ this race_cookie] r(1) s
  show ?thesis by (auto simp: race_session_def)
qed

text \<open>C7: With a refresh token in flight it is not. A request finds a stored session with a refresh
  token; the IdP rejects its access token and gives new tokens. If the user now logs out, with the
  same cookie, the logout is accepted and the session is gone. But the next step of the request in
  flight stores it again, with the new tokens, and as long as it is within its age a later request with
  the cookie of the logged-out session is taken for the user the IdP names for the new token.\<close>

theorem logout_can_be_undone_by_refresh:
  assumes "jr_request j (oc_cookie_name (cl_config client)) = Some sid"
    and "sessions_get (memory_state out urls client) sid w = Some se" "se_refresh_token se = Some rt"
    and "xt_userinfo out (se_access_token se) (wd_x w) = (Inl (Rejected why), x1)"
    and "xt_refresh out rt x1 = (Inr tokens, x2)"
    and "xt_now out x2 < se_created se + ex_max_age (wd_sessions w)"
    and "logout (memory_state out urls client) j headers (w\<lparr>wd_x := x2\<rparr>) = (r, w1)" "rs_status r = 303"
    and "xt_userinfo out (tb_access_token tokens) x2 = (Inr who, x3)"
  shows "\<exists>w2. (server_step out urls client)\<^sup>*\<^sup>* (w, ts)
        (w\<lparr>wd_x := x2\<rparr>, add_mset (StoreRefreshed sid (created_session tokens (se_created se))) ts)
    \<and> server_step out urls client
        (w\<lparr>wd_x := x2\<rparr>, add_mset (StoreRefreshed sid (created_session tokens (se_created se))) ts)
        (w1, add_mset (Answered r) (add_mset (StoreRefreshed sid (created_session tokens (se_created se))) ts))
    \<and> sessions_get (memory_state out urls client) sid w1 = None
    \<and> server_step out urls client
        (w1, add_mset (Answered r) (add_mset (StoreRefreshed sid (created_session tokens (se_created se))) ts))
        (w2, add_mset (Answered r) (add_mset (AskAgain sid (created_session tokens (se_created se))) ts))
    \<and> resolve_session (memory_state out urls client) j w2
        = (Some (who, created_session tokens (se_created se)), w2\<lparr>wd_x := x3\<rparr>)"
proof -
  let ?oidc = "memory_state out urls client" and ?sp = "server_step out urls client"
  let ?se = "created_session tokens (se_created se)"
  from assms(1) have cookie: "jr_request j (session_cookie ?oidc) = Some sid"
    by (simp add: session_cookie_def state_config_def)
  define w2 where "w2 = sessions_put ?oidc sid ?se w1"
  have "?sp\<^sup>*\<^sup>* (w, ts) (w, add_mset (AskUser sid se) ts)"
    by (rule path_step, rule arrives [where a = "Resolve j"]) (simp add: resolve_arrives_def cookie assms(2))
  also have "?sp (w, add_mset (AskUser sid se) ts) (w\<lparr>wd_x := x1\<rparr>, add_mset (AskRefresh sid se rt) ts)"
    by (rule resumes) (simp add: call_out_def assms(3,4))
  also have "?sp (w\<lparr>wd_x := x1\<rparr>, add_mset (AskRefresh sid se rt) ts)
      (w\<lparr>wd_x := x2\<rparr>, add_mset (StoreRefreshed sid ?se) ts)"
    by (rule resumes) (simp add: call_out_def assms(5))
  finally have one: "?sp\<^sup>*\<^sup>* (w, ts) (w\<lparr>wd_x := x2\<rparr>, add_mset (StoreRefreshed sid ?se) ts)" .
  have two: "?sp (w\<lparr>wd_x := x2\<rparr>, add_mset (StoreRefreshed sid ?se) ts)
      (w1, add_mset (Answered r) (add_mset (StoreRefreshed sid ?se) ts))"
    by (rule arrives [where a = "Logout j headers"]) (simp add: assms(7))
  note w1 = logout_accepted [OF assms(7,8) cookie]
  have "?sp (w1, add_mset (StoreRefreshed sid ?se) (add_mset (Answered r) ts))
      (w2, add_mset (AskAgain sid ?se) (add_mset (Answered r) ts))"
    by (rule resumes) (simp add: w2_def)
  then have three: "?sp (w1, add_mset (Answered r) (add_mset (StoreRefreshed sid ?se) ts))
      (w2, add_mset (Answered r) (add_mset (AskAgain sid ?se) ts))"
    by (simp only: add_mset_commute)
  have x: "wd_x w2 = x2" by (simp add: w2_def w1 sessions_put_def sessions_remove_def)
  have "sessions_get ?oidc sid w2 = Some ?se"
    using assms(6) by (simp add: sessions_get_def w2_def w1 sessions_put_def sessions_remove_def now_of_def
        session_ops_def memory_ops_def expiring_get_def expiring_put_def expiring_remove_def live_iff
        created_session_def)
  then have "resolve_session ?oidc j w2 = (Some (who, ?se), w2\<lparr>wd_x := x3\<rparr>)"
    by (simp add: resolve_session_def cookie call_out_def x created_session_def assms(9))
  with one two three gone_get [OF removed_entry] w1 show ?thesis by blast
qed

text \<open>The IdP rejects \<open>old\<close> and gives \<open>good\<close> for the refresh token \<open>rt\<close>.\<close>

definition race_outside :: "nat outside" where
  "race_outside = toy_outside\<lparr>xt_refresh :=
     (\<lambda>rt x. (if rt = ''rt'' then Inr \<lparr>tb_access_token = ''good'', tb_refresh_token = None\<rparr>
              else Inl (Rejected ''revoked''), Suc x))\<rparr>"

theorem logout_can_be_undone_by_refresh_witness:
  "\<exists>w2. sessions_get (memory_state race_outside toy_urls toy_client) ''a''
       (sessions_remove (memory_state race_outside toy_urls toy_client) ''a''
          ((race_world (Some ''rt''))\<lparr>wd_x := 7\<rparr>)) = None
     \<and> resolve_session (memory_state race_outside toy_urls toy_client) (toy_jar ''sess'' ''a'') w2
       = (Some (\<lparr>pr_username = ''alice'', pr_groups = []\<rparr>,
                \<lparr>se_access_token = ''good'', se_refresh_token = None, se_created = 5\<rparr>), w2\<lparr>wd_x := 8\<rparr>)"
proof -
  let ?oidc = "memory_state race_outside toy_urls toy_client"
  let ?tokens = "\<lparr>tb_access_token = ''good'', tb_refresh_token = None\<rparr>"
  have get: "sessions_get ?oidc ''a'' (race_world (Some ''rt'')) = Some (race_session (Some ''rt''))"
    by (simp add: sessions_get_def race_world_def now_of_def toy_world_def race_outside_def toy_outside_def
        sessions.get_put_same live_iff memory_store_def expiring_new_def race_session_def)
  from race_logout [of race_outside toy_urls "(race_world (Some ''rt''))\<lparr>wd_x := 7\<rparr>"] obtain r where
    r: "logout ?oidc (toy_jar ''sess'' ''a'') race_headers ((race_world (Some ''rt''))\<lparr>wd_x := 7\<rparr>)
      = (r, sessions_remove ?oidc ''a'' ((race_world (Some ''rt''))\<lparr>wd_x := 7\<rparr>))" "rs_status r = 303" by blast
  have ask: "xt_userinfo race_outside (se_access_token (race_session (Some ''rt''))) (wd_x (race_world (Some ''rt'')))
      = (Inl (Rejected ''expired''), 6)"
    by (simp add: race_outside_def toy_outside_def race_session_def race_world_def toy_world_def)
  have refresh: "xt_refresh race_outside ''rt'' 6 = (Inr ?tokens, 7)" by (simp add: race_outside_def)
  have now: "xt_now race_outside 7 < se_created (race_session (Some ''rt''))
      + ex_max_age (wd_sessions (race_world (Some ''rt'')))"
    by (simp add: race_outside_def toy_outside_def race_session_def race_world_def session_ops_def
        memory_ops_def expiring_put_def memory_store_def expiring_new_def)
  have named: "xt_userinfo race_outside (tb_access_token ?tokens) 7
      = (Inr \<lparr>pr_username = ''alice'', pr_groups = []\<rparr>, 8)"
    by (simp add: race_outside_def toy_outside_def)
  have rt: "se_refresh_token (race_session (Some ''rt'')) = Some ''rt''" by (simp add: race_session_def)
  from logout_can_be_undone_by_refresh [OF race_cookie get rt ask refresh now r named] show ?thesis
    by (auto simp: created_session_def race_session_def)
qed

end
