(* ===== verification/Name_Renames.thy ===== *)
theory Name_Renames
  imports Config_Derive
begin

text \<open>
  \<open>crates/names\<close> and \<open>crates/names-derive\<close>: the rename feed (\<open>feed.rs\<close>), its application to
  name columns (\<open>apply.rs\<close>), the cycle that applies and advances the cursor in one transaction
  (\<open>sync.rs\<close>), and the derive of a row struct's targets. SQLite is the record \<open>sql_ops\<close> over an
  abstract database: a statement's text and bound values to an error or the rows changed.
\<close>

section \<open>lib.rs and feed.rs\<close>

datatype name_kind = User | Group

record name_target =
  nt_table :: string
  nt_column :: string
  nt_kind :: name_kind

record rename =
  rn_old :: string
  rn_current :: string

record name_deltas =
  nd_now :: string
  nd_users :: "rename list"
  nd_groups :: "rename list"

definition deltas_empty :: "name_deltas \<Rightarrow> bool" where
  "deltas_empty d \<longleftrightarrow> nd_users d = [] \<and> nd_groups d = []"

record name_feed =
  nf_base_url :: string
  nf_token :: string

definition feed_new :: "string \<Rightarrow> string \<Rightarrow> name_feed" where
  "feed_new base_url token = \<lparr>nf_base_url = trim_end_char (CHR ''/'') base_url, nf_token = token\<rparr>"

text \<open>A GET with its headers and query: the transport's error, or status, its text, and the body.\<close>

record feed_answer =
  fa_status :: nat
  fa_status_text :: string
  fa_text :: string
  fa_json :: "string + name_deltas"

record feed_request =
  fq_url :: string
  fq_authorization :: string
  fq_query :: "(string \<times> string) list"

definition feed_request_of :: "name_feed \<Rightarrow> string option \<Rightarrow> feed_request" where
  "feed_request_of f since =
     \<lparr>fq_url = nf_base_url f @ ''/api/v3/forest_school/name_changes/'',
      fq_authorization = ''Bearer '' @ nf_token f,
      fq_query = (case since of Some s \<Rightarrow> [(''since'', s)] | None \<Rightarrow> [])\<rparr>"

definition changes_since ::
    "(feed_request \<Rightarrow> string + feed_answer) \<Rightarrow> name_feed \<Rightarrow> string option \<Rightarrow> string + name_deltas" where
  "changes_since send f since =
     (let rq = feed_request_of f since in
      and_then (map_err (\<lambda>e. ''name feed unreachable ('' @ fq_url rq @ ''): '' @ e) (send rq)) (\<lambda>resp.
        if \<not> (200 \<le> fa_status resp \<and> fa_status resp < 300)
        then Inl (''name feed returned '' @ fa_status_text resp @ '': '' @ fa_text resp)
        else map_err (\<lambda>e. ''name feed returned an invalid payload: '' @ e) (fa_json resp)))"

section \<open>apply.rs\<close>

record 'd sql_ops =
  sq_execute :: "string \<Rightarrow> string list \<Rightarrow> 'd \<Rightarrow> (string + nat) \<times> 'd"
  sq_cursor :: "string \<Rightarrow> 'd \<Rightarrow> string + string option"
  sq_begin :: "'d \<Rightarrow> string option"
  sq_commit :: "'d \<Rightarrow> string option"

definition update_sql :: "name_target \<Rightarrow> string" where
  "update_sql t =
     ''UPDATE '' @ nt_table t @ '' SET '' @ nt_column t @ '' = ? WHERE '' @ nt_column t @ '' = ?''"

fun apply_renames ::
    "'d sql_ops \<Rightarrow> name_target \<Rightarrow> rename list \<Rightarrow> nat \<Rightarrow> 'd \<Rightarrow> (string + nat) \<times> 'd" where
  "apply_renames sql t [] changed d = (Inr changed, d)"
| "apply_renames sql t (r # rs) changed d =
     (case sq_execute sql (update_sql t) [rn_current r, rn_old r] d of
        (Inl e, d) \<Rightarrow>
          (Inl (''renaming '' @ nt_table t @ ''.'' @ nt_column t @ '' '' @ rn_old r @ '' -> ''
             @ rn_current r @ '': '' @ e), d)
      | (Inr n, d) \<Rightarrow> apply_renames sql t rs (changed + n) d)"

definition renames_of :: "name_deltas \<Rightarrow> name_kind \<Rightarrow> rename list" where
  "renames_of deltas k = (case k of User \<Rightarrow> nd_users deltas | Group \<Rightarrow> nd_groups deltas)"

fun apply_targets ::
    "'d sql_ops \<Rightarrow> name_target list \<Rightarrow> name_deltas \<Rightarrow> nat \<Rightarrow> 'd \<Rightarrow> (string + nat) \<times> 'd" where
  "apply_targets sql [] deltas changed d = (Inr changed, d)"
| "apply_targets sql (t # ts) deltas changed d =
     (if renames_of deltas (nt_kind t) = [] then apply_targets sql ts deltas changed d
      else (case apply_renames sql t (renames_of deltas (nt_kind t)) changed d of
              (Inl e, d) \<Rightarrow> (Inl e, d)
            | (Inr changed, d) \<Rightarrow> apply_targets sql ts deltas changed d))"

definition apply_column_renames ::
    "'d sql_ops \<Rightarrow> name_target list \<Rightarrow> name_deltas \<Rightarrow> 'd \<Rightarrow> (string + nat) \<times> 'd" where
  "apply_column_renames sql targets deltas d = apply_targets sql targets deltas 0 d"

section \<open>sync.rs\<close>

definition OVERLAP :: nat where
  "OVERLAP = 5 * 60"

definition store_cursor_sql :: string where
  "store_cursor_sql =
     ''INSERT INTO name_sync_cursor (id, cursor) VALUES (1, ?) '' @
     ''ON CONFLICT(id) DO UPDATE SET cursor = excluded.cursor''"

definition load_cursor_sql :: string where
  "load_cursor_sql = ''SELECT cursor FROM name_sync_cursor WHERE id = 1''"

definition ensure_cursor_sql :: string where
  "ensure_cursor_sql =
     ''CREATE TABLE IF NOT EXISTS name_sync_cursor '' @
     ''(id INTEGER PRIMARY KEY CHECK (id = 1), cursor TEXT NOT NULL)''"

definition ensure_cursor_table :: "'d sql_ops \<Rightarrow> 'd \<Rightarrow> (string + unit) \<times> 'd" where
  "ensure_cursor_table sql d =
     (case sq_execute sql ensure_cursor_sql [] d of (r, d) \<Rightarrow> (map_ok (\<lambda>_. ()) r, d))"

definition load_cursor :: "'d sql_ops \<Rightarrow> 'd \<Rightarrow> string + string option" where
  "load_cursor sql d = sq_cursor sql load_cursor_sql d"

definition store_cursor :: "'d sql_ops \<Rightarrow> string \<Rightarrow> 'd \<Rightarrow> (string + unit) \<times> 'd" where
  "store_cursor sql cursor d =
     (case sq_execute sql store_cursor_sql [cursor] d of (r, d) \<Rightarrow> (map_ok (\<lambda>_. ()) r, d))"

text \<open>\<open>parse\<close> reads RFC 3339 to seconds, \<open>format\<close> writes it; both can fail.\<close>

definition overlapped :: "(string \<Rightarrow> int option) \<Rightarrow> (int \<Rightarrow> string option) \<Rightarrow> string \<Rightarrow> string option" where
  "overlapped parse_time format_time cursor =
     Option.bind (parse_time cursor) (\<lambda>at. format_time (at - int OVERLAP))"

text \<open>
  The transaction works on a copy: an early return drops it, and the database is the one before.
  \<open>apply_fn\<close> is the consumer's \<open>Apply\<close>.
\<close>

definition commit_cycle ::
    "'d sql_ops \<Rightarrow> (name_deltas \<Rightarrow> 'd \<Rightarrow> (string + unit) \<times> 'd) \<Rightarrow> name_deltas \<Rightarrow> 'd
     \<Rightarrow> (string + unit) \<times> 'd" where
  "commit_cycle sql apply_fn deltas d =
     (case sq_begin sql d of
        Some e \<Rightarrow> (Inl e, d)
      | None \<Rightarrow>
          (case (if deltas_empty deltas then (Inr (), d) else apply_fn deltas d) of
             (Inl e, _) \<Rightarrow> (Inl e, d)
           | (Inr _, tx) \<Rightarrow>
               (case store_cursor sql (nd_now deltas) tx of
                  (Inl e, _) \<Rightarrow> (Inl e, d)
                | (Inr _, tx) \<Rightarrow>
                    (case sq_commit sql tx of Some e \<Rightarrow> (Inl e, d) | None \<Rightarrow> (Inr (), tx)))))"

definition since_of ::
    "(string \<Rightarrow> int option) \<Rightarrow> (int \<Rightarrow> string option) \<Rightarrow> string option \<Rightarrow> string option" where
  "since_of parse_time format_time since =
     map_option (\<lambda>cursor. case overlapped parse_time format_time cursor of
         Some earlier \<Rightarrow> earlier | None \<Rightarrow> cursor) since"

text \<open>One cycle; \<open>fetch\<close> is \<open>changes_since\<close> on the configured feed, as it answers this time.\<close>

definition run_cycle ::
    "'d sql_ops \<Rightarrow> (string \<Rightarrow> int option) \<Rightarrow> (int \<Rightarrow> string option)
     \<Rightarrow> (name_deltas \<Rightarrow> 'd \<Rightarrow> (string + unit) \<times> 'd) \<Rightarrow> (string option \<Rightarrow> string + name_deltas) \<Rightarrow> 'd
     \<Rightarrow> (string + unit) \<times> 'd" where
  "run_cycle sql parse_time format_time apply_fn fetch d =
     (case ensure_cursor_table sql d of
        (Inl e, d) \<Rightarrow> (Inl e, d)
      | (Inr _, d) \<Rightarrow>
          (case load_cursor sql d of
             Inl e \<Rightarrow> (Inl e, d)
           | Inr since \<Rightarrow>
               (case fetch (since_of parse_time format_time since) of
                  Inl e \<Rightarrow> (Inl e, d)
                | Inr deltas \<Rightarrow> commit_cycle sql apply_fn deltas d)))"

text \<open>\<open>spawn\<close>: a cycle at every tick, an error ending the cycle only; one \<open>fetch\<close> per tick.\<close>

fun sync_loop ::
    "'d sql_ops \<Rightarrow> (string \<Rightarrow> int option) \<Rightarrow> (int \<Rightarrow> string option)
     \<Rightarrow> (name_deltas \<Rightarrow> 'd \<Rightarrow> (string + unit) \<times> 'd) \<Rightarrow> (string option \<Rightarrow> string + name_deltas) list \<Rightarrow> 'd
     \<Rightarrow> 'd" where
  "sync_loop sql pt ft apply_fn [] d = d"
| "sync_loop sql pt ft apply_fn (fetch # fetches) d =
     sync_loop sql pt ft apply_fn fetches (snd (run_cycle sql pt ft apply_fn fetch d))"

section \<open>names-derive\<close>

record names_field =
  nm_ident :: string
  nm_attrs :: "(string \<times> meta list) list"

record names_input =
  ni_attrs :: "(string \<times> meta list) list"
  ni_fields :: "names_field list option"

definition metas_of :: "string \<Rightarrow> (string \<times> meta list) list \<Rightarrow> meta list" where
  "metas_of path attrs = concat (map snd (filter (\<lambda>(p, _). p = path) attrs))"

definition table_meta :: "meta \<Rightarrow> string option \<Rightarrow> string + string option" where
  "table_meta m r =
     (case m of
        MetaStr k s \<Rightarrow> if k = ''table'' then Inr (Some s)
                       else Inl ''unknown #[names] key on a struct: expected `table`''
      | MetaFlag k \<Rightarrow> if k = ''table'' then Inl ''expected `=`''
                      else Inl ''unknown #[names] key on a struct: expected `table`''
      | MetaOther k \<Rightarrow> if k = ''table'' then Inl ''expected string literal''
                       else Inl ''unknown #[names] key on a struct: expected `table`'')"

definition table_attr :: "names_input \<Rightarrow> string + string" where
  "table_attr input =
     and_then (fold_metas table_meta (metas_of ''names'' (ni_attrs input)) None)
       (ok_or (''#[derive(NameColumns)] needs #[names(table = '' @ debug_str ellipsis
               @ '')] naming the SQL table''))"

definition kind_meta :: "meta \<Rightarrow> name_kind option \<Rightarrow> string + name_kind option" where
  "kind_meta m r =
     (case m of
        MetaFlag k \<Rightarrow>
          if k = ''user'' then Inr (Some User)
          else if k = ''group'' then Inr (Some Group)
          else Inl ''unknown #[name] kind on a field: expected `user` or `group`''
      | MetaStr k _ \<Rightarrow> if k \<in> {''user'', ''group''} then Inl ''expected `,`''
                       else Inl ''unknown #[name] kind on a field: expected `user` or `group`''
      | MetaOther k \<Rightarrow> if k \<in> {''user'', ''group''} then Inl ''expected `,`''
                       else Inl ''unknown #[name] kind on a field: expected `user` or `group`'')"

definition field_kind :: "names_field \<Rightarrow> string + name_kind option" where
  "field_kind f = fold_metas kind_meta (metas_of ''name'' (nm_attrs f)) None"

definition names_expand :: "names_input \<Rightarrow> string + name_target list" where
  "names_expand input =
     and_then (table_attr input) (\<lambda>table.
       case ni_fields input of
         None \<Rightarrow> Inl ''#[derive(NameColumns)] needs a struct with named fields''
       | Some fs \<Rightarrow>
           map_ok concat (traverse (\<lambda>f. map_ok (\<lambda>k. case k of
               None \<Rightarrow> []
             | Some kind \<Rightarrow> [\<lparr>nt_table = table, nt_column = nm_ident f, nt_kind = kind\<rparr>])
             (field_kind f)) fs))"

section \<open>What renames do to a column\<close>

fun chase :: "rename list \<Rightarrow> string \<Rightarrow> string" where
  "chase [] v = v"
| "chase (r # rs) v = chase rs (if v = rn_old r then rn_current r else v)"

text \<open>How many of the updates hit a value.\<close>

fun hops :: "rename list \<Rightarrow> string \<Rightarrow> nat" where
  "hops [] v = 0"
| "hops (r # rs) v = (if v = rn_old r then Suc (hops rs (rn_current r)) else hops rs v)"

lemma chase_fixed: "v \<notin> rn_old ` set rs \<Longrightarrow> chase rs v = v"
  by (induction rs) auto

lemma chase_range: "chase rs v = v \<or> chase rs v \<in> rn_current ` set rs"
  by (induction rs arbitrary: v) auto

lemma chase_not_old:
  assumes "rn_old ` set rs \<inter> rn_current ` set rs = {}"
  shows "chase rs v \<notin> rn_old ` set rs"
  using assms
proof (induction rs arbitrary: v)
  case (Cons r rs)
  let ?v = "if v = rn_old r then rn_current r else v"
  from Cons have ih: "chase rs ?v \<notin> rn_old ` set rs" by auto
  have "chase rs ?v \<noteq> rn_old r"
    using chase_range [of rs ?v] Cons.prems by auto
  with ih show ?case by simp
qed simp

text \<open>The same renames on every value of the columns a list of targets names.\<close>

type_synonym columns = "string \<Rightarrow> string \<Rightarrow> string list"

definition rename_column :: "name_target \<Rightarrow> rename list \<Rightarrow> columns \<Rightarrow> columns" where
  "rename_column t rs cols = (\<lambda>tab c.
     if tab = nt_table t \<and> c = nt_column t then map (chase rs) (cols tab c) else cols tab c)"

definition rename_columns :: "name_target list \<Rightarrow> name_deltas \<Rightarrow> columns \<Rightarrow> columns" where
  "rename_columns ts deltas = fold (\<lambda>t. rename_column t (renames_of deltas (nt_kind t))) ts"

definition target_key :: "name_target \<Rightarrow> string \<times> string" where
  "target_key t = (nt_table t, nt_column t)"

lemma rename_columns_other:
  "(tab, c) \<notin> target_key ` set ts \<Longrightarrow> rename_columns ts deltas cols tab c = cols tab c"
  unfolding rename_columns_def
  by (induction ts arbitrary: cols) (auto simp: rename_column_def target_key_def)

lemma rename_columns_target:
  assumes "distinct (map target_key ts)" "t \<in> set ts"
  shows "rename_columns ts deltas cols (nt_table t) (nt_column t) =
    map (chase (renames_of deltas (nt_kind t))) (cols (nt_table t) (nt_column t))"
  using assms
proof (induction ts arbitrary: cols)
  case (Cons u ts)
  let ?cols = "rename_column u (renames_of deltas (nt_kind u)) cols"
  have step: "rename_columns (u # ts) deltas cols = rename_columns ts deltas ?cols"
    by (simp add: rename_columns_def)
  show ?case
  proof (cases "t = u")
    case True
    with Cons.prems have "(nt_table t, nt_column t) \<notin> target_key ` set ts"
      by (auto simp: target_key_def)
    from rename_columns_other [OF this] True show ?thesis
      by (simp add: step rename_column_def)
  next
    case False
    with Cons.prems have "target_key u \<noteq> target_key t" "t \<in> set ts" by auto
    with Cons.IH [of ?cols] Cons.prems show ?thesis
      by (auto simp: step rename_column_def target_key_def)
  qed
qed simp

section \<open>The database contract\<close>

text \<open>
  The behaviour of SQLite the crate relies on for the given targets, \<open>cols\<close> reading the consumer's
  columns: a failed statement changes nothing; the update of a target, when it succeeds, replaces one
  value in that column, in every row, counts the rows and leaves the cursor alone (so the cursor's own
  table is no target); the cursor statements keep one cursor and leave the consumer's columns alone.
\<close>

definition sql_contract :: "'d sql_ops \<Rightarrow> ('d \<Rightarrow> columns) \<Rightarrow> name_target list \<Rightarrow> bool" where
  "sql_contract sql cols ts \<longleftrightarrow>
     (\<forall>s bs d e d'. sq_execute sql s bs d = (Inl e, d') \<longrightarrow> d' = d)
     \<and> (\<forall>t \<in> set ts. \<forall>new old d n d'. sq_execute sql (update_sql t) [new, old] d = (Inr n, d') \<longrightarrow>
          cols d' = rename_column t [\<lparr>rn_old = old, rn_current = new\<rparr>] (cols d)
          \<and> n = length (filter (\<lambda>v. v = old) (cols d (nt_table t) (nt_column t)))
          \<and> load_cursor sql d' = load_cursor sql d)
     \<and> (\<forall>c d n d'. sq_execute sql store_cursor_sql [c] d = (Inr n, d') \<longrightarrow>
          cols d' = cols d \<and> load_cursor sql d' = Inr (Some c))
     \<and> (\<forall>d n d'. sq_execute sql ensure_cursor_sql [] d = (Inr n, d') \<longrightarrow>
          cols d' = cols d
          \<and> load_cursor sql d' = (case load_cursor sql d of Inr x \<Rightarrow> Inr x | Inl _ \<Rightarrow> Inr None))"

lemma contract_fail: "sql_contract sql cols ts \<Longrightarrow> sq_execute sql s bs d = (Inl e, d') \<Longrightarrow> d' = d"
  unfolding sql_contract_def by blast

lemma contract_update:
  assumes "sql_contract sql cols ts" "t \<in> set ts"
    and "sq_execute sql (update_sql t) [new, old] d = (Inr n, d')"
  shows "cols d' = rename_column t [\<lparr>rn_old = old, rn_current = new\<rparr>] (cols d)"
    "n = length (filter (\<lambda>v. v = old) (cols d (nt_table t) (nt_column t)))"
    "load_cursor sql d' = load_cursor sql d"
  using assms unfolding sql_contract_def by blast+

lemma contract_store:
  assumes "sql_contract sql cols ts" "store_cursor sql c d = (Inr u, d')"
  shows "cols d' = cols d \<and> load_cursor sql d' = Inr (Some c)"
  using assms unfolding sql_contract_def store_cursor_def
  by (auto simp: result_simps split: prod.splits)

lemma contract_ensure:
  assumes "sql_contract sql cols ts" "ensure_cursor_table sql d = (Inr u, d')"
  shows "cols d' = cols d \<and>
    load_cursor sql d' = (case load_cursor sql d of Inr x \<Rightarrow> Inr x | Inl _ \<Rightarrow> Inr None)"
  using assms unfolding sql_contract_def ensure_cursor_table_def
  by (auto simp: result_simps split: prod.splits)

lemma rename_column_Cons:
  "rename_column t rs (rename_column t [r] cols) = rename_column t (r # rs) cols"
  by (simp add: rename_column_def fun_eq_iff comp_def)

lemma rename_column_Nil: "rename_column t [] cols = cols"
proof -
  have "chase [] = (\<lambda>v. v)" by (rule ext) simp
  then have "map (chase []) vs = vs" for vs by simp
  then show ?thesis by (simp add: rename_column_def fun_eq_iff)
qed

lemma rename_eta [simp]: "\<lparr>rn_old = rn_old r, rn_current = rn_current r\<rparr> = r"
  by (cases r) simp

lemma rename_column_elsewhere:
  "target_key u \<noteq> target_key t \<Longrightarrow>
   rename_column t rs cols (nt_table u) (nt_column u) = cols (nt_table u) (nt_column u)"
  by (auto simp: rename_column_def target_key_def)

lemma sum_hops_Cons:
  "sum_list (map (hops (r # rs)) vs) =
   length (filter (\<lambda>v. v = rn_old r) vs)
     + sum_list (map (hops rs) (map (\<lambda>v. if v = rn_old r then rn_current r else v) vs))"
  by (induction vs) auto

lemma apply_renames_ok:
  assumes "sql_contract sql cols ts" "t \<in> set ts"
  shows "apply_renames sql t rs changed d = (Inr n, d') \<Longrightarrow>
    cols d' = rename_column t rs (cols d)
    \<and> n = changed + sum_list (map (hops rs) (cols d (nt_table t) (nt_column t)))
    \<and> load_cursor sql d' = load_cursor sql d"
proof (induction rs arbitrary: changed d)
  case Nil
  then show ?case by (simp add: rename_column_Nil)
next
  case (Cons r rs)
  obtain a d1 where x: "sq_execute sql (update_sql t) [rn_current r, rn_old r] d = (a, d1)" by fastforce
  with Cons.prems obtain m where a: "a = Inr m" by (cases a) auto
  with x have ok: "sq_execute sql (update_sql t) [rn_current r, rn_old r] d = (Inr m, d1)" by simp
  note u = contract_update [OF assms ok]
  from Cons.prems ok have "apply_renames sql t rs (changed + m) d1 = (Inr n, d')" by simp
  note ih = Cons.IH [OF this]
  have "cols d1 = rename_column t [r] (cols d)" using u(1) by simp
  moreover from this have "cols d1 (nt_table t) (nt_column t) =
      map (\<lambda>v. if v = rn_old r then rn_current r else v) (cols d (nt_table t) (nt_column t))"
    by (simp add: rename_column_def)
  ultimately show ?case
    using ih u(2,3) unfolding sum_hops_Cons by (simp add: rename_column_Cons)
qed

lemma hops_Nil [simp]: "sum_list (map (hops []) vs) = 0"
  by (induction vs) simp_all

text \<open>The rows a list of targets changes, a value renamed twice counting twice.\<close>

definition rows_hit :: "name_target list \<Rightarrow> name_deltas \<Rightarrow> columns \<Rightarrow> nat" where
  "rows_hit ts deltas cols =
     sum_list (map (\<lambda>u. sum_list (map (hops (renames_of deltas (nt_kind u)))
       (cols (nt_table u) (nt_column u)))) ts)"

lemma apply_targets_ok:
  assumes "sql_contract sql cols all"
  shows "set ts \<subseteq> set all \<Longrightarrow> apply_targets sql ts deltas changed d = (Inr n, d') \<Longrightarrow>
    cols d' = rename_columns ts deltas (cols d) \<and> load_cursor sql d' = load_cursor sql d
    \<and> (distinct (map target_key ts) \<longrightarrow>
         n = changed + rows_hit ts deltas (cols d))"
proof (induction ts arbitrary: changed d)
  case Nil
  then show ?case by (simp add: rename_columns_def rows_hit_def)
next
  case (Cons t ts)
  let ?rs = "renames_of deltas (nt_kind t)"
  have rows: "rows_hit (t # ts) deltas c =
      sum_list (map (hops ?rs) (c (nt_table t) (nt_column t)))
        + rows_hit ts deltas (rename_column t ?rs c)" if "distinct (map target_key (t # ts))" for c
  proof -
    have "map (\<lambda>u. sum_list (map (hops (renames_of deltas (nt_kind u)))
          (rename_column t ?rs c (nt_table u) (nt_column u)))) ts =
        map (\<lambda>u. sum_list (map (hops (renames_of deltas (nt_kind u))) (c (nt_table u) (nt_column u)))) ts"
      using that by (intro map_cong refl) (auto simp: rename_column_elsewhere image_iff)
    then show ?thesis unfolding rows_hit_def by (simp del: map_eq_conv)
  qed
  have step: "rename_columns (t # ts) deltas c = rename_columns ts deltas (rename_column t ?rs c)" for c
    by (simp add: rename_columns_def)
  show ?case
  proof (cases "?rs = []")
    case True
    with Cons rows [of "cols d"] show ?thesis by (simp add: step rename_column_Nil)
  next
    case False
    obtain a d1 where x: "apply_renames sql t ?rs changed d = (a, d1)" by fastforce
    with Cons.prems False obtain m where "a = Inr m" by (cases a) auto
    with x have ok: "apply_renames sql t ?rs changed d = (Inr m, d1)" by simp
    from Cons.prems have "t \<in> set all" by simp
    note u = apply_renames_ok [OF assms this ok]
    from Cons.prems False ok have "apply_targets sql ts deltas m d1 = (Inr n, d')" by simp
    from Cons.IH [OF _ this] Cons.prems u rows [of "cols d"] show ?thesis by (simp add: step)
  qed
qed

section \<open>Properties\<close>

text \<open>Applying deltas to name columns: when it succeeds, every value of a targeted column has
  been replaced by what the renames of the target's kind make of it, in the feed's order, every other
  column is as it was, and the count returned is the number of row updates.\<close>

theorem apply_column_renames_result:
  assumes "sql_contract sql cols ts" "distinct (map target_key ts)"
    and "apply_column_renames sql ts deltas d = (Inr n, d')"
  shows "(\<forall>t \<in> set ts. cols d' (nt_table t) (nt_column t) =
        map (chase (renames_of deltas (nt_kind t))) (cols d (nt_table t) (nt_column t)))
    \<and> (\<forall>tab c. (tab, c) \<notin> target_key ` set ts \<longrightarrow> cols d' tab c = cols d tab c)
    \<and> n = rows_hit ts deltas (cols d)"
proof -
  from assms(3) have "apply_targets sql ts deltas 0 d = (Inr n, d')"
    by (simp add: apply_column_renames_def)
  from apply_targets_ok [OF assms(1) subset_refl this] assms(2) rename_columns_target rename_columns_other
  show ?thesis by auto
qed

text \<open>
  An in-memory database that reads the statements the crate writes. A column exists or not, and so
  does the cursor's table; a statement on one that does not exist is an error.
\<close>

record mem_db =
  md_cols :: "string \<Rightarrow> string \<Rightarrow> string list option"
  md_cursor :: "string option option"

definition mem_columns :: "mem_db \<Rightarrow> columns" where
  "mem_columns d = (\<lambda>tab c. unwrap_or [] (md_cols d tab c))"

definition sql_name :: "string \<Rightarrow> bool" where
  "sql_name s \<longleftrightarrow> CHR '' '' \<notin> set s"

definition target_ok :: "name_target \<Rightarrow> bool" where
  "target_ok t \<longleftrightarrow> sql_name (nt_table t) \<and> sql_name (nt_column t)"

definition mem_update :: "string \<Rightarrow> name_target" where
  "mem_update s =
     (let tab = takeWhile (\<lambda>c. c \<noteq> CHR '' '') (drop 7 s);
          col = takeWhile (\<lambda>c. c \<noteq> CHR '' '') (drop 5 (drop (length tab) (drop 7 s)))
      in \<lparr>nt_table = tab, nt_column = col, nt_kind = User\<rparr>)"

definition mem_set :: "name_target \<Rightarrow> string \<Rightarrow> string \<Rightarrow> mem_db \<Rightarrow> mem_db" where
  "mem_set t new old d = d\<lparr>md_cols := (\<lambda>tab c.
     if tab = nt_table t \<and> c = nt_column t
     then map_option (map (\<lambda>v. if v = old then new else v)) (md_cols d tab c) else md_cols d tab c)\<rparr>"

definition mem_execute :: "string \<Rightarrow> string list \<Rightarrow> mem_db \<Rightarrow> (string + nat) \<times> mem_db" where
  "mem_execute s bs d =
     (if starts_with s ''UPDATE '' then
        (case (bs, md_cols d (nt_table (mem_update s)) (nt_column (mem_update s))) of
           ([new, old], Some vs) \<Rightarrow> (Inr (length (filter (\<lambda>v. v = old) vs)), mem_set (mem_update s) new old d)
         | ([new, old], None) \<Rightarrow> (Inl ''no such column'', d)
         | _ \<Rightarrow> (Inl ''wrong number of bindings'', d))
      else if starts_with s ''INSERT '' then
        (case (bs, md_cursor d) of
           ([c], Some _) \<Rightarrow> (Inr 1, d\<lparr>md_cursor := Some (Some c)\<rparr>)
         | ([c], None) \<Rightarrow> (Inl ''no such table'', d)
         | _ \<Rightarrow> (Inl ''wrong number of bindings'', d))
      else (Inr 0, d\<lparr>md_cursor := (case md_cursor d of None \<Rightarrow> Some None | Some c \<Rightarrow> Some c)\<rparr>))"

definition mem_sql :: "mem_db sql_ops" where
  "mem_sql =
     \<lparr>sq_execute = mem_execute,
      sq_cursor = (\<lambda>s d. case md_cursor d of None \<Rightarrow> Inl ''no such table'' | Some c \<Rightarrow> Inr c),
      sq_begin = (\<lambda>d. None), sq_commit = (\<lambda>d. None)\<rparr>"

lemma takeWhile_name: "sql_name s \<Longrightarrow> takeWhile (\<lambda>c. c \<noteq> CHR '' '') (s @ CHR '' '' # rest) = s"
  unfolding sql_name_def by (induction s) auto

lemma mem_update_sql:
  assumes "target_ok t"
  shows "nt_table (mem_update (update_sql t)) = nt_table t \<and> nt_column (mem_update (update_sql t)) = nt_column t"
proof -
  have tab: "takeWhile (\<lambda>c. c \<noteq> CHR '' '') (drop 7 (update_sql t)) = nt_table t"
    using assms takeWhile_name by (simp add: update_sql_def target_ok_def)
  have "takeWhile (\<lambda>c. c \<noteq> CHR '' '') (drop 5 (drop (length (nt_table t)) (drop 7 (update_sql t)))) = nt_column t"
    using assms takeWhile_name [of "nt_column t"] by (simp add: update_sql_def target_ok_def del: drop_drop)
  with tab show ?thesis by (simp add: mem_update_def Let_def)
qed

lemma mem_set_columns:
  "mem_columns (mem_set t new old d) = rename_column t [\<lparr>rn_old = old, rn_current = new\<rparr>] (mem_columns d)"
proof -
  have c: "chase [\<lparr>rn_old = old, rn_current = new\<rparr>] = (\<lambda>v. if v = old then new else v)" by (rule ext) simp
  have m: "unwrap_or [] (map_option (map f) x) = map f (unwrap_or [] x)" for f :: "string \<Rightarrow> string" and x
    by (cases x) simp_all
  show ?thesis unfolding mem_columns_def mem_set_def rename_column_def c by (simp add: m fun_eq_iff)
qed

lemma mem_update_key:
  assumes "target_ok t"
  shows "mem_set (mem_update (update_sql t)) new old d = mem_set t new old d"
  using mem_update_sql [OF assms] by (simp add: mem_set_def)

lemma mem_execute_update:
  assumes "target_ok t"
  shows "sq_execute mem_sql (update_sql t) [new, old] d =
    (case md_cols d (nt_table t) (nt_column t) of
       Some vs \<Rightarrow> (Inr (length (filter (\<lambda>v. v = old) vs)), mem_set t new old d)
     | None \<Rightarrow> (Inl ''no such column'', d))"
proof -
  have "starts_with (update_sql t) ''UPDATE ''" by (simp add: starts_with_def update_sql_def)
  then show ?thesis
    using mem_update_sql [OF assms] by (simp add: mem_sql_def mem_execute_def mem_update_key [OF assms] split: option.split)
qed

lemma mem_contract:
  assumes "list_all target_ok ts"
  shows "sql_contract mem_sql mem_columns ts"
  unfolding sql_contract_def
proof (intro conjI)
  have "mem_columns d' = rename_column t [\<lparr>rn_old = old, rn_current = new\<rparr>] (mem_columns d)
      \<and> n = length (filter (\<lambda>v. v = old) (mem_columns d (nt_table t) (nt_column t)))
      \<and> load_cursor mem_sql d' = load_cursor mem_sql d"
    if "target_ok t" "sq_execute mem_sql (update_sql t) [new, old] d = (Inr n, d')" for t new old d n d'
  proof -
    from that(2) [unfolded mem_execute_update [OF that(1)]]
    obtain vs where vs: "md_cols d (nt_table t) (nt_column t) = Some vs"
      "n = length (filter (\<lambda>v. v = old) vs)" "d' = mem_set t new old d"
      by (auto split: option.splits)
    have "load_cursor mem_sql (mem_set t new old d) = load_cursor mem_sql d"
      by (simp add: load_cursor_def mem_sql_def mem_set_def)
    moreover have "mem_columns d (nt_table t) (nt_column t) = vs" using vs(1) by (simp add: mem_columns_def)
    ultimately show ?thesis using vs(2,3) by (simp add: mem_set_columns)
  qed
  with assms show "\<forall>t \<in> set ts. \<forall>new old d n d'. sq_execute mem_sql (update_sql t) [new, old] d = (Inr n, d') \<longrightarrow>
      mem_columns d' = rename_column t [\<lparr>rn_old = old, rn_current = new\<rparr>] (mem_columns d)
      \<and> n = length (filter (\<lambda>v. v = old) (mem_columns d (nt_table t) (nt_column t)))
      \<and> load_cursor mem_sql d' = load_cursor mem_sql d"
    unfolding list_all_iff by blast
qed (auto simp: mem_sql_def mem_execute_def store_cursor_sql_def ensure_cursor_sql_def starts_with_def
    load_cursor_def mem_columns_def split: list.splits option.splits if_splits)

definition demo_target :: name_target where
  "demo_target = \<lparr>nt_table = ''forms'', nt_column = ''owner'', nt_kind = User\<rparr>"

definition demo_deltas :: name_deltas where
  "demo_deltas = \<lparr>nd_now = ''t1'', nd_users = [\<lparr>rn_old = ''bob'', rn_current = ''bob2''\<rparr>], nd_groups = []\<rparr>"

definition demo_db :: mem_db where
  "demo_db = \<lparr>md_cols = (\<lambda>tab c. if tab = ''forms'' \<and> c = ''owner'' then Some [''bob'', ''eve'', ''bob''] else None),
     md_cursor = None\<rparr>"

lemma demo_target_ok: "list_all target_ok [demo_target]"
  by (simp add: demo_target_def target_ok_def sql_name_def)

theorem apply_column_renames_result_witness:
  "\<exists>d'. apply_column_renames mem_sql [demo_target] demo_deltas demo_db = (Inr 2, d')
     \<and> mem_columns d' ''forms'' ''owner'' = [''bob2'', ''eve'', ''bob2'']"
proof -
  have ok: "target_ok demo_target" using demo_target_ok by simp
  have "fst (apply_column_renames mem_sql [demo_target] demo_deltas demo_db) = Inr 2"
    using mem_execute_update [OF ok, of "''bob2''" "''bob''" demo_db]
    by (simp add: apply_column_renames_def renames_of_def demo_deltas_def)
      (simp add: demo_target_def demo_db_def)
  then obtain d' where a: "apply_column_renames mem_sql [demo_target] demo_deltas demo_db = (Inr 2, d')"
    by (cases "apply_column_renames mem_sql [demo_target] demo_deltas demo_db") simp
  have "distinct (map target_key [demo_target])" by simp
  from apply_column_renames_result [OF mem_contract [OF demo_target_ok] this a] a show ?thesis
    by (simp add: demo_target_def demo_deltas_def demo_db_def renames_of_def mem_columns_def)
qed

text \<open>Renames may be applied again. As long as no current name of the list is one of its old
  names, applying it to a value it was already applied to changes nothing, which is what the five
  minutes of overlap between fetches rely on.\<close>

theorem renames_idempotent:
  assumes "rn_old ` set rs \<inter> rn_current ` set rs = {}"
  shows "chase rs (chase rs v) = chase rs v
    \<and> rename_column t rs (rename_column t rs cols) = rename_column t rs cols"
proof -
  have "chase rs (chase rs v) = chase rs v" for v
    by (rule chase_fixed) (rule chase_not_old [OF assms])
  then show ?thesis by (simp add: rename_column_def fun_eq_iff)
qed

theorem renames_idempotent_witness:
  "chase (nd_users demo_deltas) (chase (nd_users demo_deltas) ''bob'') = ''bob2''"
  using renames_idempotent [of "nd_users demo_deltas" "''bob''" demo_target "\<lambda>_ _. []"]
  by (simp add: demo_deltas_def)

text \<open>
  A name that is freed and taken again breaks it: with a renamed to b and then c to a, the second
  application takes what was c to b.
\<close>

lemma renames_not_idempotent:
  "chase [\<lparr>rn_old = ''a'', rn_current = ''b''\<rparr>, \<lparr>rn_old = ''c'', rn_current = ''a''\<rparr>] ''c'' = ''a''"
  "chase [\<lparr>rn_old = ''a'', rn_current = ''b''\<rparr>, \<lparr>rn_old = ''c'', rn_current = ''a''\<rparr>]
     (chase [\<lparr>rn_old = ''a'', rn_current = ''b''\<rparr>, \<lparr>rn_old = ''c'', rn_current = ''a''\<rparr>] ''c'') = ''b''"
  by simp_all

end
