(* ===== verification/Name_Sync.thy ===== *)
theory Name_Sync
  imports Name_Renames
begin

text \<open>
  The sync loop of \<open>crates/names/src/sync.rs\<close> over any implementation of its trait \<open>Apply\<close>: the locale
  \<open>applier\<close> states what the loop relies on, \<open>working_applier\<close> adds that nothing fails but the feed.
  The column applier of \<open>apply.rs\<close> is one on every database with \<open>sql_contract\<close>.
\<close>

text \<open>The stored cursor, if any: there is none before the cursor table is made.\<close>

definition stored_cursor :: "'d sql_ops \<Rightarrow> 'd \<Rightarrow> string option" where
  "stored_cursor sql d = (case load_cursor sql d of Inr c \<Rightarrow> c | Inl _ \<Rightarrow> None)"

text \<open>
  The deltas of the cycles that committed, in order: each the answer to a fetch that asked from the
  cursor the commit before it left, the first from the cursor the run started with.
\<close>

fun fed ::
    "(string \<Rightarrow> int option) \<Rightarrow> (int \<Rightarrow> string option) \<Rightarrow> string option
     \<Rightarrow> (string option \<Rightarrow> string + name_deltas) list \<Rightarrow> name_deltas list \<Rightarrow> bool" where
  "fed pt ft c [] lg = (lg = [])"
| "fed pt ft c (f # fs) lg = (fed pt ft c fs lg \<or>
     (\<exists>x rest. lg = x # rest \<and> f (since_of pt ft c) = Inr x \<and> fed pt ft (Some (nd_now x)) fs rest))"

text \<open>
  What the loop promises when only the feed can fail: the answers of the feed are its only input.
  \<open>effect\<close> is what an application does to the consumer's tables.
\<close>

fun mirror ::
    "(string \<Rightarrow> int option) \<Rightarrow> (int \<Rightarrow> string option) \<Rightarrow> (name_deltas \<Rightarrow> 'c \<Rightarrow> 'c)
     \<Rightarrow> (string option \<Rightarrow> string + name_deltas) list \<Rightarrow> 'c \<times> string option \<Rightarrow> 'c \<times> string option" where
  "mirror pt ft effect [] s = s"
| "mirror pt ft effect (fetch # fetches) (cs, cursor) =
     mirror pt ft effect fetches
       (case fetch (since_of pt ft cursor) of
          Inl e \<Rightarrow> (cs, cursor)
        | Inr deltas \<Rightarrow> (effect deltas cs, Some (nd_now deltas)))"

lemma mirror_Cons: "mirror pt ft ts (f # fs) s = mirror pt ft ts fs (mirror pt ft ts [f] s)"
  by (cases s) simp

lemma mirror_append: "mirror pt ft ts (fs @ gs) s = mirror pt ft ts gs (mirror pt ft ts fs s)"
proof (induction fs arbitrary: s)
  case (Cons f fs)
  show ?case
    unfolding append_Cons mirror_Cons [of pt ft ts f "fs @ gs"] mirror_Cons [of pt ft ts f fs]
    by (rule Cons.IH)
qed simp

lemma mirror_down: "list_all (\<lambda>f. \<forall>s. isl (f s)) fs \<Longrightarrow> mirror pt ft ts fs s = s"
proof (induction fs)
  case (Cons f fs)
  obtain cs cursor where s: "s = (cs, cursor)" by fastforce
  from Cons.prems obtain e where "f (since_of pt ft cursor) = Inl e"
    by (auto simp: isl_def)
  then have "mirror pt ft ts [f] s = s" by (simp add: s)
  with Cons show ?case unfolding mirror_Cons [of pt ft ts f fs] by simp
qed simp

definition synced :: "'d sql_ops \<Rightarrow> ('d \<Rightarrow> 'c) \<Rightarrow> 'd \<Rightarrow> 'c \<times> string option" where
  "synced sql tables d = (tables d, stored_cursor sql d)"

section \<open>The trait \<open>Apply\<close>\<close>

text \<open>
  \<open>tables\<close> reads the consumer's tables. The cursor statements leave them alone; an application that
  succeeds has its effect on them; there is no effect without deltas.
\<close>

locale applier =
  fixes sql :: "'d sql_ops"
    and tables :: "'d \<Rightarrow> 'c"
    and apply_fn :: "name_deltas \<Rightarrow> 'd \<Rightarrow> (string + unit) \<times> 'd"
    and effect :: "name_deltas \<Rightarrow> 'c \<Rightarrow> 'c"
  assumes ensure_failed: "ensure_cursor_table sql d = (Inl e, d') \<Longrightarrow> d' = d"
    and ensured: "ensure_cursor_table sql d = (Inr u, d') \<Longrightarrow>
      tables d' = tables d \<and> load_cursor sql d' = Inr (stored_cursor sql d)"
    and stored: "store_cursor sql c d = (Inr u, d') \<Longrightarrow>
      tables d' = tables d \<and> load_cursor sql d' = Inr (Some c)"
    and applied: "apply_fn deltas d = (Inr u, d') \<Longrightarrow> tables d' = effect deltas (tables d)"
    and no_deltas: "deltas_empty deltas \<Longrightarrow> effect deltas t = t"
begin

lemma commit_effect:
  assumes "commit_cycle sql apply_fn deltas d = (r, d')"
  shows "synced sql tables d' = (case r of
      Inl e \<Rightarrow> synced sql tables d
    | Inr u \<Rightarrow> (effect deltas (tables d), Some (nd_now deltas)))"
  using assms
  by (auto simp: commit_cycle_def synced_def stored_cursor_def no_deltas dest!: applied stored
      split: option.splits prod.splits sum.splits if_splits)

lemma cycle_effect:
  assumes "run_cycle sql pt ft apply_fn fetch d = (r, d')"
  shows "(case r of
      Inl e \<Rightarrow> synced sql tables d' = synced sql tables d
    | Inr u \<Rightarrow> \<exists>deltas. fetch (since_of pt ft (stored_cursor sql d)) = Inr deltas
        \<and> synced sql tables d' = (effect deltas (tables d), Some (nd_now deltas)))"
proof -
  obtain a d1 where e: "ensure_cursor_table sql d = (a, d1)" by fastforce
  show ?thesis
  proof (cases a)
    case (Inl m)
    with e have "d1 = d" using ensure_failed by blast
    with e Inl assms show ?thesis by (auto simp: run_cycle_def)
  next
    case (Inr u)
    with ensured e have d1: "tables d1 = tables d" "load_cursor sql d1 = Inr (stored_cursor sql d)"
      by blast+
    then have keep: "synced sql tables d1 = synced sql tables d"
      by (simp add: synced_def stored_cursor_def)
    show ?thesis
    proof (cases "fetch (since_of pt ft (stored_cursor sql d))")
      case (Inl m)
      with assms e Inr d1 keep show ?thesis by (auto simp: run_cycle_def)
    next
      case deltas: (Inr deltas)
      with assms e Inr d1 have "commit_cycle sql apply_fn deltas d1 = (r, d')"
        by (simp add: run_cycle_def)
      from commit_effect [OF this] keep d1(1) deltas show ?thesis by (cases r) auto
    qed
  qed
qed

lemma loop_consistent:
  "\<exists>lg. fed pt ft (stored_cursor sql d) fetches lg
    \<and> tables (sync_loop sql pt ft apply_fn fetches d) = fold effect lg (tables d)
    \<and> stored_cursor sql (sync_loop sql pt ft apply_fn fetches d) =
        (if lg = [] then stored_cursor sql d else Some (nd_now (last lg)))"
proof (induction fetches arbitrary: d)
  case Nil
  then show ?case by (intro exI [of _ "[]"]) simp
next
  case (Cons f fs)
  obtain r d1 where c: "run_cycle sql pt ft apply_fn f d = (r, d1)" by fastforce
  from Cons.IH [of d1] obtain lg where lg: "fed pt ft (stored_cursor sql d1) fs lg"
    "tables (sync_loop sql pt ft apply_fn (f # fs) d) = fold effect lg (tables d1)"
    "stored_cursor sql (sync_loop sql pt ft apply_fn (f # fs) d) =
      (if lg = [] then stored_cursor sql d1 else Some (nd_now (last lg)))"
    using c by auto
  note eff = cycle_effect [OF c, unfolded synced_def]
  show ?case
  proof (cases r)
    case (Inl m)
    with eff lg show ?thesis by (intro exI [of _ lg]) simp
  next
    case (Inr u)
    with eff obtain deltas where ds: "f (since_of pt ft (stored_cursor sql d)) = Inr deltas"
      "tables d1 = effect deltas (tables d)" "stored_cursor sql d1 = Some (nd_now deltas)"
      by auto
    with lg show ?thesis by (intro exI [of _ "deltas # lg"]) auto
  qed
qed

end

text \<open>
  Nothing fails but the feed, on databases where \<open>live\<close> holds: the consumer's tables are there. The
  cursor can be stored once its table is there, which the cycle sees to first.
\<close>

locale working_applier = applier +
  fixes live :: "'a \<Rightarrow> bool"
  assumes transacts: "live d \<Longrightarrow> sq_begin sql d = None \<and> sq_commit sql d = None"
    and ensures: "live d \<Longrightarrow> \<exists>d'. ensure_cursor_table sql d = (Inr (), d') \<and> live d'"
    and stores: "live d \<Longrightarrow> load_cursor sql d = Inr x \<Longrightarrow> \<exists>d'. store_cursor sql c d = (Inr (), d') \<and> live d'"
    and applies: "live d \<Longrightarrow> load_cursor sql d = Inr x \<Longrightarrow>
      \<exists>d'. apply_fn deltas d = (Inr (), d') \<and> live d' \<and> load_cursor sql d' = Inr x"
begin

lemma commits:
  assumes "live d" "load_cursor sql d = Inr x"
  shows "\<exists>d'. commit_cycle sql apply_fn deltas d = (Inr (), d') \<and> live d'"
proof -
  obtain tx where tx: "(if deltas_empty deltas then (Inr (), d) else apply_fn deltas d) = (Inr (), tx)"
    "live tx" "load_cursor sql tx = Inr x"
    using applies [OF assms, of deltas] assms by (cases "deltas_empty deltas") auto
  obtain tx' where "store_cursor sql (nd_now deltas) tx = (Inr (), tx')" "live tx'"
    using stores [OF tx(2,3)] by blast
  with tx(1) assms(1) show ?thesis by (auto simp: commit_cycle_def transacts)
qed

lemma cycle_mirror:
  assumes "live d"
  shows "synced sql tables (snd (run_cycle sql pt ft apply_fn fetch d))
      = mirror pt ft effect [fetch] (synced sql tables d)
    \<and> live (snd (run_cycle sql pt ft apply_fn fetch d))"
proof -
  obtain d1 where e: "ensure_cursor_table sql d = (Inr (), d1)" "live d1"
    using ensures [OF assms] by blast
  note d1 = ensured [OF e(1)]
  show ?thesis
  proof (cases "fetch (since_of pt ft (stored_cursor sql d))")
    case (Inl m)
    with e d1 show ?thesis by (simp add: run_cycle_def synced_def stored_cursor_def)
  next
    case (Inr deltas)
    from d1 have "load_cursor sql d1 = Inr (stored_cursor sql d)" by blast
    from commits [OF e(2) this] obtain d2 where
      c: "commit_cycle sql apply_fn deltas d1 = (Inr (), d2)" "live d2" by blast
    from commit_effect [OF c(1)] d1 e Inr c show ?thesis by (simp add: run_cycle_def synced_def)
  qed
qed

lemma loop_mirror:
  "live d \<Longrightarrow> synced sql tables (sync_loop sql pt ft apply_fn fetches d)
    = mirror pt ft effect fetches (synced sql tables d)"
proof (induction fetches arbitrary: d)
  case (Cons f fs)
  note c = cycle_mirror [OF Cons.prems, of pt ft f]
  from c have "synced sql tables (sync_loop sql pt ft apply_fn (f # fs) d)
      = mirror pt ft effect fs (synced sql tables (snd (run_cycle sql pt ft apply_fn f d)))"
    by (simp only: sync_loop.simps Cons.IH)
  with c show ?case by (simp only: mirror_Cons [of pt ft effect f fs])
qed simp

lemma catches_up:
  assumes "live d" "list_all (\<lambda>f. \<forall>s. isl (f s)) outage"
    and "fetch (since_of pt ft (stored_cursor sql d)) = Inr deltas"
  shows "synced sql tables (sync_loop sql pt ft apply_fn (outage @ [fetch]) d)
    = (effect deltas (tables d), Some (nd_now deltas))"
  unfolding loop_mirror [OF assms(1)] mirror_append mirror_down [OF assms(2)]
  using assms(3) by (simp add: synced_def)

end

section \<open>The column applier\<close>

text \<open>The consumer's apply is the column applier on its targets.\<close>

definition column_apply :: "'d sql_ops \<Rightarrow> name_target list \<Rightarrow> name_deltas \<Rightarrow> 'd \<Rightarrow> (string + unit) \<times> 'd" where
  "column_apply sql targets deltas d =
     (case apply_column_renames sql targets deltas d of (r, d) \<Rightarrow> (map_ok (\<lambda>_. ()) r, d))"

lemma rename_columns_empty: "deltas_empty deltas \<Longrightarrow> rename_columns ts deltas cols = cols"
proof (induction ts arbitrary: cols)
  case Nil
  then show ?case by (simp add: rename_columns_def)
next
  case (Cons t ts)
  then have "renames_of deltas (nt_kind t) = []"
    by (simp add: deltas_empty_def renames_of_def split: name_kind.splits)
  with Cons show ?case by (simp add: rename_columns_def rename_column_Nil)
qed

lemma column_applier:
  assumes "sql_contract sql cols ts"
  shows "applier sql cols (column_apply sql ts) (rename_columns ts)"
proof
  show "d' = d" if "ensure_cursor_table sql d = (Inl e, d')" for d e d'
    using that contract_fail [OF assms]
    by (auto simp: ensure_cursor_table_def result_simps split: prod.splits)
  show "cols d' = cols d \<and> load_cursor sql d' = Inr (stored_cursor sql d)"
    if "ensure_cursor_table sql d = (Inr u, d')" for d u d'
    using contract_ensure [OF assms that] by (auto simp: stored_cursor_def split: sum.splits)
  show "cols d' = cols d \<and> load_cursor sql d' = Inr (Some c)"
    if "store_cursor sql c d = (Inr u, d')" for c d u d'
    by (rule contract_store [OF assms that])
  show "cols d' = rename_columns ts deltas (cols d)"
    if "column_apply sql ts deltas d = (Inr u, d')" for deltas d u d'
    using that apply_targets_ok [OF assms subset_refl]
    by (fastforce simp: column_apply_def apply_column_renames_def result_simps split: prod.splits)
  show "rename_columns ts deltas t = t" if "deltas_empty deltas" for deltas t
    by (rule rename_columns_empty [OF that])
qed

text \<open>
  Databases on which the statements the loop issues for these targets succeed: \<open>live\<close> says that the
  tables and columns of the targets are there and nothing refuses their updates. The cursor's table
  can always be made, and be written to once it is there; no statement of the loop ends \<open>live\<close>.
\<close>

definition sql_working :: "'d sql_ops \<Rightarrow> name_target list \<Rightarrow> ('d \<Rightarrow> bool) \<Rightarrow> bool" where
  "sql_working sql ts live \<longleftrightarrow>
     (\<forall>d. live d \<longrightarrow> sq_begin sql d = None \<and> sq_commit sql d = None
        \<and> (\<exists>n d'. sq_execute sql ensure_cursor_sql [] d = (Inr n, d') \<and> live d')
        \<and> (\<forall>x c. load_cursor sql d = Inr x \<longrightarrow>
             (\<exists>n d'. sq_execute sql store_cursor_sql [c] d = (Inr n, d') \<and> live d'))
        \<and> (\<forall>t \<in> set ts. \<forall>new old.
             \<exists>n d'. sq_execute sql (update_sql t) [new, old] d = (Inr n, d') \<and> live d'))"

lemma working_store:
  assumes "sql_working sql ts live" "live d" "load_cursor sql d = Inr x"
  shows "\<exists>d'. store_cursor sql c d = (Inr (), d') \<and> live d'"
proof -
  from assms obtain n d' where "sq_execute sql store_cursor_sql [c] d = (Inr n, d')" "live d'"
    unfolding sql_working_def by blast
  then show ?thesis by (simp add: store_cursor_def)
qed

lemma working_ensure:
  assumes "sql_working sql ts live" "live d"
  shows "\<exists>d'. ensure_cursor_table sql d = (Inr (), d') \<and> live d'"
proof -
  from assms obtain n d' where "sq_execute sql ensure_cursor_sql [] d = (Inr n, d')" "live d'"
    unfolding sql_working_def by blast
  then show ?thesis by (simp add: ensure_cursor_table_def)
qed

lemma working_renames:
  "sql_working sql ts live \<Longrightarrow> t \<in> set ts \<Longrightarrow> live d \<Longrightarrow>
   \<exists>n' d'. apply_renames sql t rs n d = (Inr n', d') \<and> live d'"
proof (induction rs arbitrary: n d)
  case (Cons r rs)
  from Cons.prems obtain k d1 where
    "sq_execute sql (update_sql t) [rn_current r, rn_old r] d = (Inr k, d1)" "live d1"
    unfolding sql_working_def by blast
  with Cons.IH [OF Cons.prems(1,2)] show ?case by simp
qed simp

lemma working_targets:
  "sql_working sql all live \<Longrightarrow> set ts \<subseteq> set all \<Longrightarrow> live d \<Longrightarrow>
   \<exists>n' d'. apply_targets sql ts deltas n d = (Inr n', d') \<and> live d'"
proof (induction ts arbitrary: n d)
  case (Cons t ts)
  from Cons.prems working_renames [of sql all live t d "renames_of deltas (nt_kind t)" n] obtain k d1 where
    "apply_renames sql t (renames_of deltas (nt_kind t)) n d = (Inr k, d1)" "live d1" by auto
  with Cons show ?case by simp
qed simp

lemma working_column_applier:
  assumes "sql_contract sql cols ts" "sql_working sql ts live"
  shows "working_applier sql cols (column_apply sql ts) (rename_columns ts) live"
proof (rule working_applier.intro)
  show "applier sql cols (column_apply sql ts) (rename_columns ts)"
    by (rule column_applier [OF assms(1)])
  have "\<exists>d'. column_apply sql ts deltas d = (Inr (), d') \<and> live d' \<and> load_cursor sql d' = Inr x"
    if "live d" "load_cursor sql d = Inr x" for deltas d x
  proof -
    from working_targets [OF assms(2) subset_refl that(1)] obtain n d' where
      d': "apply_targets sql ts deltas 0 d = (Inr n, d')" "live d'" by blast
    from apply_targets_ok [OF assms(1) subset_refl d'(1)] that(2) d' show ?thesis
      by (simp add: column_apply_def apply_column_renames_def)
  qed
  then show "working_applier_axioms sql (column_apply sql ts) live"
    using assms(2) working_store [OF assms(2)] working_ensure [OF assms(2)]
    by unfold_locales (simp_all add: sql_working_def)
qed

definition mem_live :: "name_target list \<Rightarrow> mem_db \<Rightarrow> bool" where
  "mem_live ts d \<longleftrightarrow> list_all (\<lambda>t. md_cols d (nt_table t) (nt_column t) \<noteq> None) ts"

lemma mem_live_set: "mem_live ts d \<Longrightarrow> mem_live ts (mem_set t new old d)"
  by (auto simp: mem_live_def mem_set_def list_all_iff)

lemma mem_working:
  assumes "list_all target_ok ts"
  shows "sql_working mem_sql ts (mem_live ts)"
proof -
  have "\<exists>n d'. sq_execute mem_sql (update_sql t) [new, old] d = (Inr n, d') \<and> mem_live ts d'"
    if "t \<in> set ts" "mem_live ts d" for t new old d
  proof -
    from that assms have ok: "target_ok t" by (simp add: list_all_iff)
    from that obtain vs where "md_cols d (nt_table t) (nt_column t) = Some vs"
      by (auto simp: mem_live_def list_all_iff)
    with mem_live_set [OF that(2)] show ?thesis by (simp add: mem_execute_update [OF ok])
  qed
  moreover have "mem_live ts (d\<lparr>md_cursor := c\<rparr>) = mem_live ts d" for d c
    by (simp add: mem_live_def)
  ultimately show ?thesis
    unfolding sql_working_def
    by (auto simp: mem_sql_def mem_execute_def load_cursor_def starts_with_def store_cursor_sql_def
        ensure_cursor_sql_def split: option.splits)
qed

text \<open>An update of a column that does not exist fails.\<close>

lemma mem_missing_column:
  "target_ok t \<Longrightarrow> md_cols d (nt_table t) (nt_column t) = None \<Longrightarrow>
   isl (fst (sq_execute mem_sql (update_sql t) [new, old] d))"
  by (simp add: mem_execute_update)

interpretation mem: working_applier mem_sql mem_columns "column_apply mem_sql (filter target_ok ts)"
    "rename_columns (filter target_ok ts)" "mem_live (filter target_ok ts)" for ts
  by (intro working_column_applier mem_contract mem_working) (simp_all add: list_all_iff)

section \<open>Properties\<close>

text \<open>C29: Apply and cursor move together and no stretch of the feed is skipped, over any run of the
  loop: after any number of ticks, failed cycles included, the name columns are what the deltas of the
  committed cycles make of them, each applied once and in order; each was asked for from the cursor
  the one before it stored (less the overlap); and the stored cursor is the last committed one. A cycle
  that fails changes neither.\<close>

theorem sync_loop_consistent:
  assumes "sql_contract sql cols ts"
  shows "\<exists>lg. fed pt ft (stored_cursor sql d) fetches lg
    \<and> cols (sync_loop sql pt ft (column_apply sql ts) fetches d) = fold (rename_columns ts) lg (cols d)
    \<and> stored_cursor sql (sync_loop sql pt ft (column_apply sql ts) fetches d) =
        (if lg = [] then stored_cursor sql d else Some (nd_now (last lg)))"
  by (rule applier.loop_consistent [OF column_applier [OF assms]])

theorem sync_loop_consistent_witness:
  "\<exists>lg. fed (\<lambda>_. None) (\<lambda>_. None) None [\<lambda>since. Inr demo_deltas, \<lambda>since. Inl ''down''] lg
     \<and> mem_columns (sync_loop mem_sql (\<lambda>_. None) (\<lambda>_. None) (column_apply mem_sql [demo_target])
          [\<lambda>since. Inr demo_deltas, \<lambda>since. Inl ''down''] demo_db)
        = fold (rename_columns [demo_target]) lg (mem_columns demo_db)"
proof -
  have "stored_cursor mem_sql demo_db = None"
    by (simp add: stored_cursor_def load_cursor_def mem_sql_def demo_db_def)
  with sync_loop_consistent [OF mem_contract [OF demo_target_ok], of "\<lambda>_. None" "\<lambda>_. None" demo_db]
  show ?thesis by metis
qed

text \<open>C30: An outage costs nothing: on a database whose target columns are there, however many cycles
  failed because the feed was down, the first cycle it answers asks from the cursor of before the
  outage, five minutes earlier when it is a time, and commits: the columns become what the answer's
  renames make of them and the cursor the answer's. The cursor's table need not be there before.\<close>

theorem sync_catches_up:
  assumes "sql_contract sql cols ts" "sql_working sql ts live" "live d"
    and "list_all (\<lambda>f. \<forall>s. isl (f s)) outage"
    and "fetch (since_of pt ft (stored_cursor sql d)) = Inr deltas"
  shows "synced sql cols (sync_loop sql pt ft (column_apply sql ts) (outage @ [fetch]) d)
    = (rename_columns ts deltas (cols d), Some (nd_now deltas))"
  by (rule working_applier.catches_up [where pt = pt and ft = ft and fetch = fetch,
      OF working_column_applier [OF assms(1,2)] assms(3-5)])

theorem sync_catches_up_witness:
  "synced mem_sql mem_columns (sync_loop mem_sql (\<lambda>_. None) (\<lambda>_. None) (column_apply mem_sql [demo_target])
       ([\<lambda>_. Inl ''down'', \<lambda>_. Inl ''down''] @ [\<lambda>_. Inr demo_deltas]) demo_db)
   = (rename_columns [demo_target] demo_deltas (mem_columns demo_db), Some (nd_now demo_deltas))"
proof -
  have "mem_live [demo_target] demo_db" by (simp add: mem_live_def demo_target_def demo_db_def)
  then show ?thesis
    by (intro sync_catches_up [OF mem_contract [OF demo_target_ok] mem_working [OF demo_target_ok]])
      simp_all
qed

end
