(* ===== verification/Secret_Client.thy ===== *)
theory Secret_Client
  imports Rust_Prelude "HOL-Library.Word" "HOL-Library.Monad_Syntax"
begin

text \<open>
  \<open>crates/secrets\<close>: the error taxonomy (\<open>error.rs\<close>), the redacting newtypes (\<open>secret.rs\<close>),
  the configuration (\<open>config.rs\<close>) and the client (\<open>client.rs\<close>), which logs in to authentik, then
  to OpenBao, caches the vault token for its lease and reads and writes kv-v2 documents. HTTP and
  the monotonic clock are an abstract state: a request to an answer. The client sets no timeout, so a
  request may never be answered: then the operation does not return, which is \<open>None\<close>. Times are
  nanoseconds, the lease a 64-bit word; adding it to an \<open>Instant\<close> may overflow, which is a panic.
\<close>

section \<open>error.rs\<close>

datatype stage = AuthentikToken | VaultLogin | VaultRead

fun stage_display :: "stage \<Rightarrow> string" where
  "stage_display AuthentikToken = ''authentik token request''"
| "stage_display VaultLogin = ''OpenBao jwt login''"
| "stage_display VaultRead = ''OpenBao kv read''"

datatype secret_error =
    ConfigErr string
  | Network stage string
  | AuthRejected stage
  | NotFound
  | Upstream stage string

fun secret_error_display :: "secret_error \<Rightarrow> string" where
  "secret_error_display (ConfigErr s) = ''secret client misconfigured: '' @ s"
| "secret_error_display (Network st d) = ''network failure during '' @ stage_display st @ '': '' @ d"
| "secret_error_display (AuthRejected st) = ''credentials rejected during '' @ stage_display st"
| "secret_error_display NotFound = ''secret not found''"
| "secret_error_display (Upstream st d) = ''upstream anomaly during '' @ stage_display st @ '': '' @ d"

section \<open>secret.rs\<close>

datatype redacting = Redacting string

fun expose :: "redacting \<Rightarrow> string" where
  "expose (Redacting s) = s"

definition redacting_debug :: "redacting \<Rightarrow> string" where
  "redacting_debug r = ''<redacted>''"

definition redacting_display :: "redacting \<Rightarrow> string" where
  "redacting_display r = ''<redacted>''"

section \<open>config.rs\<close>

definition DEFAULT_SCOPE :: string where
  "DEFAULT_SCOPE = ''openid effective_groups''"

datatype ca = CaNone | CaPem string | CaPath string

record sconfig =
  cf_authentik_token_url :: string
  cf_client_id :: string
  cf_service_account :: string
  cf_app_password :: redacting
  cf_scope :: string
  cf_bao_addr :: string
  cf_jwt_role :: string
  cf_ca :: ca

definition sconfig_new ::
    "string \<Rightarrow> string \<Rightarrow> string \<Rightarrow> redacting \<Rightarrow> string \<Rightarrow> string \<Rightarrow> sconfig" where
  "sconfig_new token_url client_id account password bao_addr jwt_role =
     \<lparr>cf_authentik_token_url = token_url, cf_client_id = client_id, cf_service_account = account,
      cf_app_password = password, cf_scope = DEFAULT_SCOPE, cf_bao_addr = bao_addr,
      cf_jwt_role = jwt_role, cf_ca = CaNone\<rparr>"

definition with_scope :: "string \<Rightarrow> sconfig \<Rightarrow> sconfig" where
  "with_scope s c = c\<lparr>cf_scope := s\<rparr>"

definition with_ca_pem :: "string \<Rightarrow> sconfig \<Rightarrow> sconfig" where
  "with_ca_pem pem c = c\<lparr>cf_ca := CaPem pem\<rparr>"

definition with_ca_path :: "string \<Rightarrow> sconfig \<Rightarrow> sconfig" where
  "with_ca_path path c = c\<lparr>cf_ca := CaPath path\<rparr>"

definition ca_pem_bytes :: "(string \<Rightarrow> string + string) \<Rightarrow> sconfig \<Rightarrow> secret_error + string option" where
  "ca_pem_bytes read_file c =
     (case cf_ca c of
        CaNone \<Rightarrow> Inr None
      | CaPem bytes \<Rightarrow> Inr (Some bytes)
      | CaPath path \<Rightarrow>
          map_err (\<lambda>e. ConfigErr (''reading CA at '' @ path @ '': '' @ e)) (map_ok Some (read_file path)))"

section \<open>Requests and answers\<close>

datatype jvalue = JString string | JOther

datatype payload = NoBody | Form "(string \<times> string) list" | JsonObj "(string \<times> string) list"
  | JsonData "(string \<times> string) list"

record srequest =
  sr_method :: string
  sr_url :: string
  sr_vault_token :: "string option"
  sr_payload :: payload

text \<open>An answer, with its body decoded as each of the three types the client reads.\<close>

record sanswer =
  sa_status :: nat
  sa_status_text :: string
  sa_token :: "string + string"
  sa_login :: "string + string \<times> 64 word"
  sa_kv :: "string + (string \<times> jvalue) list"

record cached =
  cd_value :: string
  cd_expires_at :: nat

text \<open>\<open>sc_http\<close>: a transport failure or an answer, with the outside after it; \<open>None\<close> when none comes.\<close>

record 'x secret_client =
  sc_http :: "srequest \<Rightarrow> 'x \<Rightarrow> ((string + sanswer) \<times> 'x) option"
  sc_now :: "'x \<Rightarrow> nat"
  sc_config :: sconfig

record 'x sworld =
  sw_x :: 'x
  sw_cache :: "cached option"

datatype sfault = SecretErr secret_error | InstantOverflow

text \<open>What an \<open>async\<close> operation comes to: its result and the world, or a wait without end.\<close>

type_synonym ('x, 'a) awaited = "('a \<times> 'x sworld) option"

definition client_new ::
    "(string \<Rightarrow> string + string) \<Rightarrow> (string \<Rightarrow> string option) \<Rightarrow> (string option \<Rightarrow> string option)
     \<Rightarrow> sconfig \<Rightarrow> secret_error + sconfig" where
  "client_new read_file bad_cert build config =
     and_then (ca_pem_bytes read_file config) (\<lambda>pem.
       case Option.bind pem bad_cert of
         Some e \<Rightarrow> Inl (ConfigErr (''CA certificate: '' @ e))
       | None \<Rightarrow> (case build pem of
             Some e \<Rightarrow> Inl (ConfigErr (''http client: '' @ e)) | None \<Rightarrow> Inr config))"

definition is_success :: "sanswer \<Rightarrow> bool" where
  "is_success a \<longleftrightarrow> 200 \<le> sa_status a \<and> sa_status a < 300"

definition AUTH_REJECT :: "nat list" where
  "AUTH_REJECT = [400, 401, 403]"

definition LEASE_SKEW :: nat where
  "LEASE_SKEW = 10 * 1000000000"

definition token_form :: "string \<Rightarrow> string \<Rightarrow> string \<Rightarrow> string \<Rightarrow> (string \<times> string) list" where
  "token_form client_id username password scope =
     [(''grant_type'', ''client_credentials''), (''client_id'', client_id), (''username'', username),
      (''password'', password), (''scope'', scope)]"

definition login_url :: "string \<Rightarrow> string" where
  "login_url bao_addr = trim_end_char (CHR ''/'') bao_addr @ ''/v1/auth/jwt/login''"

definition data_url :: "string \<Rightarrow> string \<Rightarrow> string" where
  "data_url bao_addr path =
     trim_end_char (CHR ''/'') bao_addr @ ''/v1/kv/data/'' @ trim_start_char (CHR ''/'') path"

definition metadata_url :: "string \<Rightarrow> string \<Rightarrow> string" where
  "metadata_url bao_addr path =
     trim_end_char (CHR ''/'') bao_addr @ ''/v1/kv/metadata/'' @ trim_start_char (CHR ''/'') path"

text \<open>One request: a transport failure, or the answer.\<close>

definition send_http ::
    "'x secret_client \<Rightarrow> stage \<Rightarrow> srequest \<Rightarrow> 'x sworld \<Rightarrow> ('x, secret_error + sanswer) awaited" where
  "send_http c st rq w =
     map_option (\<lambda>(r, x). (map_err (Network st) r, w\<lparr>sw_x := x\<rparr>)) (sc_http c rq (sw_x w))"

text \<open>The error of a status that is not a success.\<close>

definition status_error :: "stage \<Rightarrow> string \<Rightarrow> sanswer \<Rightarrow> secret_error" where
  "status_error st what a =
     (if sa_status a \<in> set AUTH_REJECT then AuthRejected st
      else Upstream st (what @ '' returned '' @ sa_status_text a))"

section \<open>Logging in\<close>

definition authentik_token :: "'x secret_client \<Rightarrow> 'x sworld \<Rightarrow> ('x, secret_error + string) awaited" where
  "authentik_token c w =
     (let rq = \<lparr>sr_method = ''POST'', sr_url = cf_authentik_token_url (sc_config c),
                sr_vault_token = None,
                sr_payload = Form (token_form (cf_client_id (sc_config c))
                  (cf_service_account (sc_config c)) (expose (cf_app_password (sc_config c)))
                  (cf_scope (sc_config c)))\<rparr>
      in do {
           (r, w) \<leftarrow> send_http c AuthentikToken rq w;
           Some (and_then r (\<lambda>a.
                if \<not> is_success a then Inl (status_error AuthentikToken ''token endpoint'' a)
                else map_err (\<lambda>e. Upstream AuthentikToken (''invalid token payload: '' @ e)) (sa_token a)),
              w)
         })"

definition vault_login ::
    "'x secret_client \<Rightarrow> string \<Rightarrow> 'x sworld \<Rightarrow> ('x, secret_error + string \<times> 64 word) awaited" where
  "vault_login c jwt w =
     (let rq = \<lparr>sr_method = ''POST'', sr_url = login_url (cf_bao_addr (sc_config c)),
                sr_vault_token = None,
                sr_payload = JsonObj [(''role'', cf_jwt_role (sc_config c)), (''jwt'', jwt)]\<rparr>
      in do {
           (r, w) \<leftarrow> send_http c VaultLogin rq w;
           Some (and_then r (\<lambda>a.
                if \<not> is_success a then Inl (status_error VaultLogin ''jwt login'' a)
                else map_err (\<lambda>e. Upstream VaultLogin (''invalid login payload: '' @ e)) (sa_login a)),
              w)
         })"

text \<open>\<open>Duration::from_secs(lease).saturating_sub(LEASE_SKEW)\<close> and \<open>Instant + Duration\<close>.\<close>

definition token_ttl :: "64 word \<Rightarrow> nat" where
  "token_ttl lease = unat lease * 1000000000 - LEASE_SKEW"

definition instant_add :: "nat \<Rightarrow> nat \<Rightarrow> nat option" where
  "instant_add t d = (if (t + d) div 1000000000 < 2 ^ 63 then Some (t + d) else None)"

definition secret_login :: "'x secret_client \<Rightarrow> 'x sworld \<Rightarrow> ('x, sfault + cached) awaited" where
  "secret_login c w = do {
     (r, w) \<leftarrow> authentik_token c w;
     case r of
       Inl e \<Rightarrow> Some (Inl (SecretErr e), w)
     | Inr jwt \<Rightarrow> do {
         (r, w) \<leftarrow> vault_login c jwt w;
         Some (case r of
             Inl e \<Rightarrow> (Inl (SecretErr e), w)
           | Inr (token, lease) \<Rightarrow>
               (case instant_add (sc_now c (sw_x w)) (token_ttl lease) of
                  Some t \<Rightarrow> (Inr \<lparr>cd_value = token, cd_expires_at = t\<rparr>, w)
                | None \<Rightarrow> (Inl InstantOverflow, w)))
       }
   }"

definition login_into_cache :: "'x secret_client \<Rightarrow> 'x sworld \<Rightarrow> ('x, sfault + string) awaited" where
  "login_into_cache c w = do {
     (r, w) \<leftarrow> secret_login c w;
     Some (case r of
         Inl e \<Rightarrow> (Inl e, w)
       | Inr fresh \<Rightarrow> (Inr (cd_value fresh), w\<lparr>sw_cache := Some fresh\<rparr>))
   }"

definition cached_token :: "'x secret_client \<Rightarrow> 'x sworld \<Rightarrow> ('x, sfault + string) awaited" where
  "cached_token c w =
     (case sw_cache w of
        Some cd \<Rightarrow> if cd_expires_at cd > sc_now c (sw_x w) then Some (Inr (cd_value cd), w)
                   else login_into_cache c w
      | None \<Rightarrow> login_into_cache c w)"

definition reauthenticate :: "'x secret_client \<Rightarrow> 'x sworld \<Rightarrow> ('x, sfault + string) awaited" where
  "reauthenticate c w = login_into_cache c (w\<lparr>sw_cache := None\<rparr>)"

definition with_reauth ::
    "'x secret_client \<Rightarrow> (string \<Rightarrow> 'x sworld \<Rightarrow> ('x, secret_error + 'a) awaited) \<Rightarrow> 'x sworld
     \<Rightarrow> ('x, sfault + 'a) awaited" where
  "with_reauth c oper w = do {
     (r, w) \<leftarrow> cached_token c w;
     case r of
       Inl e \<Rightarrow> Some (Inl e, w)
     | Inr token \<Rightarrow> do {
         (r, w) \<leftarrow> oper token w;
         case r of
           Inl (AuthRejected VaultRead) \<Rightarrow> do {
             (r, w) \<leftarrow> reauthenticate c w;
             case r of
               Inl e \<Rightarrow> Some (Inl e, w)
             | Inr token \<Rightarrow> do { (r, w) \<leftarrow> oper token w; Some (map_err SecretErr r, w) }
           }
         | _ \<Rightarrow> Some (map_err SecretErr r, w)
       }
   }"

section \<open>The kv data plane\<close>

definition kv_get ::
    "'x secret_client \<Rightarrow> string \<Rightarrow> string \<Rightarrow> 'x sworld \<Rightarrow> ('x, secret_error + (string \<times> jvalue) list) awaited" where
  "kv_get c token path w =
     (let rq = \<lparr>sr_method = ''GET'', sr_url = data_url (cf_bao_addr (sc_config c)) path,
                sr_vault_token = Some token, sr_payload = NoBody\<rparr>
      in do {
           (r, w) \<leftarrow> send_http c VaultRead rq w;
           Some (and_then r (\<lambda>a.
                if \<not> is_success a
                then Inl (if sa_status a = 404 then NotFound else status_error VaultRead ''kv read'' a)
                else map_err (\<lambda>e. Upstream VaultRead (''invalid kv payload: '' @ e)) (sa_kv a)),
              w)
         })"

definition kv_put ::
    "'x secret_client \<Rightarrow> string \<Rightarrow> string \<Rightarrow> (string \<times> string) list \<Rightarrow> 'x sworld
     \<Rightarrow> ('x, secret_error + unit) awaited" where
  "kv_put c token path data w =
     (let rq = \<lparr>sr_method = ''POST'', sr_url = data_url (cf_bao_addr (sc_config c)) path,
                sr_vault_token = Some token, sr_payload = JsonData data\<rparr>
      in do {
           (r, w) \<leftarrow> send_http c VaultRead rq w;
           Some (and_then r (\<lambda>a.
                if \<not> is_success a then Inl (status_error VaultRead ''kv write'' a) else Inr ()), w)
         })"

definition kv_remove ::
    "'x secret_client \<Rightarrow> string \<Rightarrow> string \<Rightarrow> 'x sworld \<Rightarrow> ('x, secret_error + unit) awaited" where
  "kv_remove c token path w =
     (let rq = \<lparr>sr_method = ''DELETE'', sr_url = metadata_url (cf_bao_addr (sc_config c)) path,
                sr_vault_token = Some token, sr_payload = NoBody\<rparr>
      in do {
           (r, w) \<leftarrow> send_http c VaultRead rq w;
           Some (and_then r (\<lambda>a.
                if \<not> is_success a \<and> sa_status a \<noteq> 404
                then Inl (status_error VaultRead ''kv delete'' a) else Inr ()), w)
         })"

definition extract_field :: "(string \<times> jvalue) list \<Rightarrow> string \<Rightarrow> secret_error + redacting" where
  "extract_field kvs key =
     (case map_of kvs key of
        Some (JString s) \<Rightarrow> Inr (Redacting s)
      | Some JOther \<Rightarrow> Inl (Upstream VaultRead (''value at '' @ key @ '' is not a string''))
      | None \<Rightarrow> Inl NotFound)"

definition collect_fields :: "(string \<times> jvalue) list \<Rightarrow> secret_error + (string \<times> redacting) list" where
  "collect_fields kvs =
     traverse (\<lambda>(name, v). case v of
         JString s \<Rightarrow> Inr (name, Redacting s)
       | JOther \<Rightarrow> Inl (Upstream VaultRead (''value at '' @ name @ '' is not a string''))) kvs"

definition secret_fetch ::
    "'x secret_client \<Rightarrow> string \<Rightarrow> string \<Rightarrow> 'x sworld \<Rightarrow> ('x, sfault + redacting) awaited" where
  "secret_fetch c service key w =
     (let path = ''services/'' @ service @ ''/'' @ key in
      with_reauth c (\<lambda>token w. do {
          (r, w) \<leftarrow> kv_get c token path w;
          Some (and_then r (\<lambda>kvs. extract_field kvs key), w) }) w)"

definition read_doc ::
    "'x secret_client \<Rightarrow> string \<Rightarrow> 'x sworld \<Rightarrow> ('x, sfault + (string \<times> redacting) list) awaited" where
  "read_doc c path w =
     with_reauth c (\<lambda>token w. do {
       (r, w) \<leftarrow> kv_get c token path w; Some (and_then r collect_fields, w) }) w"

definition write_doc ::
    "'x secret_client \<Rightarrow> string \<Rightarrow> (string \<times> string) list \<Rightarrow> 'x sworld \<Rightarrow> ('x, sfault + unit) awaited" where
  "write_doc c path data w = with_reauth c (\<lambda>token. kv_put c token path data) w"

definition delete_doc ::
    "'x secret_client \<Rightarrow> string \<Rightarrow> 'x sworld \<Rightarrow> ('x, sfault + unit) awaited" where
  "delete_doc c path w = with_reauth c (\<lambda>token. kv_remove c token path) w"

section \<open>Frames\<close>

text \<open>
  Every operation is built from requests and changes of the cache.
\<close>

lemma send_http_world: "send_http c st rq w = Some (r, w') \<Longrightarrow>
   \<exists>a x. sc_http c rq (sw_x w) = Some (a, x) \<and> w' = w\<lparr>sw_x := x\<rparr> \<and> map_err (Network st) a = r"
  by (auto simp: send_http_def)

text \<open>A guarded result either is returned at once or comes from a further operation.\<close>

lemma if_Some_iff [result_simps]:
  "(case x of Inl e \<Rightarrow> Some (f e) | Inr a \<Rightarrow> g a) = Some y \<longleftrightarrow>
     (\<exists>e. x = Inl e \<and> f e = y) \<or> (\<exists>a. x = Inr a \<and> g a = Some y)"
  by (cases x) simp_all

lemma login_into_cache_Some:
  assumes "login_into_cache c w = Some (r, w')"
  obtains (failed) e where "secret_login c w = Some (Inl e, w')" "r = Inl e"
  | (fresh) cd v where "secret_login c w = Some (Inr cd, v)" "r = Inr (cd_value cd)"
      "w' = v\<lparr>sw_cache := Some cd\<rparr>"
proof -
  from assms obtain q v where "secret_login c w = Some (q, v)" by (auto simp: login_into_cache_def bind_eq_Some_conv)
  with assms failed fresh show thesis by (cases q) (auto simp: login_into_cache_def)
qed

lemma secret_login_Some:
  assumes "secret_login c w = Some (r, w')"
  obtains (no_jwt) e where "authentik_token c w = Some (Inl e, w')" "r = Inl (SecretErr e)"
  | (login) jwt w1 q where "authentik_token c w = Some (Inr jwt, w1)" "vault_login c jwt w1 = Some (q, w')"
proof -
  from assms obtain a w1 where t: "authentik_token c w = Some (a, w1)"
    by (auto simp: secret_login_def bind_eq_Some_conv)
  show thesis
  proof (cases a)
    case (Inl e)
    with assms t no_jwt show thesis by (auto simp: secret_login_def)
  next
    case (Inr jwt)
    with assms t obtain q w2 where q: "vault_login c jwt w1 = Some (q, w2)"
      by (auto simp: secret_login_def bind_eq_Some_conv)
    with assms t Inr have "w' = w2"
      by (cases q) (auto simp: secret_login_def split: option.splits prod.splits)
    with login t Inr q show thesis by blast
  qed
qed

text \<open>How a run of \<open>with_reauth\<close> that returns went.\<close>

lemma with_reauth_Some:
  assumes "with_reauth c oper w = Some (r, w')"
  obtains (no_token) e where "cached_token c w = Some (Inl e, w')" "r = Inl e"
  | (first) token w1 a where "cached_token c w = Some (Inr token, w1)" "oper token w1 = Some (a, w')"
      "a \<noteq> Inl (AuthRejected VaultRead)" "r = map_err SecretErr a"
  | (no_login) token w1 w2 e where "cached_token c w = Some (Inr token, w1)"
      "oper token w1 = Some (Inl (AuthRejected VaultRead), w2)" "reauthenticate c w2 = Some (Inl e, w')" "r = Inl e"
  | (second) token w1 w2 token' w3 a where "cached_token c w = Some (Inr token, w1)"
      "oper token w1 = Some (Inl (AuthRejected VaultRead), w2)" "reauthenticate c w2 = Some (Inr token', w3)"
      "oper token' w3 = Some (a, w')" "r = map_err SecretErr a"
proof -
  from assms obtain q w1 where t: "cached_token c w = Some (q, w1)"
    by (auto simp: with_reauth_def bind_eq_Some_conv)
  show thesis
  proof (cases q)
    case (Inl e)
    with assms t no_token show thesis by (auto simp: with_reauth_def)
  next
    case (Inr token)
    with assms t obtain a w2 where o1: "oper token w1 = Some (a, w2)"
      by (auto simp: with_reauth_def bind_eq_Some_conv)
    show thesis
    proof (cases "a = Inl (AuthRejected VaultRead)")
      case False
      with assms t Inr o1 have "r = map_err SecretErr a" "w' = w2"
        by (auto simp: with_reauth_def split: sum.splits secret_error.splits stage.splits)
      with first t Inr o1 False show thesis by blast
    next
      case True
      with assms t Inr o1 obtain d w3 where re: "reauthenticate c w2 = Some (d, w3)"
        by (auto simp: with_reauth_def bind_eq_Some_conv)
      show thesis
      proof (cases d)
        case (Inl e)
        with assms t Inr o1 True re have "r = Inl e" "w' = w3" by (auto simp: with_reauth_def)
        with no_login t Inr o1 True re Inl \<open>q = Inr token\<close> show thesis by blast
      next
        case d: (Inr token')
        with assms t Inr o1 True re obtain f w4 where "oper token' w3 = Some (f, w4)"
          "r = map_err SecretErr f" "w' = w4"
          by (auto simp: with_reauth_def bind_eq_Some_conv)
        with second t Inr o1 True re d show thesis by blast
      qed
    qed
  qed
qed

text \<open>The number of requests, for an outside that counts them.\<close>

locale counted =
  fixes c :: "'x secret_client" and cnt :: "'x \<Rightarrow> nat"
  assumes one: "sc_http c rq x = Some (a, x') \<Longrightarrow> cnt x' = Suc (cnt x)"
begin

lemma send_one: "send_http c st rq w = Some (r, w') \<Longrightarrow>
   cnt (sw_x w') = Suc (cnt (sw_x w)) \<and> sw_cache w' = sw_cache w"
  by (auto dest!: send_http_world one)

lemma step_requests:
  "authentik_token c w = Some (r, w') \<Longrightarrow> cnt (sw_x w') = Suc (cnt (sw_x w))"
  "vault_login c jwt w = Some (r2, w') \<Longrightarrow> cnt (sw_x w') = Suc (cnt (sw_x w))"
  by (auto simp: authentik_token_def vault_login_def Let_def bind_eq_Some_conv dest!: send_one)

lemma login_requests: "secret_login c w = Some (r, w') \<Longrightarrow> cnt (sw_x w') \<le> cnt (sw_x w) + 2"
  by (elim secret_login_Some) (auto dest!: step_requests)

lemma login_into_cache_requests:
  "login_into_cache c w = Some (r, w') \<Longrightarrow> cnt (sw_x w') \<le> cnt (sw_x w) + 2"
  by (elim login_into_cache_Some) (auto dest!: login_requests)

lemma cached_token_requests: "cached_token c w = Some (r, w') \<Longrightarrow> cnt (sw_x w') \<le> cnt (sw_x w) + 2"
  by (auto simp: cached_token_def dest!: login_into_cache_requests split: option.splits if_splits)

lemma reauthenticate_requests: "reauthenticate c w = Some (r, w') \<Longrightarrow> cnt (sw_x w') \<le> cnt (sw_x w) + 2"
  by (auto simp: reauthenticate_def dest!: login_into_cache_requests)

lemma with_reauth_requests:
  assumes "\<And>token w r w'. oper token w = Some (r, w') \<Longrightarrow> cnt (sw_x w') = Suc (cnt (sw_x w))"
    and "with_reauth c oper w = Some (r, w')"
  shows "cnt (sw_x w') \<le> cnt (sw_x w) + 6"
  using assms(2)
  by (cases rule: with_reauth_Some) (force dest!: assms(1) cached_token_requests reauthenticate_requests)+

lemma kv_requests:
  "kv_get c token path w = Some (r, w') \<Longrightarrow> cnt (sw_x w') = Suc (cnt (sw_x w))"
  "kv_put c token path data w = Some (r2, w') \<Longrightarrow> cnt (sw_x w') = Suc (cnt (sw_x w))"
  "kv_remove c token path w = Some (r2, w') \<Longrightarrow> cnt (sw_x w') = Suc (cnt (sw_x w))"
  by (auto simp: kv_get_def kv_put_def kv_remove_def Let_def bind_eq_Some_conv dest!: send_one)

lemma operation_requests:
  "secret_fetch c service key w = Some (r, w') \<Longrightarrow> cnt (sw_x w') \<le> cnt (sw_x w) + 6"
  "read_doc c path w = Some (r2, w') \<Longrightarrow> cnt (sw_x w') \<le> cnt (sw_x w) + 6"
  "write_doc c path data w = Some (r3, w') \<Longrightarrow> cnt (sw_x w') \<le> cnt (sw_x w) + 6"
  "delete_doc c path w = Some (r3, w') \<Longrightarrow> cnt (sw_x w') \<le> cnt (sw_x w) + 6"
  unfolding secret_fetch_def read_doc_def write_doc_def delete_doc_def Let_def
  by (erule with_reauth_requests [rotated]; auto simp: bind_eq_Some_conv dest: kv_requests)+

end

text \<open>A client whose requests are counted: the count is part of the outside state.\<close>

definition counting :: "'x secret_client \<Rightarrow> ('x \<times> nat) secret_client" where
  "counting c =
     \<lparr>sc_http = (\<lambda>rq (x, n). map_option (\<lambda>(a, x'). (a, x', Suc n)) (sc_http c rq x)),
      sc_now = (\<lambda>(x, n). sc_now c x), sc_config = sc_config c\<rparr>"

interpretation counting: counted "counting c" snd
  by unfold_locales (auto simp: counting_def split: prod.splits)

section \<open>Properties\<close>

text \<open>An outside of its own: the state is the time, a request takes a nanosecond.\<close>

definition demo_client :: "nat secret_client" where
  "demo_client =
     \<lparr>sc_http = (\<lambda>rq t. Some (Inr \<lparr>sa_status = 200, sa_status_text = ''200 OK'', sa_token = Inr ''jwt'',
        sa_login = Inr (''vault'', 3600), sa_kv = Inr [(''k'', JString ''s3cret'')]\<rparr>, Suc t)),
      sc_now = (\<lambda>t. t),
      sc_config = sconfig_new ''https://idp/token'' ''id'' ''svc'' (Redacting ''pw'') ''http://bao/'' ''role''\<rparr>"

definition demo_world :: "nat sworld" where
  "demo_world = \<lparr>sw_x = 0, sw_cache = None\<rparr>"

lemma lease_3600: "unat (3600 :: 64 word) = 3600"
  by simp

lemma demo_fetch:
  "secret_fetch demo_client ''svc'' ''k'' demo_world =
     Some (Inr (Redacting ''s3cret''), \<lparr>sw_x = 3, sw_cache = Some \<lparr>cd_value = ''vault'', cd_expires_at = 3590000000002\<rparr>\<rparr>)"
  by (simp add: secret_fetch_def with_reauth_def cached_token_def login_into_cache_def secret_login_def
      authentik_token_def vault_login_def send_http_def demo_client_def demo_world_def sconfig_new_def
      is_success_def instant_add_def token_ttl_def lease_3600 LEASE_SKEW_def kv_get_def
      extract_field_def)

lemma with_reauth_ok:
  assumes "with_reauth c oper w = Some (Inr x, w')"
  shows "\<exists>token v. oper token v = Some (Inr x, w')"
  using assms by (cases rule: with_reauth_Some) (auto simp: map_err_Inr eq_commute [of "Inr x"])

text \<open>C38: Reads fail closed: a fetched secret is the string the vault stored under the key, taken
  from a successful answer to a request for that document with a vault token, in this very call;
  there is no empty or defaulted success.\<close>

theorem fetch_fails_closed:
  assumes "secret_fetch c service key w = Some (Inr s, w')"
  shows "\<exists>token x a kvs. sc_http c
        \<lparr>sr_method = ''GET'',
         sr_url = data_url (cf_bao_addr (sc_config c)) (''services/'' @ service @ ''/'' @ key),
         sr_vault_token = Some token, sr_payload = NoBody\<rparr> x = Some (Inr a, sw_x w')
    \<and> is_success a \<and> sa_kv a = Inr kvs \<and> map_of kvs key = Some (JString (expose s))"
proof -
  have get: "\<exists>token x a kvs. sc_http c
        \<lparr>sr_method = ''GET'', sr_url = data_url (cf_bao_addr (sc_config c)) path,
         sr_vault_token = Some token, sr_payload = NoBody\<rparr> x = Some (Inr a, sw_x v')
    \<and> is_success a \<and> sa_kv a = Inr kvs \<and> map_of kvs key = Some (JString (expose s))"
    if "kv_get c token path v = Some (r, v')" "and_then r (\<lambda>kvs. extract_field kvs key) = Inr s" for token path v r v'
  proof -
    let ?rq = "\<lparr>sr_method = ''GET'', sr_url = data_url (cf_bao_addr (sc_config c)) path,
      sr_vault_token = Some token, sr_payload = NoBody\<rparr>"
    let ?read = "\<lambda>a. if \<not> is_success a
        then Inl (if sa_status a = 404 then NotFound else status_error VaultRead ''kv read'' a)
        else map_err (\<lambda>e. Upstream VaultRead (''invalid kv payload: '' @ e)) (sa_kv a)"
    from that(1) obtain q where q: "send_http c VaultRead ?rq v = Some (q, v')" "r = and_then q ?read"
      by (auto simp: kv_get_def Let_def bind_eq_Some_conv)
    from send_http_world [OF q(1)] obtain h x where h: "sc_http c ?rq (sw_x v) = Some (h, x)"
      "v' = v\<lparr>sw_x := x\<rparr>" "map_err (Network VaultRead) h = q" by blast
    from that(2) q(2) h(3) obtain a kvs where "h = Inr a" "is_success a" "sa_kv a = Inr kvs"
      "extract_field kvs key = Inr s"
      by (auto simp: result_simps split: if_splits)
    then show ?thesis using h(1,2)
      by (auto simp: extract_field_def intro!: exI split: option.splits jvalue.splits)
  qed
  from assms obtain token v where "do { (r, v) \<leftarrow> kv_get c token (''services/'' @ service @ ''/'' @ key) v;
      Some (and_then r (\<lambda>kvs. extract_field kvs key), v) } = Some (Inr s, w')"
    unfolding secret_fetch_def Let_def by (blast dest: with_reauth_ok)
  then show ?thesis by (auto simp: bind_eq_Some_conv dest!: get)
qed

theorem fetch_fails_closed_witness:
  "\<exists>token x a. sc_http demo_client
        \<lparr>sr_method = ''GET'', sr_url = ''http://bao/v1/kv/data/services/svc/k'',
         sr_vault_token = Some token, sr_payload = NoBody\<rparr> x = Some (Inr a, 3) \<and> is_success a"
proof -
  have "data_url (cf_bao_addr (sc_config demo_client)) (''services/'' @ ''svc'' @ ''/'' @ ''k'') =
      ''http://bao/v1/kv/data/services/svc/k''"
    by (simp add: data_url_def demo_client_def sconfig_new_def trim_end_char_def trim_start_char_def)
  with fetch_fails_closed [OF demo_fetch] show ?thesis by auto
qed

text \<open>Bounded work: an operation of the client that returns has sent at most six requests, two logins
  of two requests each and two attempts, whatever the servers answer; a rejected token is retried
  once.\<close>

theorem operations_send_at_most_six_requests:
  "secret_fetch (counting c) service key w = Some (r, w') \<Longrightarrow> snd (sw_x w') \<le> snd (sw_x w) + 6"
  "read_doc (counting c) path w = Some (r2, w') \<Longrightarrow> snd (sw_x w') \<le> snd (sw_x w) + 6"
  "write_doc (counting c) path data w = Some (r3, w') \<Longrightarrow> snd (sw_x w') \<le> snd (sw_x w) + 6"
  "delete_doc (counting c) path w = Some (r3, w') \<Longrightarrow> snd (sw_x w') \<le> snd (sw_x w) + 6"
  by (rule counting.operation_requests, assumption)+

text \<open>
  A lease whose end the clock cannot represent: adding it to the \<open>Instant\<close> overflows, which is a
  panic inside the login and not an error of the taxonomy.
\<close>

lemma huge_lease_panics: "instant_add 0 (token_ttl 18446744073709551615) = None"
  by (simp add: instant_add_def token_ttl_def LEASE_SKEW_def)

end
