(* ===== verification/Secret_Sharing.thy ===== *)
theory Secret_Sharing
  imports Secret_Client
begin

text \<open>
  One \<open>SecretClient\<close> shared by many tasks (\<open>crates/secrets/src/client.rs\<close>). Its cache is a
  \<open>tokio::sync::Mutex\<close>: \<open>cached_token\<close> and \<open>reauthenticate\<close> hold the lock across the awaits of the
  login, and the attempts on the kv plane run without it. A task is the point its future is
  suspended at; a step runs one task from one await to the next, so requests of different tasks
  interleave. Futures may be dropped at any await, which releases the lock, and time may pass
  between any two steps; a login's answer and the clock reading that starts its lease are one step.
  A request that is not answered keeps its task where it is.
\<close>

section \<open>Tasks\<close>

text \<open>An operation on the client, and what it gives its caller.\<close>

datatype use = UseFetch string string | UseRead string | UseWrite string "(string \<times> string) list" | UseDelete string

datatype kv_outcome = GotSecret redacting | GotDoc "(string \<times> redacting) list" | Finished

text \<open>The closure an operation hands to \<open>with_reauth\<close>.\<close>

fun kv_attempt ::
    "'x secret_client \<Rightarrow> use \<Rightarrow> string \<Rightarrow> 'x sworld \<Rightarrow> ('x, secret_error + kv_outcome) awaited" where
  "kv_attempt c (UseFetch service key) token w = do {
     (r, w) \<leftarrow> kv_get c token (''services/'' @ service @ ''/'' @ key) w;
     Some (map_ok GotSecret (and_then r (\<lambda>kvs. extract_field kvs key)), w) }"
| "kv_attempt c (UseRead path) token w = do {
     (r, w) \<leftarrow> kv_get c token path w; Some (map_ok GotDoc (and_then r collect_fields), w) }"
| "kv_attempt c (UseWrite path data) token w = do {
     (r, w) \<leftarrow> kv_put c token path data w; Some (map_ok (\<lambda>u. Finished) r, w) }"
| "kv_attempt c (UseDelete path) token w = do {
     (r, w) \<leftarrow> kv_remove c token path w; Some (map_ok (\<lambda>u. Finished) r, w) }"

text \<open>
  Where a task stands: before the lock of \<open>cached_token\<close>; in a login, before its first and before
  its second request, holding the lock; before an attempt, the flag telling the one after a
  rejection; before the lock of \<open>reauthenticate\<close>; returned.
\<close>

datatype client_task =
    Begin use
  | Token use bool
  | Vault use bool string
  | Attempt use bool string
  | Again use
  | Done "sfault + kv_outcome"

record 'x shared =
  sh_world :: "'x sworld"
  sh_lock :: "nat option"
  sh_task :: "nat \<Rightarrow> client_task option"

definition shared_new :: "'x sworld \<Rightarrow> 'x shared" where
  "shared_new w = \<lparr>sh_world = w\<lparr>sw_cache := None\<rparr>, sh_lock = None, sh_task = (\<lambda>p. None)\<rparr>"

text \<open>The entry of the cache, when its lease has not run out.\<close>

definition fresh_entry :: "'x secret_client \<Rightarrow> 'x sworld \<Rightarrow> cached option" where
  "fresh_entry c w =
     (case sw_cache w of
        Some cd \<Rightarrow> if cd_expires_at cd > sc_now c (sw_x w) then Some cd else None
      | None \<Rightarrow> None)"

text \<open>What a task does with the outcome of an attempt: log in again once, or return it.\<close>

fun after_attempt :: "use \<Rightarrow> bool \<Rightarrow> secret_error + kv_outcome \<Rightarrow> client_task" where
  "after_attempt u False (Inl (AuthRejected VaultRead)) = Again u"
| "after_attempt u again r = Done (map_err SecretErr r)"

text \<open>A task in a login: the lock's holder.\<close>

fun logging_in :: "client_task \<Rightarrow> bool" where
  "logging_in (Token u b) = True"
| "logging_in (Vault u b jwt) = True"
| "logging_in _ = False"

abbreviation moves :: "'x shared \<Rightarrow> nat \<Rightarrow> client_task \<Rightarrow> 'x sworld \<Rightarrow> nat option \<Rightarrow> 'x shared" where
  "moves s p ph w l \<equiv> \<lparr>sh_world = w, sh_lock = l, sh_task = (sh_task s)(p \<mapsto> ph)\<rparr>"

section \<open>Steps\<close>

text \<open>The next step of task \<open>p\<close>, if it is not waiting for the lock or for an answer and has not returned.\<close>

definition task_next :: "'x secret_client \<Rightarrow> nat \<Rightarrow> 'x shared \<Rightarrow> 'x shared option" where
  "task_next c p s =
     (let w = sh_world s in
      case sh_task s p of
        None \<Rightarrow> None
      | Some (Begin u) \<Rightarrow>
          (if sh_lock s \<noteq> None then None
           else case fresh_entry c w of
             Some cd \<Rightarrow> Some (moves s p (Attempt u False (cd_value cd)) w None)
           | None \<Rightarrow> Some (moves s p (Token u False) w (Some p)))
      | Some (Token u b) \<Rightarrow>
          do {
            (r, w) \<leftarrow> authentik_token c w;
            Some (case r of
                Inl e \<Rightarrow> moves s p (Done (Inl (SecretErr e))) w None
              | Inr jwt \<Rightarrow> moves s p (Vault u b jwt) w (sh_lock s)) }
      | Some (Vault u b jwt) \<Rightarrow>
          do {
            (r, w) \<leftarrow> vault_login c jwt w;
            Some (case r of
                Inl e \<Rightarrow> moves s p (Done (Inl (SecretErr e))) w None
              | Inr (token, lease) \<Rightarrow>
                  (case instant_add (sc_now c (sw_x w)) (token_ttl lease) of
                     None \<Rightarrow> moves s p (Done (Inl InstantOverflow)) w None
                   | Some t \<Rightarrow> moves s p (Attempt u b token)
                       (w\<lparr>sw_cache := Some \<lparr>cd_value = token, cd_expires_at = t\<rparr>\<rparr>) None)) }
      | Some (Attempt u b token) \<Rightarrow>
          do {
            (r, w) \<leftarrow> kv_attempt c u token w;
            Some (moves s p (after_attempt u b r) w (sh_lock s)) }
      | Some (Again u) \<Rightarrow>
          (if sh_lock s \<noteq> None then None
           else Some (moves s p (Token u True) (w\<lparr>sw_cache := None\<rparr>) (Some p)))
      | Some (Done r) \<Rightarrow> None)"

inductive client_step :: "'x secret_client \<Rightarrow> 'x shared \<Rightarrow> 'x shared \<Rightarrow> bool" for c where
  run: "task_next c p s = Some s' \<Longrightarrow> client_step c s s'"
| arrive: "sh_task s p = None \<Longrightarrow> client_step c s (s\<lparr>sh_task := (sh_task s)(p \<mapsto> Begin u)\<rparr>)"
| drop: "client_step c s (s\<lparr>sh_task := (sh_task s)(p := None),
    sh_lock := (if sh_lock s = Some p then None else sh_lock s)\<rparr>)"
| tick: "sc_now c (sw_x (sh_world s)) \<le> sc_now c x \<Longrightarrow>
    client_step c s (s\<lparr>sh_world := (sh_world s)\<lparr>sw_x := x\<rparr>\<rparr>)"

inductive shared_reachable :: "'x secret_client \<Rightarrow> 'x shared \<Rightarrow> bool" for c where
  init: "shared_reachable c (shared_new w)"
| step: "shared_reachable c s \<Longrightarrow> client_step c s s' \<Longrightarrow> shared_reachable c s'"

section \<open>Leases\<close>

text \<open>
  What logins may have granted: \<open>G token end\<close> says a login gave the token with
  a lease that ends then; an entry of the cache is sound when its expiry stays ten seconds before
  the end of such a lease, or is already past.
\<close>

definition grants :: "'x secret_client \<Rightarrow> (string \<Rightarrow> nat \<Rightarrow> bool) \<Rightarrow> bool" where
  "grants c G \<longleftrightarrow> (\<forall>rq x a x' token lease. sc_http c rq x = Some (Inr a, x') \<longrightarrow>
     sa_login a = Inr (token, lease) \<longrightarrow> G token (sc_now c x' + unat lease * 1000000000))"

definition clock_monotone :: "'x secret_client \<Rightarrow> bool" where
  "clock_monotone c \<longleftrightarrow> (\<forall>rq x a x'. sc_http c rq x = Some (a, x') \<longrightarrow> sc_now c x \<le> sc_now c x')"

definition cache_sound :: "'x secret_client \<Rightarrow> (string \<Rightarrow> nat \<Rightarrow> bool) \<Rightarrow> 'x sworld \<Rightarrow> bool" where
  "cache_sound c G w \<longleftrightarrow>
     (case sw_cache w of
        None \<Rightarrow> True
      | Some cd \<Rightarrow> \<exists>ends. G (cd_value cd) ends \<and>
          (cd_expires_at cd + LEASE_SKEW \<le> ends \<or> cd_expires_at cd \<le> sc_now c (sw_x w)))"

lemma send_http_sound:
  assumes "clock_monotone c" "cache_sound c G w" "send_http c st rq w = Some (r, w')"
  shows "cache_sound c G w'"
proof -
  from send_http_world [OF assms(3)] obtain a x where
    "sc_http c rq (sw_x w) = Some (a, x)" and w': "w' = w\<lparr>sw_x := x\<rparr>" by blast
  with assms(1) have "sc_now c (sw_x w) \<le> sc_now c x" unfolding clock_monotone_def by blast
  with assms(2) w' show ?thesis
    by (fastforce simp: cache_sound_def split: option.splits)
qed

lemma authentik_token_sound:
  assumes "clock_monotone c" "cache_sound c G w" "authentik_token c w = Some (r, w')"
  shows "cache_sound c G w'"
  using assms(3) send_http_sound [OF assms(1,2)]
  by (auto simp: authentik_token_def Let_def bind_eq_Some_conv)

lemma vault_login_sound:
  assumes "clock_monotone c" "cache_sound c G w" "vault_login c jwt w = Some (r, w')"
  shows "cache_sound c G w'"
  using assms(3) send_http_sound [OF assms(1,2)]
  by (auto simp: vault_login_def Let_def bind_eq_Some_conv)

lemma vault_login_grant:
  assumes "grants c G" "vault_login c jwt w = Some (Inr (token, lease), w')"
  shows "G token (sc_now c (sw_x w') + unat lease * 1000000000)"
  using assms
  by (auto simp: vault_login_def Let_def grants_def result_simps bind_eq_Some_conv dest!: send_http_world
      split: if_splits)

lemma kv_sound:
  assumes "clock_monotone c" "cache_sound c G w"
  shows "kv_get c token path w = Some (r, w') \<Longrightarrow> cache_sound c G w'"
    "kv_put c token path data w = Some (r2, w') \<Longrightarrow> cache_sound c G w'"
    "kv_remove c token path w = Some (r2, w') \<Longrightarrow> cache_sound c G w'"
  using send_http_sound [OF assms]
  by (auto simp: kv_get_def kv_put_def kv_remove_def Let_def bind_eq_Some_conv)

section \<open>The invariant\<close>

text \<open>
  Exactly the task in a login holds the lock (\<open>lock_ok\<close>); the cache is sound and every token a task is
  about to use was granted by a login (\<open>sharing_ok\<close>).
\<close>

definition lock_ok :: "'x shared \<Rightarrow> bool" where
  "lock_ok s \<longleftrightarrow> (\<forall>p. sh_lock s = Some p \<longleftrightarrow> (\<exists>ph. sh_task s p = Some ph \<and> logging_in ph))"

fun granted :: "(string \<Rightarrow> nat \<Rightarrow> bool) \<Rightarrow> client_task \<Rightarrow> bool" where
  "granted G (Attempt u b token) = (\<exists>ends. G token ends)"
| "granted G _ = True"

definition tokens_ok :: "(string \<Rightarrow> nat \<Rightarrow> bool) \<Rightarrow> 'x shared \<Rightarrow> bool" where
  "tokens_ok G s \<longleftrightarrow> (\<forall>p ph. sh_task s p = Some ph \<longrightarrow> granted G ph)"

definition sharing_ok :: "'x secret_client \<Rightarrow> (string \<Rightarrow> nat \<Rightarrow> bool) \<Rightarrow> 'x shared \<Rightarrow> bool" where
  "sharing_ok c G s \<longleftrightarrow> tokens_ok G s \<and> cache_sound c G (sh_world s)"

lemma after_attempt_not:
  "\<not> logging_in (after_attempt u b r)" "granted G (after_attempt u b r)"
  by (induction u b r rule: after_attempt.induct) simp_all

lemma attempt_sound:
  assumes "clock_monotone c" "cache_sound c G w" "kv_attempt c u token w = Some (r, w')"
  shows "cache_sound c G w'"
  using assms(3) kv_sound [OF assms(1,2)] by (cases u) (auto simp: bind_eq_Some_conv)

lemma fresh_entry_sound:
  assumes "cache_sound c G w" "fresh_entry c w = Some cd"
  shows "\<exists>ends. G (cd_value cd) ends \<and> sc_now c (sw_x w) + LEASE_SKEW < ends"
  using assms by (auto simp: cache_sound_def fresh_entry_def split: option.splits if_splits)

lemma grant_installed:
  assumes "G token (now + unat lease * 1000000000)" "instant_add now (token_ttl lease) = Some t"
    "now = sc_now c (sw_x w)"
  shows "cache_sound c G (w\<lparr>sw_cache := Some \<lparr>cd_value = token, cd_expires_at = t\<rparr>\<rparr>)"
  using assms by (auto simp: cache_sound_def instant_add_def token_ttl_def split: if_splits)

lemma sharing_moves:
  assumes "sharing_ok c G s" "cache_sound c G w" "granted G ph"
  shows "sharing_ok c G (moves s p ph w l)"
  using assms by (auto simp: sharing_ok_def tokens_ok_def)

lemma task_next_ok:
  assumes "clock_monotone c" "grants c G" "sharing_ok c G s" "task_next c p s = Some s'"
  shows "sharing_ok c G s'"
proof -
  from assms(3) have cs: "cache_sound c G (sh_world s)" by (auto simp: sharing_ok_def)
  have none: "cache_sound c G (w\<lparr>sw_cache := None\<rparr>)" for w by (simp add: cache_sound_def)
  from assms(4) obtain ph where ph: "sh_task s p = Some ph"
    by (cases "sh_task s p") (auto simp: task_next_def)
  note go = sharing_moves [OF assms(3)]
  show ?thesis
  proof (cases ph)
    case (Begin u)
    show ?thesis
    proof (cases "fresh_entry c (sh_world s)")
      case None
      with assms(4) ph Begin show ?thesis
        by (auto simp: task_next_def Let_def split: if_splits intro!: go cs)
    next
      case (Some cd)
      with assms(4) ph Begin have "s' = moves s p (Attempt u False (cd_value cd)) (sh_world s) (sh_lock s)"
        by (auto simp: task_next_def Let_def split: if_splits)
      with fresh_entry_sound [OF cs Some] Begin show ?thesis by (auto intro!: go cs)
    qed
  next
    case (Token u b)
    with assms(4) ph obtain r w where r: "authentik_token c (sh_world s) = Some (r, w)"
      by (auto simp: task_next_def bind_eq_Some_conv)
    note cw = authentik_token_sound [OF assms(1) cs r]
    from assms(4) ph Token r show ?thesis
      by (cases r) (auto simp: task_next_def intro!: go cw)
  next
    case (Vault u b jwt)
    with assms(4) ph obtain r w where r: "vault_login c jwt (sh_world s) = Some (r, w)"
      by (auto simp: task_next_def bind_eq_Some_conv)
    note cw = vault_login_sound [OF assms(1) cs r]
    show ?thesis
    proof (cases r)
      case (Inl e)
      with assms(4) ph Vault r show ?thesis by (auto simp: task_next_def intro!: go cw)
    next
      case (Inr tl)
      obtain token lease where tl: "tl = (token, lease)" by (cases tl)
      note g = vault_login_grant [OF assms(2) r [unfolded Inr tl]]
      show ?thesis
      proof (cases "instant_add (sc_now c (sw_x w)) (token_ttl lease)")
        case None
        with assms(4) ph Vault r Inr tl show ?thesis
          by (auto simp: task_next_def intro!: go cw)
      next
        case (Some t)
        with assms(4) ph Vault r Inr tl g show ?thesis
          by (auto simp: task_next_def intro!: go grant_installed [of G token _ lease t, OF g Some])
      qed
    qed
  next
    case (Attempt u b token)
    with assms(4) ph obtain r w where r: "kv_attempt c u token (sh_world s) = Some (r, w)"
      by (auto simp: task_next_def bind_eq_Some_conv)
    note cw = attempt_sound [OF assms(1) cs r]
    from assms(4) ph Attempt r show ?thesis
      by (auto simp: task_next_def after_attempt_not intro!: go cw)
  next
    case (Again u)
    with assms(4) ph show ?thesis
      by (auto simp: task_next_def Let_def split: if_splits intro!: go none)
  next
    case (Done r)
    with assms(4) ph show ?thesis by (simp add: task_next_def)
  qed
qed

lemma cache_sound_later:
  assumes "cache_sound c G w" "sc_now c (sw_x w) \<le> sc_now c x"
  shows "cache_sound c G (w\<lparr>sw_x := x\<rparr>)"
  using assms by (fastforce simp: cache_sound_def split: option.splits)

lemma client_step_ok:
  assumes "clock_monotone c" "grants c G" "client_step c s s'" "sharing_ok c G s"
  shows "sharing_ok c G s'"
  using assms(3)
proof cases
  case (run p)
  with task_next_ok [OF assms(1,2,4)] show ?thesis by blast
next
  case (arrive p u)
  with assms(4) show ?thesis by (auto simp: sharing_ok_def tokens_ok_def)
next
  case (drop p)
  with assms(4) show ?thesis by (auto simp: sharing_ok_def tokens_ok_def)
next
  case (tick x)
  with assms(4) cache_sound_later show ?thesis by (auto simp: sharing_ok_def tokens_ok_def)
qed

lemma shared_reachable_ok:
  assumes "clock_monotone c" "grants c G"
  shows "shared_reachable c s \<Longrightarrow> sharing_ok c G s"
proof (induction rule: shared_reachable.induct)
  case (init w)
  then show ?case
    by (simp add: sharing_ok_def tokens_ok_def cache_sound_def shared_new_def)
next
  case (step s s')
  with client_step_ok [OF assms] show ?case by blast
qed


section \<open>The operations are runs\<close>

text \<open>An operation of \<open>Secret_Client\<close>, its result read as an \<open>kv_outcome\<close>.\<close>

fun use_result :: "'x secret_client \<Rightarrow> use \<Rightarrow> 'x sworld \<Rightarrow> ('x, sfault + kv_outcome) awaited" where
  "use_result c (UseFetch service key) w =
     map_option (map_prod (map_ok GotSecret) id) (secret_fetch c service key w)"
| "use_result c (UseRead path) w = map_option (map_prod (map_ok GotDoc) id) (read_doc c path w)"
| "use_result c (UseWrite path data) w =
     map_option (map_prod (map_ok (\<lambda>u. Finished)) id) (write_doc c path data w)"
| "use_result c (UseDelete path) w =
     map_option (map_prod (map_ok (\<lambda>u. Finished)) id) (delete_doc c path w)"

lemma map_err_map_ok: "map_err f (map_ok g r) = map_ok g (map_err f r)"
  by (cases r) simp_all

lemma with_reauth_map:
  "with_reauth c (\<lambda>token w. map_option (map_prod (map_ok f) id) (oper token w)) w =
     map_option (map_prod (map_ok f) id) (with_reauth c oper w)"
proof (cases "cached_token c w")
  case (Some tok)
  then obtain q w1 where t: "cached_token c w = Some (q, w1)" by (cases tok) auto
  show ?thesis
  proof (cases q)
    case (Inr token)
    show ?thesis
    proof (cases "oper token w1")
      case (Some oa)
      then obtain a w2 where o1: "oper token w1 = Some (a, w2)" by (cases oa) auto
      show ?thesis
      proof (cases "a = Inl (AuthRejected VaultRead)")
        case True
        show ?thesis
        proof (cases "reauthenticate c w2")
          case (Some re)
          then obtain d w3 where re: "reauthenticate c w2 = Some (d, w3)" by (cases re) auto
          show ?thesis
          proof (cases d)
            case d: (Inr token')
            show ?thesis
            proof (cases "oper token' w3")
              case (Some ob)
              with t Inr o1 True re d show ?thesis
                by (cases ob) (simp add: with_reauth_def map_err_map_ok)
            qed (use t Inr o1 True re d in \<open>simp add: with_reauth_def\<close>)
          qed (use t Inr o1 True re in \<open>simp add: with_reauth_def\<close>)
        qed (use t Inr o1 True in \<open>simp add: with_reauth_def\<close>)
      next
        case False
        with t Inr o1 show ?thesis
          by (auto simp: with_reauth_def map_err_map_ok split: sum.split secret_error.split stage.split)
      qed
    qed (use t Inr in \<open>simp add: with_reauth_def\<close>)
  qed (use t in \<open>simp add: with_reauth_def\<close>)
qed (simp add: with_reauth_def)

lemma use_result_attempt: "use_result c u w = with_reauth c (kv_attempt c u) w"
proof (cases u)
  case (UseFetch service key)
  have "kv_attempt c u = (\<lambda>token w. map_option (map_prod (map_ok GotSecret) id)
      (do { (r, w) \<leftarrow> kv_get c token (''services/'' @ service @ ''/'' @ key) w;
            Some (and_then r (\<lambda>kvs. extract_field kvs key), w) }))"
    by (auto simp: UseFetch fun_eq_iff split: Option.bind_split)
  with UseFetch show ?thesis by (simp add: with_reauth_map secret_fetch_def Let_def)
next
  case (UseRead path)
  have "kv_attempt c u = (\<lambda>token w. map_option (map_prod (map_ok GotDoc) id)
      (do { (r, w) \<leftarrow> kv_get c token path w; Some (and_then r collect_fields, w) }))"
    by (auto simp: UseRead fun_eq_iff split: Option.bind_split)
  with UseRead show ?thesis by (simp add: with_reauth_map read_doc_def)
next
  case (UseWrite path data)
  have "kv_attempt c u = (\<lambda>token w. map_option (map_prod (map_ok (\<lambda>u. Finished)) id) (kv_put c token path data w))"
    by (auto simp: UseWrite fun_eq_iff split: Option.bind_split option.split)
  with UseWrite show ?thesis by (simp add: with_reauth_map write_doc_def)
next
  case (UseDelete path)
  have "kv_attempt c u = (\<lambda>token w. map_option (map_prod (map_ok (\<lambda>u. Finished)) id) (kv_remove c token path w))"
    by (auto simp: UseDelete fun_eq_iff split: Option.bind_split option.split)
  with UseDelete show ?thesis by (simp add: with_reauth_map delete_doc_def)
qed

text \<open>Runs of one task, the others standing still.\<close>

abbreviation runs :: "'x secret_client \<Rightarrow> 'x shared \<Rightarrow> 'x shared \<Rightarrow> bool" where
  "runs c \<equiv> (client_step c)\<^sup>*\<^sup>*"

abbreviation task_at :: "nat \<Rightarrow> (nat \<Rightarrow> client_task option) \<Rightarrow> 'x sworld \<Rightarrow> nat option \<Rightarrow> client_task \<Rightarrow> 'x shared" where
  "task_at p ts w l ph \<equiv> \<lparr>sh_world = w, sh_lock = l, sh_task = ts(p \<mapsto> ph)\<rparr>"

lemma runs_next: "task_next c p s = Some s1 \<Longrightarrow> runs c s1 s2 \<Longrightarrow> runs c s s2"
  by (meson client_step.run converse_rtranclp_into_rtranclp)

lemma login_runs:
  assumes "login_into_cache c w = Some (r, w')"
  shows "runs c (task_at p ts w (Some p) (Token u b))
    (task_at p ts w' None (case r of Inl e \<Rightarrow> Done (Inl e) | Inr token \<Rightarrow> Attempt u b token))"
proof -
  from assms obtain q v where login: "secret_login c w = Some (q, v)"
    by (auto simp: login_into_cache_def bind_eq_Some_conv)
  then obtain a w1 where a: "authentik_token c w = Some (a, w1)"
    by (auto simp: secret_login_def bind_eq_Some_conv)
  show ?thesis
  proof (cases a)
    case (Inl e)
    with assms login a show ?thesis
      by (auto simp: login_into_cache_def secret_login_def task_next_def intro!: r_into_rtranclp client_step.run [of c p])
  next
    case (Inr jwt)
    with login a obtain t w2 where t: "vault_login c jwt w1 = Some (t, w2)"
      by (auto simp: secret_login_def bind_eq_Some_conv)
    have step1: "task_next c p (task_at p ts w (Some p) (Token u b)) = Some (task_at p ts w1 (Some p) (Vault u b jwt))"
      using a Inr by (simp add: task_next_def)
    have "task_next c p (task_at p ts w1 (Some p) (Vault u b jwt)) =
      Some (task_at p ts w' None (case r of Inl e \<Rightarrow> Done (Inl e) | Inr token \<Rightarrow> Attempt u b token))"
    proof (cases t)
      case (Inl e)
      with assms a \<open>a = Inr jwt\<close> t show ?thesis
        by (auto simp: login_into_cache_def secret_login_def task_next_def)
    next
      case (Inr tl)
      with assms a \<open>a = Inr jwt\<close> t show ?thesis
        by (cases tl) (auto simp: login_into_cache_def secret_login_def task_next_def Let_def split: option.splits)
    qed
    from runs_next [OF step1 runs_next [OF this rtranclp.rtrancl_refl]] show ?thesis .
  qed
qed

lemma cached_token_runs:
  assumes "cached_token c w = Some (r, w')"
  shows "runs c (task_at p ts w None (Begin u))
    (task_at p ts w' None (case r of Inl e \<Rightarrow> Done (Inl e) | Inr token \<Rightarrow> Attempt u False token))"
proof (cases "fresh_entry c w")
  case None
  with assms have "login_into_cache c w = Some (r, w')"
    by (auto simp: cached_token_def fresh_entry_def split: option.splits if_splits)
  then have "runs c (task_at p ts w (Some p) (Token u False))
      (task_at p ts w' None (case r of Inl e \<Rightarrow> Done (Inl e) | Inr token \<Rightarrow> Attempt u False token))"
    by (rule login_runs)
  moreover have "task_next c p (task_at p ts w None (Begin u)) = Some (task_at p ts w (Some p) (Token u False))"
    using None by (simp add: task_next_def)
  ultimately show ?thesis by (blast intro: runs_next)
next
  case (Some cd)
  with assms have "r = Inr (cd_value cd) \<and> w' = w"
    by (auto simp: cached_token_def fresh_entry_def split: option.splits if_splits)
  with Some show ?thesis
    by (auto simp: task_next_def intro!: r_into_rtranclp client_step.run [of c p])
qed

lemma reauthenticate_runs:
  assumes "reauthenticate c w = Some (r, w')"
  shows "runs c (task_at p ts w None (Again u))
    (task_at p ts w' None (case r of Inl e \<Rightarrow> Done (Inl e) | Inr token \<Rightarrow> Attempt u True token))"
proof (rule runs_next)
  show "task_next c p (task_at p ts w None (Again u)) =
      Some (task_at p ts (w\<lparr>sw_cache := None\<rparr>) (Some p) (Token u True))"
    by (simp add: task_next_def)
next
  from assms show "runs c (task_at p ts (w\<lparr>sw_cache := None\<rparr>) (Some p) (Token u True)) (task_at p ts w' None
      (case r of Inl e \<Rightarrow> Done (Inl e) | Inr token \<Rightarrow> Attempt u True token))"
    by (intro login_runs) (simp add: reauthenticate_def)
qed

lemma attempt_runs:
  assumes "kv_attempt c u token w = Some (r, w')"
  shows "runs c (task_at p ts w None (Attempt u b token)) (task_at p ts w' None (after_attempt u b r))"
  using assms by (auto simp: task_next_def intro!: r_into_rtranclp client_step.run [of c p])

lemma after_attempt_True: "after_attempt u True r = Done (map_err SecretErr r)"
  by simp

lemma after_attempt_final:
  "r \<noteq> Inl (AuthRejected VaultRead) \<Longrightarrow> after_attempt u b r = Done (map_err SecretErr r)"
  by (cases "(u, b, r)" rule: after_attempt.cases) auto

lemma with_reauth_runs:
  assumes "with_reauth c (kv_attempt c u) w = Some (r, w')"
  shows "runs c (task_at p ts w None (Begin u)) (task_at p ts w' None (Done r))"
  using assms
proof (cases rule: with_reauth_Some)
  case (no_token e)
  with cached_token_runs [OF no_token(1), of ts p u] show ?thesis by simp
next
  case (first token w1 a)
  with rtranclp_trans [OF cached_token_runs [OF first(1), of ts p u, unfolded sum.case] attempt_runs [OF first(2)]]
  show ?thesis by (simp add: after_attempt_final)
next
  case (no_login token w1 w2 e)
  from rtranclp_trans [OF cached_token_runs [OF no_login(1), of ts p u, unfolded sum.case] attempt_runs [OF no_login(2)]]
  have "runs c (task_at p ts w None (Begin u)) (task_at p ts w2 None (Again u))" by simp
  with reauthenticate_runs [OF no_login(3), of ts p u] no_login(4) show ?thesis by (auto intro: rtranclp_trans)
next
  case (second token w1 w2 token' w3 a)
  from rtranclp_trans [OF cached_token_runs [OF second(1), of ts p u, unfolded sum.case] attempt_runs [OF second(2)]]
  have "runs c (task_at p ts w None (Begin u)) (task_at p ts w2 None (Again u))" by simp
  also have "runs c \<dots> (task_at p ts w3 None (Attempt u True token'))"
    using reauthenticate_runs [OF second(3), of ts p u] by simp
  also have "runs c \<dots> (task_at p ts w' None (Done r))"
    using attempt_runs [OF second(4), of ts p True] second(5) by simp
  finally show ?thesis .
qed


section \<open>What a task can wait for\<close>

text \<open>The steps a task has left at most, and those of all tasks.\<close>

fun steps_left :: "client_task \<Rightarrow> nat" where
  "steps_left (Begin u) = 8"
| "steps_left (Token u b) = (if b then 3 else 7)"
| "steps_left (Vault u b jwt) = (if b then 2 else 6)"
| "steps_left (Attempt u b token) = (if b then 1 else 5)"
| "steps_left (Again u) = 4"
| "steps_left (Done r) = 0"

definition total_left :: "'x shared \<Rightarrow> nat" where
  "total_left s = (\<Sum>p\<in>dom (sh_task s). steps_left (the (sh_task s p)))"

text \<open>What a step of task \<open>p\<close> does to the lock: nothing, release it or take it.\<close>

definition lock_moves :: "'x shared \<Rightarrow> nat \<Rightarrow> client_task \<Rightarrow> client_task \<Rightarrow> nat option \<Rightarrow> bool" where
  "lock_moves s p ph ph' l \<longleftrightarrow>
     l = sh_lock s \<and> logging_in ph' = logging_in ph
     \<or> l = None \<and> logging_in ph \<and> \<not> logging_in ph'
     \<or> sh_lock s = None \<and> l = Some p \<and> logging_in ph'"

text \<open>A run in which no task arrives, with the number of its task steps.\<close>

inductive busy_run :: "'x secret_client \<Rightarrow> nat \<Rightarrow> 'x shared \<Rightarrow> 'x shared \<Rightarrow> bool" for c where
  stop: "busy_run c 0 s s"
| work: "task_next c p s = Some s1 \<Longrightarrow> busy_run c n s1 s' \<Longrightarrow> busy_run c (Suc n) s s'"
| dropped: "busy_run c n (s\<lparr>sh_task := (sh_task s)(p := None),
    sh_lock := (if sh_lock s = Some p then None else sh_lock s)\<rparr>) s' \<Longrightarrow> busy_run c n s s'"
| later: "sc_now c (sw_x (sh_world s)) \<le> sc_now c x \<Longrightarrow>
    busy_run c n (s\<lparr>sh_world := (sh_world s)\<lparr>sw_x := x\<rparr>\<rparr>) s' \<Longrightarrow> busy_run c n s s'"

lemma after_attempt_left: "steps_left (after_attempt u b r) < (if b then 1 else 5)"
  by (induction u b r rule: after_attempt.induct) simp_all

lemma task_next_moves:
  assumes "task_next c p s = Some s'"
  shows "\<exists>ph ph' w l. sh_task s p = Some ph \<and> s' = moves s p ph' w l
    \<and> steps_left ph' < steps_left ph \<and> lock_moves s p ph ph' l"
proof -
  from assms obtain ph where ph: "sh_task s p = Some ph"
    by (cases "sh_task s p") (auto simp: task_next_def)
  have "\<exists>ph' w l. s' = moves s p ph' w l \<and> steps_left ph' < steps_left ph \<and> lock_moves s p ph ph' l"
  proof (cases ph)
    case (Begin u)
    with assms ph show ?thesis
      by (force simp: task_next_def Let_def lock_moves_def split: if_splits option.splits)
  next
    case (Token u b)
    with assms ph obtain r w where r: "authentik_token c (sh_world s) = Some (r, w)"
      by (auto simp: task_next_def bind_eq_Some_conv)
    with assms ph Token show ?thesis
      by (cases r) (force simp: task_next_def lock_moves_def)+
  next
    case (Vault u b jwt)
    with assms ph obtain r w where r: "vault_login c jwt (sh_world s) = Some (r, w)"
      by (auto simp: task_next_def bind_eq_Some_conv)
    with assms ph Vault show ?thesis
      by (cases r) (force simp: task_next_def lock_moves_def split: option.splits prod.splits)+
  next
    case (Attempt u b token)
    with assms ph obtain r w where r: "kv_attempt c u token (sh_world s) = Some (r, w)"
      by (auto simp: task_next_def bind_eq_Some_conv)
    with assms ph Attempt have "s' = moves s p (after_attempt u b r) w (sh_lock s)"
      by (simp add: task_next_def)
    moreover have "steps_left (after_attempt u b r) < steps_left ph"
      "lock_moves s p ph (after_attempt u b r) (sh_lock s)"
      using after_attempt_left [of u b r] Attempt by (simp_all add: lock_moves_def after_attempt_not)
    ultimately show ?thesis by blast
  next
    case (Again u)
    with assms ph show ?thesis
      by (force simp: task_next_def Let_def lock_moves_def split: if_splits)
  next
    case (Done r)
    with assms ph show ?thesis by (simp add: task_next_def)
  qed
  with ph show ?thesis by blast
qed

lemma lock_released:
  assumes "lock_ok s" "sh_task s p = Some ph" "logging_in ph" "\<not> logging_in ph'"
  shows "lock_ok (moves s p ph' w None)"
  using assms unfolding lock_ok_def by (metis (no_types, lifting) fun_upd_apply option.distinct(1)
      option.inject select_convs(2,3))

lemma lock_dropped:
  assumes "lock_ok s"
  shows "lock_ok (s\<lparr>sh_task := (sh_task s)(p := None),
    sh_lock := (if sh_lock s = Some p then None else sh_lock s)\<rparr>)"
proof -
  have one: "q = p" if "sh_lock s = Some p" "sh_task s q = Some ph" "logging_in ph" for q ph
    using assms that unfolding lock_ok_def by (metis option.inject)
  with assms show ?thesis by (auto simp: lock_ok_def)
qed

lemma task_next_lock:
  assumes "lock_ok s" "task_next c p s = Some s'"
  shows "lock_ok s'"
proof -
  from task_next_moves [OF assms(2)] obtain ph ph' w l where ph: "sh_task s p = Some ph"
    and s': "s' = moves s p ph' w l" and l: "lock_moves s p ph ph' l" by blast
  from l show ?thesis
    unfolding lock_moves_def s'
  proof (elim disjE conjE)
    assume "l = sh_lock s" "logging_in ph' = logging_in ph"
    with assms(1) ph show "lock_ok (moves s p ph' w l)" by (auto simp: lock_ok_def)
  next
    assume "l = None" "logging_in ph" "\<not> logging_in ph'"
    with lock_released [OF assms(1) ph] show "lock_ok (moves s p ph' w l)" by blast
  next
    assume "sh_lock s = None" "l = Some p" "logging_in ph'"
    with assms(1) show "lock_ok (moves s p ph' w l)" by (auto simp: lock_ok_def)
  qed
qed

lemma shared_reachable_lock:
  "shared_reachable c s \<Longrightarrow> lock_ok s \<and> finite (dom (sh_task s))"
proof (induction rule: shared_reachable.induct)
  case (init w)
  then show ?case by (simp add: lock_ok_def shared_new_def)
next
  case (step s s')
  from step(2) show ?case
  proof cases
    case (run p)
    with task_next_lock [of s c p s'] task_next_moves [OF run] step show ?thesis by auto
  next
    case (arrive p u)
    with step show ?thesis
      by (auto simp: lock_ok_def intro: rev_finite_subset [of "insert p (dom (sh_task s))"])
  next
    case (drop p)
    with step lock_dropped [of s p] show ?thesis
      by (auto simp: dom_def elim: rev_finite_subset)
  next
    case (tick x)
    with step show ?thesis by (auto simp: lock_ok_def)
  qed
qed

lemma total_left_update:
  assumes "finite (dom (sh_task s))" "sh_task s p = Some ph"
  shows "total_left (moves s p ph' w l) + steps_left ph = total_left s + steps_left ph'"
proof -
  have d: "dom (sh_task s) = insert p (dom (sh_task s) - {p})" using assms(2) by auto
  have "total_left s = steps_left ph + (\<Sum>q\<in>dom (sh_task s) - {p}. steps_left (the (sh_task s q)))"
    unfolding total_left_def using assms by (subst d, subst sum.insert) auto
  moreover have "total_left (moves s p ph' w l) =
      steps_left ph' + (\<Sum>q\<in>dom (sh_task s) - {p}. steps_left (the (sh_task s q)))"
    unfolding total_left_def using assms(1) by (simp add: sum.insert_remove)
  ultimately show ?thesis by simp
qed

lemma task_next_left:
  assumes "task_next c p s = Some s'" "finite (dom (sh_task s))"
  shows "total_left s' < total_left s \<and> finite (dom (sh_task s'))"
proof -
  from task_next_moves [OF assms(1)] obtain ph ph' w l where
    "sh_task s p = Some ph" "s' = moves s p ph' w l" "steps_left ph' < steps_left ph" by blast
  with total_left_update [OF assms(2) this(1), of w l ph'] assms(2) show ?thesis by simp
qed

lemma total_left_drop:
  assumes "finite (dom (sh_task s))"
  shows "total_left (s\<lparr>sh_task := (sh_task s)(p := None), sh_lock := l\<rparr>) \<le> total_left s"
proof -
  have "total_left (s\<lparr>sh_task := (sh_task s)(p := None), sh_lock := l\<rparr>) =
      (\<Sum>q\<in>dom (sh_task s) - {p}. steps_left (the (sh_task s q)))"
    by (auto simp: total_left_def intro: sum.cong)
  also have "\<dots> \<le> total_left s"
    unfolding total_left_def by (rule sum_mono2) (use assms in auto)
  finally show ?thesis .
qed

lemma busy_run_left:
  "busy_run c n s s' \<Longrightarrow> finite (dom (sh_task s)) \<Longrightarrow> n \<le> total_left s"
proof (induction rule: busy_run.induct)
  case (work p s s1 n s')
  with task_next_left [OF work(1)] show ?case by fastforce
next
  case (dropped n s p s')
  have "finite (dom ((sh_task s)(p := None)))" using dropped.prems by simp
  then have "n \<le> total_left (s\<lparr>sh_task := (sh_task s)(p := None),
      sh_lock := if sh_lock s = Some p then None else sh_lock s\<rparr>)"
    by (intro dropped.IH) (simp add: fun_upd_def)
  also have "\<dots> \<le> total_left s" using dropped.prems by (rule total_left_drop)
  finally show ?case .
next
  case (later s x n s')
  then show ?case by (simp add: total_left_def)
qed simp

lemma steps_left_le: "steps_left ph \<le> 8"
  by (cases ph) simp_all

lemma total_left_le: "total_left s \<le> 8 * card (dom (sh_task s))"
  unfolding total_left_def
  using sum_bounded_above [of "dom (sh_task s)" "\<lambda>p. steps_left (the (sh_task s p))" 8]
  by (simp add: steps_left_le)

lemma bind_pair_None:
  "(m \<bind> (\<lambda>(r, w). f r w)) = None \<longleftrightarrow> m = None \<or> (\<exists>r w. m = Some (r, w) \<and> f r w = None)"
  by (cases m) auto

text \<open>A task whose next request is not answered.\<close>

fun unanswered :: "'x secret_client \<Rightarrow> 'x sworld \<Rightarrow> client_task \<Rightarrow> bool" where
  "unanswered c w (Token u b) = (authentik_token c w = None)"
| "unanswered c w (Vault u b jwt) = (vault_login c jwt w = None)"
| "unanswered c w (Attempt u b token) = (kv_attempt c u token w = None)"
| "unanswered c w _ = False"

text \<open>A task that cannot step has returned, waits for an answer, or waits for the lock.\<close>

lemma waits_for:
  assumes "sh_task s p = Some ph" "task_next c p s = None"
  shows "(\<exists>r. ph = Done r) \<or> unanswered c (sh_world s) ph
    \<or> (\<exists>u. ph = Begin u \<or> ph = Again u) \<and> sh_lock s \<noteq> None"
  using assms
  by (cases ph) (auto simp: task_next_def Let_def split: if_splits option.splits Option.bind_splits prod.splits)

lemma holder_waits:
  assumes "lock_ok s" "sh_lock s = Some q" "task_next c q s = None"
  shows "\<exists>holder. sh_task s q = Some holder \<and> logging_in holder \<and> unanswered c (sh_world s) holder"
proof -
  from assms(1,2) obtain holder where holder: "sh_task s q = Some holder" "logging_in holder"
    unfolding lock_ok_def by blast
  with waits_for [OF holder(1) assms(3)] show ?thesis by (cases holder) auto
qed

lemma send_answered:
  assumes "\<And>rq x. sc_http c rq x \<noteq> None"
  shows "send_http c st rq w \<noteq> None"
  using assms by (simp add: send_http_def)

lemma kv_answered:
  assumes "\<And>rq x. sc_http c rq x \<noteq> None"
  shows "kv_get c token path w \<noteq> None" "kv_put c token path data w \<noteq> None"
    "kv_remove c token path w \<noteq> None" "authentik_token c w \<noteq> None" "vault_login c jwt w \<noteq> None"
  using send_answered [OF assms]
  by (simp_all only: kv_get_def kv_put_def kv_remove_def authentik_token_def vault_login_def Let_def
      bind_pair_None option.distinct simp_thms)

lemma answered:
  assumes "\<And>rq x. sc_http c rq x \<noteq> None"
  shows "\<not> unanswered c w ph"
proof (cases ph)
  case (Attempt u b token)
  with kv_answered [OF assms] show ?thesis by (cases u) (simp_all add: bind_pair_None)
qed (use kv_answered [OF assms] in simp_all)

text \<open>
  A login that is never answered: as long as its future is not dropped it keeps the lock, and no
  other task gets past it, neither one that arrives nor one whose token was rejected.
\<close>

definition hung :: "'x secret_client \<Rightarrow> nat \<Rightarrow> client_task \<Rightarrow> 'x shared \<Rightarrow> bool" where
  "hung c q holder s \<longleftrightarrow> sh_lock s = Some q \<and> sh_task s q = Some holder \<and> logging_in holder"

lemma login_hangs:
  assumes "login_into_cache c w = None"
  shows "\<exists>v l ph. runs c (task_at p ts w (Some p) (Token u b)) (task_at p ts v l ph) \<and> unanswered c v ph"
proof (cases "authentik_token c w")
  case None
  then show ?thesis by (intro exI [of _ w] exI [of _ "Some p"] exI [of _ "Token u b"]) simp
next
  case (Some tok)
  with assms obtain jwt w1 where a: "authentik_token c w = Some (Inr jwt, w1)" "vault_login c jwt w1 = None"
    by (cases tok) (auto simp: login_into_cache_def secret_login_def bind_pair_None split: sum.splits)
  then have "task_next c p (task_at p ts w (Some p) (Token u b)) = Some (task_at p ts w1 (Some p) (Vault u b jwt))"
    by (simp add: task_next_def)
  from runs_next [OF this rtranclp.rtrancl_refl] a(2) show ?thesis
    by (intro exI [of _ w1] exI [of _ "Some p"] exI [of _ "Vault u b jwt"]) simp
qed

lemma cached_token_hangs:
  assumes "cached_token c w = None"
  shows "\<exists>v l ph. runs c (task_at p ts w None (Begin u)) (task_at p ts v l ph) \<and> unanswered c v ph"
proof -
  from assms have none: "fresh_entry c w = None" "login_into_cache c w = None"
    by (auto simp: cached_token_def fresh_entry_def split: option.splits if_splits)
  then have "task_next c p (task_at p ts w None (Begin u)) = Some (task_at p ts w (Some p) (Token u False))"
    by (simp add: task_next_def)
  with login_hangs [OF none(2)] show ?thesis by (blast intro: runs_next)
qed

lemma reauthenticate_hangs:
  assumes "reauthenticate c w = None"
  shows "\<exists>v l ph. runs c (task_at p ts w None (Again u)) (task_at p ts v l ph) \<and> unanswered c v ph"
proof -
  have "task_next c p (task_at p ts w None (Again u)) =
      Some (task_at p ts (w\<lparr>sw_cache := None\<rparr>) (Some p) (Token u True))"
    by (simp add: task_next_def)
  with login_hangs [OF assms [unfolded reauthenticate_def]] show ?thesis by (blast intro: runs_next)
qed

lemma attempt_hangs:
  assumes "kv_attempt c u token w = None"
  shows "\<exists>v l ph. runs c (task_at p ts w None (Attempt u b token)) (task_at p ts v l ph) \<and> unanswered c v ph"
  using assms by (intro exI [of _ w] exI [of _ None] exI [of _ "Attempt u b token"]) simp

lemma hangs_later:
  "runs c s s1 \<Longrightarrow> \<exists>v l ph. runs c s1 (task_at p ts v l ph) \<and> unanswered c v ph \<Longrightarrow>
   \<exists>v l ph. runs c s (task_at p ts v l ph) \<and> unanswered c v ph"
  by (blast intro: rtranclp_trans)

lemma with_reauth_hangs:
  assumes "with_reauth c (kv_attempt c u) w = None"
  shows "\<exists>v l ph. runs c (task_at p ts w None (Begin u)) (task_at p ts v l ph) \<and> unanswered c v ph"
proof (cases "cached_token c w")
  case None
  then show ?thesis by (rule cached_token_hangs)
next
  case (Some tok)
  with assms obtain token w1 where t: "cached_token c w = Some (Inr token, w1)"
    by (cases tok) (auto simp: with_reauth_def split: sum.splits)
  note run1 = cached_token_runs [OF t, of ts p u, unfolded sum.case]
  show ?thesis
  proof (cases "kv_attempt c u token w1")
    case None
    then show ?thesis by (intro hangs_later [OF run1] attempt_hangs)
  next
    case (Some oa)
    with assms t obtain w2 where o1: "kv_attempt c u token w1 = Some (Inl (AuthRejected VaultRead), w2)"
      by (cases oa) (auto simp: with_reauth_def split: sum.splits secret_error.splits stage.splits)
    with rtranclp_trans [OF run1 attempt_runs [OF o1]]
    have run2: "runs c (task_at p ts w None (Begin u)) (task_at p ts w2 None (Again u))" by simp
    show ?thesis
    proof (cases "reauthenticate c w2")
      case None
      then show ?thesis by (intro hangs_later [OF run2] reauthenticate_hangs)
    next
      case (Some re)
      with assms t o1 obtain token' w3 where re: "reauthenticate c w2 = Some (Inr token', w3)"
        "kv_attempt c u token' w3 = None"
        by (cases re) (auto simp: with_reauth_def bind_pair_None split: sum.splits)
      from hangs_later [OF rtranclp_trans [OF run2 reauthenticate_runs [OF re(1), unfolded sum.case]]
          attempt_hangs [OF re(2)]] show ?thesis .
    qed
  qed
qed

lemma hung_step:
  assumes "client_step c s s'" "hung c q holder s" "\<And>w. unanswered c w holder" "sh_task s' q \<noteq> None" "lock_ok s"
  shows "hung c q holder s'"
  using assms(1)
proof cases
  case (run p)
  have "task_next c q s = None"
    using assms(2,3) by (cases holder) (auto simp: task_next_def hung_def)
  with run have "p \<noteq> q" by auto
  moreover from task_next_moves [OF run] obtain ph ph' w l where
    m: "sh_task s p = Some ph" "s' = moves s p ph' w l" "lock_moves s p ph ph' l" by blast
  have "\<not> logging_in ph"
    using assms(2,5) m(1) \<open>p \<noteq> q\<close> unfolding lock_ok_def hung_def by (metis option.inject)
  ultimately show ?thesis using assms(2) m by (auto simp: hung_def lock_moves_def)
next
  case (arrive p u)
  with assms(2) show ?thesis by (auto simp: hung_def)
next
  case (drop p)
  with assms(2,4) show ?thesis by (auto simp: hung_def split: if_splits)
next
  case (tick x)
  with assms(2) show ?thesis by (simp add: hung_def)
qed

lemma login_without_answer_blocks:
  assumes "shared_reachable c s" "hung c q holder s" "\<And>w. unanswered c w holder"
    and "(\<lambda>s s'. client_step c s s' \<and> sh_task s' q \<noteq> None)\<^sup>*\<^sup>* s s'"
    and "sh_task s' p \<in> {Some (Begin u), Some (Again u)}"
  shows "task_next c p s' = None"
proof -
  from assms(4,1,2) have "hung c q holder s' \<and> shared_reachable c s'"
    by (induction rule: rtranclp_induct)
      (auto intro: hung_step assms(3) shared_reachable.step dest: shared_reachable_lock)
  with assms(5) show ?thesis by (auto simp: hung_def task_next_def Let_def)
qed


section \<open>Two tasks\<close>

text \<open>
  The first task has logged in and is about to read; the second has just arrived.
\<close>

definition demo_logged_in :: "nat sworld" where
  "demo_logged_in = \<lparr>sw_x = 2, sw_cache = Some \<lparr>cd_value = ''vault'', cd_expires_at = 3590000000002\<rparr>\<rparr>"

definition demo_shared :: "nat shared" where
  "demo_shared = \<lparr>sh_world = demo_logged_in, sh_lock = None,
     sh_task = [0 \<mapsto> Attempt (UseFetch ''svc'' ''k'') False ''vault'', 1 \<mapsto> Begin (UseDelete ''svc'')]\<rparr>"

lemma demo_login:
  "login_into_cache demo_client demo_world = Some (Inr ''vault'', demo_logged_in)"
  by (simp add: login_into_cache_def secret_login_def authentik_token_def vault_login_def
      send_http_def demo_client_def demo_world_def demo_logged_in_def sconfig_new_def is_success_def
      instant_add_def token_ttl_def lease_3600 LEASE_SKEW_def)

text \<open>The second takes the token from the cache, the first reads, the second deletes.\<close>

definition demo_second :: "nat shared" where
  "demo_second = demo_shared\<lparr>sh_task := (sh_task demo_shared)(1 \<mapsto> Attempt (UseDelete ''svc'') False ''vault'')\<rparr>"

definition demo_third :: "nat shared" where
  "demo_third = \<lparr>sh_world = demo_logged_in\<lparr>sw_x := 3\<rparr>, sh_lock = None,
     sh_task = (sh_task demo_second)(0 \<mapsto> Done (Inr (GotSecret (Redacting ''s3cret''))))\<rparr>"

definition demo_last :: "nat shared" where
  "demo_last = \<lparr>sh_world = demo_logged_in\<lparr>sw_x := 4\<rparr>, sh_lock = None,
     sh_task = (sh_task demo_third)(1 \<mapsto> Done (Inr Finished))\<rparr>"

lemma demo_next:
  "task_next demo_client 1 demo_shared = Some demo_second"
  "task_next demo_client 0 demo_second = Some demo_third"
  "task_next demo_client 1 demo_third = Some demo_last"
  by (simp_all add: task_next_def demo_shared_def demo_second_def demo_third_def demo_last_def
      fresh_entry_def demo_logged_in_def demo_client_def kv_get_def kv_remove_def send_http_def
      is_success_def extract_field_def sconfig_new_def)

lemma demo_reachable: "shared_reachable demo_client demo_shared"
proof -
  let ?u = "UseFetch ''svc'' ''k''"
  have miss: "cached_token demo_client demo_world = Some (Inr ''vault'', demo_logged_in)"
    using demo_login by (simp add: cached_token_def demo_world_def)
  have w: "sh_world (shared_new demo_world) = demo_world"
    by (simp add: shared_new_def demo_world_def)
  have "shared_reachable demo_client (task_at 0 Map.empty demo_world None (Begin ?u))"
    using shared_reachable.step [OF shared_reachable.init [of demo_client demo_world]
        client_step.arrive [of _ 0 _ ?u]]
    by (simp add: shared_new_def demo_world_def)
  moreover have "shared_reachable demo_client s'" if "runs demo_client s s'" "shared_reachable demo_client s" for s s'
    using that by (induction) (auto intro: shared_reachable.step)
  ultimately have "shared_reachable demo_client (task_at 0 Map.empty demo_logged_in None (Attempt ?u False ''vault''))"
    using cached_token_runs [OF miss, of Map.empty 0 ?u] by simp
  from shared_reachable.step [OF this client_step.arrive [of _ 1 _ "UseDelete ''svc''"]]
  show ?thesis by (simp add: demo_shared_def)
qed

section \<open>Properties\<close>

text \<open>C32: A client shared by any number of tasks, whose requests interleave, whose futures may be
  dropped at any await: at every moment at most one task is in a login, every token a task is about
  to use was granted by a login, and a task that finds the cache filled sends no request and takes a
  token whose lease ends more than ten seconds from then.\<close>

theorem shared_token_within_lease:
  assumes "clock_monotone c" "grants c G" "shared_reachable c s"
  shows "(\<forall>p q ph ph'. sh_task s p = Some ph \<and> logging_in ph \<and> sh_task s q = Some ph' \<and> logging_in ph'
      \<longrightarrow> p = q)
    \<and> (\<forall>p u b token. sh_task s p = Some (Attempt u b token) \<longrightarrow> (\<exists>ends. G token ends))
    \<and> (\<forall>p u s' token. sh_task s p = Some (Begin u) \<and> task_next c p s = Some s'
      \<and> sh_task s' p = Some (Attempt u False token) \<longrightarrow>
        sh_world s' = sh_world s
        \<and> (\<exists>ends. G token ends \<and> sc_now c (sw_x (sh_world s)) + 10 * 1000000000 < ends))"
proof -
  from shared_reachable_lock [OF assms(3)] have lk: "lock_ok s" by simp
  from shared_reachable_ok [OF assms] have tk: "tokens_ok G s"
    and cs: "cache_sound c G (sh_world s)" by (auto simp: sharing_ok_def)
  have "p = q" if "sh_task s p = Some ph" "logging_in ph" "sh_task s q = Some ph'" "logging_in ph'"
    for p q ph ph'
    using lk that unfolding lock_ok_def by (metis option.inject)
  moreover have "\<exists>ends. G token ends" if "sh_task s p = Some (Attempt u b token)" for p u b token
    using tk that unfolding tokens_ok_def by fastforce
  moreover have "sh_world s' = sh_world s
      \<and> (\<exists>ends. G token ends \<and> sc_now c (sw_x (sh_world s)) + 10 * 1000000000 < ends)"
    if "sh_task s p = Some (Begin u)" "task_next c p s = Some s'"
      "sh_task s' p = Some (Attempt u False token)" for p u s' token
  proof (cases "fresh_entry c (sh_world s)")
    case None
    with that show ?thesis by (auto simp: task_next_def Let_def split: if_splits)
  next
    case (Some cd)
    with that fresh_entry_sound [OF cs Some] show ?thesis
      by (auto simp: task_next_def Let_def LEASE_SKEW_def split: if_splits)
  qed
  ultimately show ?thesis by blast
qed

theorem shared_token_within_lease_witness:
  "\<exists>s' ends. task_next demo_client 1 demo_shared = Some s' \<and> sh_world s' = sh_world demo_shared
    \<and> 3600000000000 \<le> ends \<and> sc_now demo_client (sw_x (sh_world demo_shared)) + 10 * 1000000000 < ends"
proof -
  have clock: "clock_monotone demo_client" by (simp add: clock_monotone_def demo_client_def)
  have gr: "grants demo_client (\<lambda>token ends. 3600000000000 \<le> ends)"
    by (auto simp: grants_def demo_client_def)
  have "sh_task demo_shared 1 = Some (Begin (UseDelete ''svc''))"
    "sh_task demo_second 1 = Some (Attempt (UseDelete ''svc'') False ''vault'')"
    by (simp_all add: demo_shared_def demo_second_def)
  with demo_next(1) shared_token_within_lease [OF clock gr demo_reachable] show ?thesis by blast
qed

text \<open>C35: What a task of a shared client can wait for. From any reachable state, without new arrivals, at
  most eight steps per task remain, whatever the servers answer, however requests interleave and
  whichever futures are dropped. When no task can step, each one has returned, or its own request is
  not answered, or it waits for the lock, and then the request of the login that holds the lock is not
  answered: a login that fails, panics or is dropped frees the lock. So if every request is answered,
  every task returns. The client sets no timeout that would see to that.\<close>

theorem shared_uses_finish:
  assumes "shared_reachable c s" "busy_run c n s s'"
  shows "n \<le> 8 * card (dom (sh_task s))
    \<and> ((\<forall>q. task_next c q s' = None) \<longrightarrow> (\<forall>ph\<in>ran (sh_task s').
         (\<exists>r. ph = Done r) \<or> unanswered c (sh_world s') ph
         \<or> (\<exists>u. ph = Begin u \<or> ph = Again u)
           \<and> (\<exists>q holder. sh_lock s' = Some q \<and> sh_task s' q = Some holder \<and> logging_in holder \<and> unanswered c (sh_world s') holder)))
    \<and> ((\<forall>q. task_next c q s' = None) \<longrightarrow> (\<forall>rq x. sc_http c rq x \<noteq> None) \<longrightarrow>
         (\<forall>ph\<in>ran (sh_task s'). \<exists>r. ph = Done r))"
proof -
  from shared_reachable_lock [OF assms(1)] busy_run_left [OF assms(2)] total_left_le [of s]
  have bound: "n \<le> 8 * card (dom (sh_task s))" by (meson order_trans)
  from assms(2,1) have "shared_reachable c s'"
    by (induction rule: busy_run.induct) (blast intro: shared_reachable.step client_step.intros)+
  then have lk: "lock_ok s'" using shared_reachable_lock by blast
  have stuck: "(\<exists>r. ph = Done r) \<or> unanswered c (sh_world s') ph
      \<or> (\<exists>u. ph = Begin u \<or> ph = Again u)
        \<and> (\<exists>q holder. sh_lock s' = Some q \<and> sh_task s' q = Some holder \<and> logging_in holder \<and> unanswered c (sh_world s') holder)"
    if "\<forall>q. task_next c q s' = None" "sh_task s' p = Some ph" for p ph
    using waits_for [OF that(2)] holder_waits [OF lk] that(1) by (metis not_Some_eq)
  have "\<exists>r. ph = Done r" if "\<forall>q. task_next c q s' = None" "\<forall>rq x. sc_http c rq x \<noteq> None" "sh_task s' p = Some ph" for p ph
    using stuck [OF that(1,3)] answered [of c] that(2) by blast
  with bound stuck show ?thesis by (auto simp: ran_def)
qed

theorem shared_uses_finish_witness:
  "3 \<le> 8 * card (dom (sh_task demo_shared)) \<and> (\<exists>r. sh_task demo_last 0 = Some (Done r))"
proof -
  have run: "busy_run demo_client (Suc (Suc (Suc 0))) demo_shared demo_last"
    by (intro busy_run.work [OF demo_next(1)] busy_run.work [OF demo_next(2)]
        busy_run.work [OF demo_next(3)] busy_run.stop)
  have "\<forall>q. task_next demo_client q demo_last = None"
    by (simp add: task_next_def demo_last_def demo_third_def demo_second_def demo_shared_def)
  moreover have "\<forall>rq x. sc_http demo_client rq x \<noteq> None" by (simp add: demo_client_def)
  moreover have "sh_task demo_last 0 \<noteq> None"
    by (simp add: demo_last_def demo_third_def)
  ultimately show ?thesis
    using shared_uses_finish [OF demo_reachable run] by (fastforce simp: ran_def)
qed

text \<open>C37: The operations of the client are runs of its concurrent steps: with the lock free, a task
  that starts \<open>fetch\<close>, \<open>read_doc\<close>, \<open>write_doc\<close> or \<open>delete_doc\<close> and runs undisturbed returns the
  result of the operation and leaves the world and the cache it leaves, with the lock free again; when
  the operation does not return, the task comes to a request that is not answered.\<close>

theorem operations_refine_client_steps:
  assumes "sh_lock s = None" "sh_task s p = Some (Begin u)"
  shows "case use_result c u (sh_world s) of
      Some (r, w) \<Rightarrow> (client_step c)\<^sup>*\<^sup>* s \<lparr>sh_world = w, sh_lock = None, sh_task = (sh_task s)(p \<mapsto> Done r)\<rparr>
    | None \<Rightarrow> \<exists>s' ph. (client_step c)\<^sup>*\<^sup>* s s' \<and> sh_task s' p = Some ph \<and> unanswered c (sh_world s') ph"
proof -
  have s: "s = task_at p (sh_task s) (sh_world s) None (Begin u)"
    using assms by (cases s) (simp add: map_upd_triv)
  show ?thesis
  proof (cases "use_result c u (sh_world s)")
    case None
    then have "with_reauth c (kv_attempt c u) (sh_world s) = None" by (simp add: use_result_attempt)
    from with_reauth_hangs [OF this, of "sh_task s" p] s obtain v l ph where
      "runs c s (task_at p (sh_task s) v l ph)" "unanswered c v ph" by auto
    with None show ?thesis by (auto intro!: exI [of _ "task_at p (sh_task s) v l ph"])
  next
    case (Some rw)
    then obtain r w where rw: "rw = (r, w)" by (cases rw)
    with Some have "with_reauth c (kv_attempt c u) (sh_world s) = Some (r, w)"
      by (simp add: use_result_attempt)
    from with_reauth_runs [OF this, of "sh_task s" p] s Some rw show ?thesis by simp
  qed
qed

theorem operations_refine_client_steps_witness:
  "(client_step demo_client)\<^sup>*\<^sup>*
    \<lparr>sh_world = demo_world, sh_lock = None, sh_task = [0 \<mapsto> Begin (UseFetch ''svc'' ''k'')]\<rparr>
    \<lparr>sh_world = \<lparr>sw_x = 3, sw_cache = Some \<lparr>cd_value = ''vault'', cd_expires_at = 3590000000002\<rparr>\<rparr>,
     sh_lock = None, sh_task = [0 \<mapsto> Done (Inr (GotSecret (Redacting ''s3cret'')))]\<rparr>"
  using operations_refine_client_steps [of "\<lparr>sh_world = demo_world, sh_lock = None,
      sh_task = [0 \<mapsto> Begin (UseFetch ''svc'' ''k'')]\<rparr>" 0 "UseFetch ''svc'' ''k''" demo_client]
  by (simp add: demo_fetch)

end
