(* ===== verification/Routing_Manifest.thy ===== *)
theory Routing_Manifest
  imports Rust_Prelude "HOL-Library.Char_ord" "HOL-Library.List_Lexorder" "HOL-Library.Product_Lexorder"
begin

text \<open>
  \<open>manifest.rs\<close>, \<open>router.rs\<close> and \<open>static_files.rs\<close> of \<open>crates/routing\<close>: the recording router.
  Each mounting operation adds a \<open>Registration\<close> and hands the route to axum. axum is not part of
  the repository: its routers are values of a type \<open>'r\<close> and what it does with them is the record
  \<open>axum_ops\<close>; a call that axum refuses by a panic is \<open>None\<close>. A string is its bytes, and the order
  on strings is the lexicographic order of their bytes, as in Rust.
\<close>

section \<open>Registrations\<close>

record registration =
  rg_fqname :: string
  rg_method :: string
  rg_path :: string
  rg_path_params :: "string list"

text \<open>One segment of a path: the name it binds, when it binds one.\<close>

definition brace_inner :: "string \<Rightarrow> string option" where
  "brace_inner seg = Option.bind (strip_prefix ''{'' seg) (strip_suffix ''}'')"

definition segment_param :: "string \<Rightarrow> string option" where
  "segment_param seg =
     (case brace_inner seg of
        None \<Rightarrow> None
      | Some inner \<Rightarrow>
          if starts_with inner ''{'' \<or> ends_with inner ''}'' \<or> inner = [] then None
          else Some (trim_start_char (CHR ''*'') inner))"

definition parse_path_params :: "string \<Rightarrow> string list" where
  "parse_path_params path = List.map_filter segment_param (split_char (CHR ''/'') path)"

text \<open>\<open>write_manifest\<close>: a stable sort by path and method, then serde's text (or its error), then the
  write, \<open>to_json\<close> and \<open>write\<close> being serde's printer and \<open>std::fs::write\<close>.\<close>

definition manifest_key :: "registration \<Rightarrow> string \<times> string" where
  "manifest_key r = (rg_path r, rg_method r)"

definition write_manifest ::
    "(registration list \<Rightarrow> 'io + string) \<Rightarrow> (string \<Rightarrow> string \<Rightarrow> 'fs \<Rightarrow> ('io + unit) \<times> 'fs)
     \<Rightarrow> registration list \<Rightarrow> string \<Rightarrow> 'fs \<Rightarrow> ('io + unit) \<times> 'fs" where
  "write_manifest to_json write_file regs path fs =
     (case to_json (sort_key manifest_key regs) of
        Inl e \<Rightarrow> (Inl e, fs)
      | Inr t \<Rightarrow> write_file path (t @ newline) fs)"

section \<open>Static files\<close>

datatype cache_policy = Immutable | NoCache

definition cache_header :: "cache_policy \<Rightarrow> string" where
  "cache_header c =
     (case c of Immutable \<Rightarrow> ''public, max-age=31536000, immutable'' | NoCache \<Rightarrow> ''no-cache'')"

text \<open>A response of this module: its status, body and two headers. \<open>header_ok\<close> says which texts
  \<open>HeaderValue::from_str\<close> takes.\<close>

record static_response =
  sr_status :: nat
  sr_body :: string
  sr_content_type :: "string option"
  sr_cache_control :: "string option"

definition serve_static :: "(string \<Rightarrow> bool) \<Rightarrow> string \<Rightarrow> string \<Rightarrow> cache_policy \<Rightarrow> static_response" where
  "serve_static header_ok bytes content_type cache =
     \<lparr>sr_status = 200, sr_body = bytes,
      sr_content_type = (if header_ok content_type then Some content_type else None),
      sr_cache_control = Some (cache_header cache)\<rparr>"

definition not_found :: static_response where
  "not_found = \<lparr>sr_status = 404, sr_body = '''', sr_content_type = None, sr_cache_control = None\<rparr>"

definition content_type_for :: "string \<Rightarrow> string" where
  "content_type_for name =
     (let ext = last (split_char (CHR ''.'') name) in
      if ext \<in> {''js'', ''mjs''} then ''text/javascript; charset=utf-8''
      else if ext = ''css'' then ''text/css; charset=utf-8''
      else if ext = ''svg'' then ''image/svg+xml''
      else if ext = ''png'' then ''image/png''
      else if ext = ''ico'' then ''image/x-icon''
      else if ext = ''woff2'' then ''font/woff2''
      else if ext \<in> {''map'', ''json''} then ''application/json''
      else if ext = ''html'' then ''text/html; charset=utf-8''
      else ''application/octet-stream'')"

definition safe_asset_path :: "string \<Rightarrow> string option" where
  "safe_asset_path path =
     (if path \<noteq> [] \<and> length path \<le> 512
         \<and> (\<forall>seg \<in> set (split_char (CHR ''/'') path). seg \<noteq> [] \<and> \<not> starts_with seg ''.'')
      then Some path else None)"

type_synonym asset_set = "(string \<times> string) list"

definition asset_get :: "asset_set \<Rightarrow> string \<Rightarrow> string option" where
  "asset_get files name = map_option snd (find (\<lambda>(n, _). n = name) files)"

text \<open>The closure \<open>static_dir\<close> mounts.\<close>

definition static_dir_handler ::
    "(string \<Rightarrow> bool) \<Rightarrow> asset_set \<Rightarrow> cache_policy \<Rightarrow> string \<Rightarrow> static_response" where
  "static_dir_handler header_ok files cache name =
     (case Option.bind (safe_asset_path name) (asset_get files) of
        Some bytes \<Rightarrow> serve_static header_ok bytes (content_type_for name) cache
      | None \<Rightarrow> not_found)"

section \<open>The router\<close>

datatype http_method = GET | POST | PUT | DELETE | PATCH

definition method_str :: "http_method \<Rightarrow> string" where
  "method_str m =
     (case m of GET \<Rightarrow> ''GET'' | POST \<Rightarrow> ''POST'' | PUT \<Rightarrow> ''PUT'' | DELETE \<Rightarrow> ''DELETE''
      | PATCH \<Rightarrow> ''PATCH'')"

text \<open>What a method router answers with: a handler of the application, or one of the two closures.\<close>

datatype 'h route_endpoint =
    Endpoint 'h
  | FileEndpoint string string cache_policy
  | DirEndpoint asset_set cache_policy

text \<open>\<open>ax_on m e\<close> is \<open>axum::routing::get(e)\<close> and its siblings.\<close>

record ('r, 'm, 'h, 'l, 's) axum_ops =
  ax_new :: 'r
  ax_on :: "http_method \<Rightarrow> 'h route_endpoint \<Rightarrow> 'm"
  ax_route :: "string \<Rightarrow> 'm \<Rightarrow> 'r \<Rightarrow> 'r option"
  ax_nest :: "string \<Rightarrow> 'r \<Rightarrow> 'r \<Rightarrow> 'r option"
  ax_merge :: "'r \<Rightarrow> 'r \<Rightarrow> 'r option"
  ax_layer :: "'l \<Rightarrow> 'r \<Rightarrow> 'r"
  ax_route_layer :: "'l \<Rightarrow> 'r \<Rightarrow> 'r option"
  ax_with_state :: "'s \<Rightarrow> 'r \<Rightarrow> 'r"
  ax_type_name :: "'h \<Rightarrow> string"

record 'r router =
  rt_inner :: 'r
  rt_manifest :: "registration list"

definition router_new :: "('r, 'm, 'h, 'l, 's) axum_ops \<Rightarrow> 'r router" where
  "router_new ax = \<lparr>rt_inner = ax_new ax, rt_manifest = []\<rparr>"

definition record_raw ::
    "('r, 'm, 'h, 'l, 's) axum_ops \<Rightarrow> string \<Rightarrow> http_method \<Rightarrow> string \<Rightarrow> 'm \<Rightarrow> 'r router
     \<Rightarrow> 'r router option" where
  "record_raw ax fqname m path mr r =
     map_option (\<lambda>inner.
        \<lparr>rt_inner = inner,
         rt_manifest = rt_manifest r @
           [\<lparr>rg_fqname = fqname, rg_method = method_str m, rg_path = path,
             rg_path_params = parse_path_params path\<rparr>]\<rparr>)
       (ax_route ax path mr (rt_inner r))"

text \<open>\<open>record\<close> takes the handler's type, whose name it records, apart from the method and the method
  router.\<close>

definition record_handler ::
    "('r, 'm, 'h, 'l, 's) axum_ops \<Rightarrow> 'h \<Rightarrow> http_method \<Rightarrow> string \<Rightarrow> 'm \<Rightarrow> 'r router \<Rightarrow> 'r router option" where
  "record_handler ax h m path mr r = record_raw ax (ax_type_name ax h) m path mr r"

definition router_get ::
    "('r, 'm, 'h, 'l, 's) axum_ops \<Rightarrow> string \<Rightarrow> 'h \<Rightarrow> 'r router \<Rightarrow> 'r router option" where
  "router_get ax path h = record_handler ax h GET path (ax_on ax GET (Endpoint h))"

definition router_post ::
    "('r, 'm, 'h, 'l, 's) axum_ops \<Rightarrow> string \<Rightarrow> 'h \<Rightarrow> 'r router \<Rightarrow> 'r router option" where
  "router_post ax path h = record_handler ax h POST path (ax_on ax POST (Endpoint h))"

definition router_put ::
    "('r, 'm, 'h, 'l, 's) axum_ops \<Rightarrow> string \<Rightarrow> 'h \<Rightarrow> 'r router \<Rightarrow> 'r router option" where
  "router_put ax path h = record_handler ax h PUT path (ax_on ax PUT (Endpoint h))"

definition router_delete ::
    "('r, 'm, 'h, 'l, 's) axum_ops \<Rightarrow> string \<Rightarrow> 'h \<Rightarrow> 'r router \<Rightarrow> 'r router option" where
  "router_delete ax path h = record_handler ax h DELETE path (ax_on ax DELETE (Endpoint h))"

definition router_patch ::
    "('r, 'm, 'h, 'l, 's) axum_ops \<Rightarrow> string \<Rightarrow> 'h \<Rightarrow> 'r router \<Rightarrow> 'r router option" where
  "router_patch ax path h = record_handler ax h PATCH path (ax_on ax PATCH (Endpoint h))"

definition static_file ::
    "('r, 'm, 'h, 'l, 's) axum_ops \<Rightarrow> string \<Rightarrow> string \<Rightarrow> string \<Rightarrow> cache_policy \<Rightarrow> 'r router
     \<Rightarrow> 'r router option" where
  "static_file ax path bytes content_type cache r =
     record_raw ax (''<static_file> GET '' @ path) GET path
       (ax_on ax GET (FileEndpoint bytes content_type cache)) r"

definition static_dir ::
    "('r, 'm, 'h, 'l, 's) axum_ops \<Rightarrow> string \<Rightarrow> asset_set \<Rightarrow> cache_policy \<Rightarrow> 'r router
     \<Rightarrow> 'r router option" where
  "static_dir ax pre files cache r =
     (let path = trim_end_char (CHR ''/'') pre @ ''/{name}''
      in record_raw ax (''<static_dir> GET '' @ path) GET path
           (ax_on ax GET (DirEndpoint files cache)) r)"

definition route_unrecorded ::
    "('r, 'm, 'h, 'l, 's) axum_ops \<Rightarrow> string \<Rightarrow> 'm \<Rightarrow> 'r router \<Rightarrow> 'r router option" where
  "route_unrecorded ax path mr r =
     map_option (\<lambda>inner. r\<lparr>rt_inner := inner\<rparr>) (ax_route ax path mr (rt_inner r))"

definition nested :: "string \<Rightarrow> registration \<Rightarrow> registration" where
  "nested base reg =
     (let path = (if rg_path reg = ''/'' then base else base @ rg_path reg)
      in reg\<lparr>rg_path := path, rg_path_params := parse_path_params path\<rparr>)"

definition router_nest ::
    "('r, 'm, 'h, 'l, 's) axum_ops \<Rightarrow> string \<Rightarrow> 'r router \<Rightarrow> 'r router \<Rightarrow> 'r router option" where
  "router_nest ax pre child r =
     map_option (\<lambda>inner.
        \<lparr>rt_inner = inner,
         rt_manifest = rt_manifest r @ map (nested (trim_end_char (CHR ''/'') pre)) (rt_manifest child)\<rparr>)
       (ax_nest ax pre (rt_inner child) (rt_inner r))"

definition router_merge ::
    "('r, 'm, 'h, 'l, 's) axum_ops \<Rightarrow> 'r router \<Rightarrow> 'r router \<Rightarrow> 'r router option" where
  "router_merge ax other r =
     map_option (\<lambda>inner. \<lparr>rt_inner = inner, rt_manifest = rt_manifest r @ rt_manifest other\<rparr>)
       (ax_merge ax (rt_inner other) (rt_inner r))"

definition router_layer :: "('r, 'm, 'h, 'l, 's) axum_ops \<Rightarrow> 'l \<Rightarrow> 'r router \<Rightarrow> 'r router" where
  "router_layer ax l r = r\<lparr>rt_inner := ax_layer ax l (rt_inner r)\<rparr>"

definition router_route_layer ::
    "('r, 'm, 'h, 'l, 's) axum_ops \<Rightarrow> 'l \<Rightarrow> 'r router \<Rightarrow> 'r router option" where
  "router_route_layer ax l r =
     map_option (\<lambda>inner. r\<lparr>rt_inner := inner\<rparr>) (ax_route_layer ax l (rt_inner r))"

definition router_with_state :: "('r, 'm, 'h, 'l, 's) axum_ops \<Rightarrow> 's \<Rightarrow> 'r router \<Rightarrow> 'r router" where
  "router_with_state ax s r = r\<lparr>rt_inner := ax_with_state ax s (rt_inner r)\<rparr>"

definition router_write_manifest ::
    "(registration list \<Rightarrow> 'io + string) \<Rightarrow> (string \<Rightarrow> string \<Rightarrow> 'fs \<Rightarrow> ('io + unit) \<times> 'fs)
     \<Rightarrow> 'r router \<Rightarrow> string \<Rightarrow> 'fs \<Rightarrow> ('io + unit) \<times> 'fs" where
  "router_write_manifest to_json write_file r path fs = write_manifest to_json write_file (rt_manifest r) path fs"

section \<open>Facts on paths\<close>

lemma brace_inner_Some: "brace_inner seg = Some inner \<longleftrightarrow> seg = ''{'' @ inner @ ''}''"
proof
  assume "brace_inner seg = Some inner"
  then obtain rest where s: "strip_prefix ''{'' seg = Some rest" "strip_suffix ''}'' rest = Some inner"
    by (auto simp: brace_inner_def split: Option.bind_splits)
  from s(1) have "seg = ''{'' @ rest"
    by (cases seg) (auto simp: strip_prefix_def starts_with_def split: if_splits)
  moreover from s(2) have "rest = inner @ ''}''"
    by (auto simp: strip_suffix_def ends_with_def split: if_splits)
  ultimately show "seg = ''{'' @ inner @ ''}''" by simp
next
  assume "seg = ''{'' @ inner @ ''}''"
  then show "brace_inner seg = Some inner"
    by (simp add: brace_inner_def strip_prefix_def strip_suffix_def starts_with_def ends_with_def)
qed

text \<open>A segment in braces whose name is plain binds that name.\<close>

definition plain_name :: "string \<Rightarrow> bool" where
  "plain_name p = (p \<noteq> [] \<and> (\<forall>c \<in> set p. c \<notin> {CHR ''{'', CHR ''}'', CHR ''*'', CHR ''/''}))"

lemma trim_start_char_plain: "\<forall>c \<in> set p. c \<noteq> x \<Longrightarrow> trim_start_char x p = p"
  by (cases p) (auto simp: trim_start_char_def)

lemma segment_param_plain:
  assumes "plain_name p"
  shows "segment_param (''{'' @ p @ ''}'') = Some p"
proof -
  from assms obtain a b where "p = a # b" "a \<noteq> CHR ''{''" by (cases p) (auto simp: plain_name_def)
  then have "\<not> starts_with p ''{''" by (simp add: starts_with_def)
  moreover have "\<not> ends_with p ''}''"
  proof
    assume "ends_with p ''}''"
    then have "''}'' = drop (length p - length ''}'') p" by (simp only: ends_with_def)
    then have "CHR ''}'' \<in> set p" by (metis in_set_dropD list.set_intros(1))
    with assms show False by (auto simp: plain_name_def)
  qed
  ultimately show ?thesis
    using assms brace_inner_Some [of "''{'' @ p @ ''}''" p]
    by (simp add: segment_param_def plain_name_def trim_start_char_plain)
qed

lemma trim_end_char_not_last: "trim_end_char c s \<noteq> [] \<Longrightarrow> last (trim_end_char c s) \<noteq> c"
  by (metis (full_types) dropWhile_eq_Cons_conv last_rev list.sel(1) neq_Nil_conv rev_is_Nil_conv
      rev_rev_ident trim_end_char_def)

text \<open>Nesting twice is nesting once under the joined prefix.\<close>

lemma nested_nested:
  assumes "b \<noteq> [] \<longrightarrow> last b \<noteq> CHR ''/''"
  shows "nested a (nested b reg) = nested (a @ b) reg"
proof -
  have "b @ rg_path reg = ''/'' \<longleftrightarrow> b = [] \<and> rg_path reg = ''/''"
    using assms by (cases b) auto
  with assms show ?thesis by (auto simp: nested_def Let_def)
qed

section \<open>What a chain of mounts leaves in the manifest\<close>

text \<open>
  \<open>anyhow\<close> allows what leaves no trace in the manifest, \<open>route\<close>, and nesting under a prefix that
  ends in a slash.
\<close>

inductive mounted :: "('r, 'm, 'h, 'l, 's) axum_ops \<Rightarrow> bool \<Rightarrow> 'r router \<Rightarrow> bool" for ax anyhow where
  fresh: "mounted ax anyhow (router_new ax)"
| handler: "mounted ax anyhow r \<Longrightarrow>
    mount \<in> {router_get ax, router_post ax, router_put ax, router_delete ax, router_patch ax} \<Longrightarrow>
    mount path h r = Some r' \<Longrightarrow> mounted ax anyhow r'"
| file_mount: "mounted ax anyhow r \<Longrightarrow> static_file ax path bytes ct cache r = Some r' \<Longrightarrow>
    mounted ax anyhow r'"
| dir_mount: "mounted ax anyhow r \<Longrightarrow> static_dir ax pre files cache r = Some r' \<Longrightarrow> mounted ax anyhow r'"
| raw: "anyhow \<Longrightarrow> mounted ax anyhow r \<Longrightarrow> route_unrecorded ax path mr r = Some r' \<Longrightarrow> mounted ax anyhow r'"
| nest: "anyhow \<or> trim_end_char (CHR ''/'') pre = pre \<Longrightarrow> mounted ax anyhow r \<Longrightarrow> mounted ax anyhow child \<Longrightarrow>
    router_nest ax pre child r = Some r' \<Longrightarrow> mounted ax anyhow r'"
| merge: "mounted ax anyhow r \<Longrightarrow> mounted ax anyhow other \<Longrightarrow> router_merge ax other r = Some r' \<Longrightarrow>
    mounted ax anyhow r'"
| layer: "mounted ax anyhow r \<Longrightarrow> mounted ax anyhow (router_layer ax l r)"
| route_layer: "mounted ax anyhow r \<Longrightarrow> router_route_layer ax l r = Some r' \<Longrightarrow> mounted ax anyhow r'"
| with_state: "mounted ax anyhow r \<Longrightarrow> mounted ax anyhow (router_with_state ax s r)"

text \<open>The five mounts of a handler: the method recorded is the one the handler is mounted for.\<close>

lemma verb_mount:
  assumes "mount \<in> {router_get ax, router_post ax, router_put ax, router_delete ax, router_patch ax}"
    and "mount path h r = Some r'"
  shows "\<exists>m. record_raw ax (ax_type_name ax h) m path (ax_on ax m (Endpoint h)) r = Some r'"
  using assms
  by (auto simp: router_get_def router_post_def router_put_def router_delete_def router_patch_def
      record_handler_def)

text \<open>The invariant: every entry's parameters are those of its path, and its method is one of the
  five.\<close>

definition registration_ok :: "registration \<Rightarrow> bool" where
  "registration_ok reg \<longleftrightarrow>
     rg_path_params reg = parse_path_params (rg_path reg) \<and> rg_method reg \<in> range method_str"

lemma record_raw_manifest:
  assumes "record_raw ax fq m path mr r = Some r'"
  shows "rt_manifest r' = rt_manifest r @ [\<lparr>rg_fqname = fq, rg_method = method_str m, rg_path = path,
    rg_path_params = parse_path_params path\<rparr>]"
  using assms by (auto simp: record_raw_def)

lemma nested_ok: "registration_ok reg \<Longrightarrow> registration_ok (nested base reg)"
  by (auto simp: registration_ok_def nested_def Let_def)

lemma mounted_ok: "mounted ax anyhow r \<Longrightarrow> reg \<in> set (rt_manifest r) \<Longrightarrow> registration_ok reg"
proof (induction arbitrary: reg rule: mounted.induct)
  case fresh
  then show ?case by (simp add: router_new_def)
next
  case (nest pre r child r')
  then show ?case by (auto simp: router_nest_def nested_ok)
qed (auto simp: static_file_def static_dir_def Let_def route_unrecorded_def
      router_merge_def router_layer_def router_route_layer_def router_with_state_def
      registration_ok_def dest!: verb_mount record_raw_manifest simp del: insert_iff)

section \<open>The manifest and what axum serves\<close>

text \<open>
  The documented behaviour of axum the router relies on: \<open>served\<close> is what a router answers, as paths,
  methods and endpoints, \<open>methods\<close> what a method router does. A route is added to what is there, a
  nested router is reached under the prefix, and layers and state do not change what is served. The
  root of a nested router is at the prefix itself; under a prefix that ends in a slash, a route's own
  leading slash is left out.
\<close>

definition under :: "string \<Rightarrow> string \<times> 'm \<times> 'e \<Rightarrow> string \<times> 'm \<times> 'e" where
  "under pre route =
     (case route of (path, m, e) \<Rightarrow>
        (if ends_with pre ''/'' then pre @ trim_start_char (CHR ''/'') path
         else if path = ''/'' then pre else pre @ path, m, e))"

lemma trimmed_ends:
  assumes "trim_end_char c s = s"
  shows "\<not> ends_with s [c]"
proof
  assume "ends_with s [c]"
  then obtain t where t: "s = t @ [c]" by (metis append_take_drop_id ends_with_def)
  with assms trim_end_char_not_last [of c s] show False by simp
qed

lemma under_trimmed:
  "trim_end_char (CHR ''/'') pre = pre \<Longrightarrow>
   under pre (path, m, e) = (if path = ''/'' then pre else pre @ path, m, e)"
  by (simp add: under_def trimmed_ends)

definition axum_serves ::
    "('r, 'm, 'h, 'l, 's) axum_ops \<Rightarrow> ('r \<Rightarrow> (string \<times> http_method \<times> 'h route_endpoint) set)
     \<Rightarrow> ('m \<Rightarrow> (http_method \<times> 'h route_endpoint) set) \<Rightarrow> bool" where
  "axum_serves ax served methods \<longleftrightarrow>
     served (ax_new ax) = {}
     \<and> (\<forall>m e. methods (ax_on ax m e) = {(m, e)})
     \<and> (\<forall>path mr r r'. ax_route ax path mr r = Some r' \<longrightarrow> served r' = served r \<union> Pair path ` methods mr)
     \<and> (\<forall>pre c r r'. ax_nest ax pre c r = Some r' \<longrightarrow> served r' = served r \<union> under pre ` served c)
     \<and> (\<forall>c r r'. ax_merge ax c r = Some r' \<longrightarrow> served r' = served r \<union> served c)
     \<and> (\<forall>l r. served (ax_layer ax l r) = served r)
     \<and> (\<forall>l r r'. ax_route_layer ax l r = Some r' \<longrightarrow> served r' = served r)
     \<and> (\<forall>s r. served (ax_with_state ax s r) = served r)"

text \<open>An entry and a served route that are about the same thing.\<close>

definition endpoint_named ::
    "('r, 'm, 'h, 'l, 's) axum_ops \<Rightarrow> string \<Rightarrow> 'h route_endpoint \<Rightarrow> bool" where
  "endpoint_named ax fq e =
     (case e of
        Endpoint h \<Rightarrow> fq = ax_type_name ax h
      | FileEndpoint bytes ct cache \<Rightarrow> starts_with fq ''<static_file> GET ''
      | DirEndpoint files cache \<Rightarrow> starts_with fq ''<static_dir> GET '')"

definition entry_serves ::
    "('r, 'm, 'h, 'l, 's) axum_ops \<Rightarrow> registration \<Rightarrow> string \<times> http_method \<times> 'h route_endpoint \<Rightarrow> bool" where
  "entry_serves ax reg route \<longleftrightarrow>
     (case route of (path, m, e) \<Rightarrow>
        rg_path reg = path \<and> rg_method reg = method_str m \<and> endpoint_named ax (rg_fqname reg) e)"

text \<open>Every entry has its route and every route its entry.\<close>

definition faithful ::
    "('r, 'm, 'h, 'l, 's) axum_ops \<Rightarrow> registration list
     \<Rightarrow> (string \<times> http_method \<times> 'h route_endpoint) set \<Rightarrow> bool" where
  "faithful ax regs routes \<longleftrightarrow>
     list_all (\<lambda>reg. \<exists>route \<in> routes. entry_serves ax reg route) regs
     \<and> (\<forall>route \<in> routes. list_ex (\<lambda>reg. entry_serves ax reg route) regs)"

lemma faithful_append:
  "faithful ax xs A \<Longrightarrow> faithful ax ys B \<Longrightarrow> faithful ax (xs @ ys) (A \<union> B)"
  by (auto simp: faithful_def list_all_iff list_ex_iff)

lemma faithful_nested:
  assumes "faithful ax regs routes" "trim_end_char (CHR ''/'') pre = pre"
  shows "faithful ax (map (nested pre) regs) (under pre ` routes)"
proof -
  have "entry_serves ax (nested pre reg) (under pre route)" if "entry_serves ax reg route" for reg route
    using that by (cases route) (auto simp: under_trimmed [OF assms(2)] entry_serves_def nested_def Let_def)
  with assms(1) show ?thesis
    by (fastforce simp: faithful_def list_all_iff list_ex_iff)
qed

lemma faithful_record:
  assumes "axum_serves ax served methods" "endpoint_named ax fq e"
    and "record_raw ax fq m path (ax_on ax m e) r = Some r'"
    and "faithful ax (rt_manifest r) (served (rt_inner r))"
  shows "faithful ax (rt_manifest r') (served (rt_inner r'))"
proof -
  from assms(3) obtain i where i: "ax_route ax path (ax_on ax m e) (rt_inner r) = Some i" "rt_inner r' = i"
    by (auto simp: record_raw_def)
  with assms(1) have "served (rt_inner r') = served (rt_inner r) \<union> {(path, m, e)}"
    by (simp add: axum_serves_def)
  moreover have "faithful ax [\<lparr>rg_fqname = fq, rg_method = method_str m, rg_path = path,
      rg_path_params = parse_path_params path\<rparr>] {(path, m, e)}"
    using assms(2) by (simp add: faithful_def entry_serves_def)
  ultimately show ?thesis
    using record_raw_manifest [OF assms(3)] faithful_append [OF assms(4)] by metis
qed

lemma starts_with_append: "starts_with (p @ s) p"
  by (simp add: starts_with_def)

lemma mounted_faithful:
  assumes "axum_serves ax served methods" "mounted ax False r"
  shows "faithful ax (rt_manifest r) (served (rt_inner r))"
  using assms(2)
proof (induction rule: mounted.induct)
  case fresh
  with assms(1) show ?case by (simp add: router_new_def faithful_def axum_serves_def)
next
  case (handler r mount path h r')
  from verb_mount [OF handler(2,3)] obtain m where
    "record_raw ax (ax_type_name ax h) m path (ax_on ax m (Endpoint h)) r = Some r'" by blast
  from faithful_record [OF assms(1) _ this handler.IH] show ?case by (simp add: endpoint_named_def)
next
  case (file_mount r path bytes ct cache r')
  then have "record_raw ax (''<static_file> GET '' @ path) GET path
      (ax_on ax GET (FileEndpoint bytes ct cache)) r = Some r'"
    by (simp only: static_file_def)
  moreover have "endpoint_named ax (''<static_file> GET '' @ path) (FileEndpoint bytes ct cache)"
    unfolding endpoint_named_def route_endpoint.case by (rule starts_with_append)
  ultimately show ?case using faithful_record [OF assms(1)] file_mount.IH by blast
next
  case (dir_mount r pre files cache r')
  let ?path = "trim_end_char (CHR ''/'') pre @ ''/{name}''"
  from dir_mount have "record_raw ax (''<static_dir> GET '' @ ?path) GET ?path
      (ax_on ax GET (DirEndpoint files cache)) r = Some r'"
    by (simp only: static_dir_def Let_def)
  moreover have "endpoint_named ax (''<static_dir> GET '' @ ?path) (DirEndpoint files cache)"
    unfolding endpoint_named_def route_endpoint.case by (rule starts_with_append)
  ultimately show ?case using faithful_record [OF assms(1)] dir_mount.IH by blast
next
  case (nest pre r child r')
  then have pre: "trim_end_char (CHR ''/'') pre = pre" by simp
  with nest assms(1) have "served (rt_inner r') = served (rt_inner r) \<union> under pre ` served (rt_inner child)"
    by (auto simp: router_nest_def axum_serves_def)
  moreover from nest pre have "rt_manifest r' = rt_manifest r @ map (nested pre) (rt_manifest child)"
    by (auto simp: router_nest_def)
  ultimately show ?case using nest faithful_nested [OF _ pre] by (metis faithful_append)
next
  case (merge r other r')
  with assms(1) have "served (rt_inner r') = served (rt_inner r) \<union> served (rt_inner other)"
    "rt_manifest r' = rt_manifest r @ rt_manifest other"
    by (auto simp: router_merge_def axum_serves_def)
  with merge show ?case by (metis faithful_append)
next
  case (route_layer r l r')
  with assms(1) have "served (rt_inner r') = served (rt_inner r)" "rt_manifest r' = rt_manifest r"
    unfolding axum_serves_def router_route_layer_def by auto
  with route_layer show ?case by simp
next
  case (layer r l)
  with assms(1) show ?case by (simp add: axum_serves_def router_layer_def)
next
  case (with_state r s)
  with assms(1) show ?case by (simp add: axum_serves_def router_with_state_def)
qed simp

lemma asset_get_map_of: "asset_get files name = map_of files name"
  by (induction files) (auto simp: asset_get_def)

section \<open>Properties\<close>

text \<open>C31: \<open>static_dir\<close> serves the embedded set and nothing else. A request for a name is answered with
  200 exactly when the set has a file of exactly that name and no segment of the name is empty or
  begins with a dot (and it is at most 512 bytes); then the body is that file's bytes with the
  declared cache policy. Any other name, a climb or a hidden file among them, is a 404.\<close>

theorem static_dir_confined:
  "(sr_status (static_dir_handler header_ok files cache name) = 200
      \<longleftrightarrow> name \<in> fst ` set files \<and> name \<noteq> [] \<and> length name \<le> 512
          \<and> list_all (\<lambda>seg. seg \<noteq> [] \<and> hd seg \<noteq> CHR ''.'') (split_char (CHR ''/'') name))
   \<and> (if sr_status (static_dir_handler header_ok files cache name) = 200
      then (name, sr_body (static_dir_handler header_ok files cache name)) \<in> set files
        \<and> sr_cache_control (static_dir_handler header_ok files cache name) = Some (cache_header cache)
      else static_dir_handler header_ok files cache name = not_found)"
proof -
  have seg: "(seg \<noteq> [] \<and> \<not> starts_with seg ''.'') = (seg \<noteq> [] \<and> hd seg \<noteq> CHR ''.'')" for seg
    by (cases seg) (auto simp: starts_with_def)
  have get: "asset_get files name = Some b \<Longrightarrow> (name, b) \<in> set files" for b
    by (simp add: asset_get_map_of map_of_SomeD)
  have some: "(\<exists>b. asset_get files name = Some b) = (name \<in> fst ` set files)"
    using map_of_eq_None_iff [of files name] by (auto simp: asset_get_map_of)
  show ?thesis
    unfolding static_dir_handler_def safe_asset_path_def list_all_iff seg
    using get some by (auto simp: serve_static_def not_found_def split: option.splits)
qed

text \<open>The root of a router nested under a prefix that ends in a slash: axum serves it at the prefix, with
  the slash; the manifest has it without.\<close>

lemma nested_root_recorded_elsewhere:
  assumes "axum_serves ax served methods" "base \<noteq> []" "trim_end_char (CHR ''/'') base = base"
    and "router_get ax ''/'' h (router_new ax) = Some child"
    and "router_nest ax (base @ ''/'') child (router_new ax) = Some r"
  shows "served (rt_inner r) = {(base @ ''/'', GET, Endpoint h)}"
    "map rg_path (rt_manifest r) = [base]"
proof -
  have trim: "trim_end_char (CHR ''/'') (base @ ''/'') = base"
    using assms(3) by (simp add: trim_end_char_def)
  from assms(1,4) have "served (rt_inner child) = {(''/'', GET, Endpoint h)}"
    by (auto simp: axum_serves_def router_get_def record_handler_def record_raw_def router_new_def)
  with assms(1,5) show "served (rt_inner r) = {(base @ ''/'', GET, Endpoint h)}"
    by (auto simp: axum_serves_def router_nest_def router_new_def under_def ends_with_def trim_start_char_def)
  from assms(4) have "map rg_path (rt_manifest child) = [''/'']"
    by (auto simp: router_get_def record_handler_def router_new_def dest: record_raw_manifest)
  with assms(5) trim show "map rg_path (rt_manifest r) = [base]"
    by (auto simp: router_nest_def router_new_def nested_def Let_def)
qed

text \<open>C20: The manifest is what axum serves. However a router is put together from handlers, static files
  and directories, nested and merged routers, layers and state, as long as nothing is mounted by the
  unrecorded \<open>route\<close> and no router is nested under a prefix that ends in a slash: every entry of its
  manifest names a route axum serves, at that path and method and with that handler, every route served
  has such an entry, and the parameters of an entry are those of its full path.\<close>

theorem manifest_is_what_is_served:
  assumes "axum_serves ax served methods" "mounted ax False r"
  shows "list_all registration_ok (rt_manifest r)
    \<and> (\<forall>reg \<in> set (rt_manifest r). \<exists>m e. rg_method reg = method_str m
         \<and> endpoint_named ax (rg_fqname reg) e \<and> (rg_path reg, m, e) \<in> served (rt_inner r))
    \<and> (\<forall>(path, m, e) \<in> served (rt_inner r). \<exists>reg \<in> set (rt_manifest r).
         rg_path reg = path \<and> rg_method reg = method_str m \<and> endpoint_named ax (rg_fqname reg) e)"
  using mounted_faithful [OF assms] mounted_ok [OF assms(2)]
  by (fastforce simp: faithful_def entry_serves_def list_all_iff list_ex_iff)

text \<open>An axum that is the table of its routes.\<close>

definition table_axum ::
    "((string \<times> http_method \<times> string route_endpoint) list, http_method \<times> string route_endpoint, string,
      unit, unit) axum_ops" where
  "table_axum =
     \<lparr>ax_new = [], ax_on = Pair, ax_route = (\<lambda>path mr r. Some ((path, mr) # r)),
      ax_nest = (\<lambda>pre c r. Some (map (under pre) c @ r)), ax_merge = (\<lambda>c r. Some (c @ r)),
      ax_layer = (\<lambda>l r. r), ax_route_layer = (\<lambda>l r. Some r), ax_with_state = (\<lambda>s r. r),
      ax_type_name = (\<lambda>h. h)\<rparr>"

lemma table_axum_serves: "axum_serves table_axum set (\<lambda>mr. {mr})"
  by (auto simp: axum_serves_def table_axum_def)

theorem manifest_is_what_is_served_witness:
  "\<exists>r e. mounted table_axum False r \<and> (''/api/x'', GET, e) \<in> set (rt_inner r)
     \<and> (\<exists>reg \<in> set (rt_manifest r). rg_path reg = ''/api/x'' \<and> rg_method reg = ''GET'')"
proof -
  obtain child where c: "router_get table_axum ''/x'' ''app::x'' (router_new table_axum) = Some child"
    "rt_inner child = [(''/x'', GET, Endpoint ''app::x'')]"
    by (auto simp: router_get_def record_handler_def record_raw_def table_axum_def router_new_def)
  have m: "mounted table_axum False child"
    by (rule mounted.handler [where mount = "router_get table_axum", OF mounted.fresh _ c(1)]) simp
  obtain r where r: "router_nest table_axum ''/api'' child (router_new table_axum) = Some r"
    "rt_inner r = [(''/api/x'', GET, Endpoint ''app::x'')]"
    using c(2) by (auto simp: router_nest_def table_axum_def router_new_def under_def ends_with_def)
  have "trim_end_char (CHR ''/'') ''/api'' = ''/api''" by code_simp
  then have "mounted table_axum False r"
    by (intro mounted.nest [OF _ mounted.fresh m r(1)]) simp
  with manifest_is_what_is_served [OF table_axum_serves this] r(2) show ?thesis
    by (fastforce simp: method_str_def)
qed

end
