(* ===== verification/Routing_Export.thy ===== *)
theory Routing_Export
  imports Routing_Manifest "HOL-Library.Multiset"
begin

text \<open>
  \<open>export.rs\<close> of \<open>crates/routing\<close>: what \<open>#[client]\<close> records of a handler, and the shared file
  \<open>handlers.json\<close> the export tests write in parallel. ts-rs resolves a Rust type to a TypeScript
  name and to its inlined form: a type is the record \<open>ts\<close> of these two. serde_json is a pair of
  functions (\<open>json_ops\<close>), the file system a record of the calls the code makes (\<open>file_ops\<close>).
\<close>

section \<open>Descriptors\<close>

datatype arg_kind = KPath | KQuery | KBody | KMultipart

datatype ts_field = TsField (tf_name: string) (tf_type: string)

record client_arg =
  ca_name :: string
  ca_kind :: arg_kind
  ca_ts_type :: string
  ca_positions :: "string list option"
  ca_fields :: "ts_field list option"

datatype client_response = RJson string | RNoContent | RLink

record client_handler =
  ch_fqname :: string
  ch_name :: string
  ch_args :: "client_arg list"
  ch_response :: client_response

definition TS_PRIMITIVES :: "string list" where
  "TS_PRIMITIVES = [''string'', ''number'', ''bigint'', ''boolean'', ''null'']"

text \<open>The accumulator of the loop is the current piece; the depth is unbounded where the code has an
  \<open>i32\<close>, which a text of less than two gigabytes cannot exhaust.\<close>

fun split_scan :: "string \<Rightarrow> int \<Rightarrow> string \<Rightarrow> string list" where
  "split_scan [] depth cur = (let t = trim cur in if t \<noteq> [] then [t] else [])"
| "split_scan (ch # rest) depth cur =
     (if ch \<in> set ''<[{('' then split_scan rest (depth + 1) (cur @ [ch])
      else if ch \<in> set ''>]})'' then split_scan rest (depth - 1) (cur @ [ch])
      else if ch = CHR '','' \<and> depth = 0
      then (let t = trim cur in if t \<noteq> [] then [t] else []) @ split_scan rest depth []
      else split_scan rest depth (cur @ [ch]))"

definition split_top_level :: "string \<Rightarrow> string list" where
  "split_top_level s = split_scan s 0 []"

definition object_field :: "string \<Rightarrow> ts_field option" where
  "object_field entry =
     map_option (\<lambda>(name, ty). TsField (trim_end_char (CHR ''?'') (trim name)) (trim ty))
       (split_once (CHR '':'') entry)"

definition parse_object_fields :: "string \<Rightarrow> ts_field list option" where
  "parse_object_fields inlined =
     Option.bind (Option.bind (strip_prefix ''{'' (trim inlined)) (strip_suffix ''}''))
       (\<lambda>body. those (map object_field (split_top_level body)))"

record ts =
  ts_name :: string
  ts_inline :: string

definition arg_path :: "ts \<Rightarrow> string \<Rightarrow> client_arg" where
  "arg_path t name =
     (let ty = ts_name t;
          (positions, flds) =
            (case Option.bind (strip_prefix ''['' ty) (strip_suffix '']'') of
               Some inner \<Rightarrow> (Some (split_top_level inner), None)
             | None \<Rightarrow>
                 if ty \<in> set TS_PRIMITIVES then (None, None)
                 else (None, parse_object_fields (ts_inline t)))
      in \<lparr>ca_name = name, ca_kind = KPath, ca_ts_type = ty, ca_positions = positions, ca_fields = flds\<rparr>)"

definition arg_declared_path :: "string \<Rightarrow> (string \<times> string) list \<Rightarrow> client_arg" where
  "arg_declared_path template flds =
     \<lparr>ca_name = ''path'', ca_kind = KPath, ca_ts_type = template, ca_positions = None,
      ca_fields = Some (map (\<lambda>(n, t). TsField n t) flds)\<rparr>"

definition arg_query :: "ts \<Rightarrow> string \<Rightarrow> client_arg" where
  "arg_query t name =
     \<lparr>ca_name = name, ca_kind = KQuery, ca_ts_type = ts_name t, ca_positions = None, ca_fields = None\<rparr>"

definition arg_body :: "ts \<Rightarrow> string \<Rightarrow> client_arg" where
  "arg_body t name =
     \<lparr>ca_name = name, ca_kind = KBody, ca_ts_type = ts_name t, ca_positions = None, ca_fields = None\<rparr>"

definition arg_multipart :: "string \<Rightarrow> client_arg" where
  "arg_multipart name =
     \<lparr>ca_name = name, ca_kind = KMultipart, ca_ts_type = ''FormData'', ca_positions = None,
      ca_fields = None\<rparr>"

definition response_json :: "ts \<Rightarrow> client_response" where
  "response_json t = RJson (ts_name t)"

section \<open>The shared file\<close>

record 'e json_ops =
  js_parse :: "string \<Rightarrow> 'e + client_handler list"
  js_print :: "client_handler list \<Rightarrow> 'e + string"

text \<open>The locked part: retain, push, sort, print.\<close>

definition add_handler :: "client_handler \<Rightarrow> client_handler list \<Rightarrow> client_handler list" where
  "add_handler h hs = sort_key ch_fqname (filter (\<lambda>x. ch_fqname x \<noteq> ch_fqname h) hs @ [h])"

definition append_text :: "'e json_ops \<Rightarrow> client_handler \<Rightarrow> string \<Rightarrow> 'e + string" where
  "append_text js h txt =
     and_then (if trim txt = [] then Inr [] else js_parse js txt)
       (\<lambda>hs. map_ok (\<lambda>out. out @ newline) (js_print js (add_handler h hs)))"

text \<open>The calls on the file; each answers or fails and may change the world.\<close>

record ('w, 'fd, 'e) file_ops =
  fo_create_dir_all :: "string \<Rightarrow> 'w \<Rightarrow> ('e + unit) \<times> 'w"
  fo_open :: "string \<Rightarrow> 'w \<Rightarrow> ('e + 'fd) \<times> 'w"
  fo_lock :: "'fd \<Rightarrow> 'w \<Rightarrow> ('e + unit) \<times> 'w"
  fo_unlock :: "'fd \<Rightarrow> 'w \<Rightarrow> ('e + unit) \<times> 'w"
  fo_read :: "'fd \<Rightarrow> 'w \<Rightarrow> ('e + string) \<times> 'w"
  fo_set_len_0 :: "'fd \<Rightarrow> 'w \<Rightarrow> ('e + unit) \<times> 'w"
  fo_rewind :: "'fd \<Rightarrow> 'w \<Rightarrow> ('e + unit) \<times> 'w"
  fo_write_all :: "'fd \<Rightarrow> string \<Rightarrow> 'w \<Rightarrow> ('e + unit) \<times> 'w"
  fo_read_path :: "string \<Rightarrow> 'w \<Rightarrow> ('e + string) \<times> 'w"

definition io_then :: "('w \<Rightarrow> ('e + 'a) \<times> 'w) \<Rightarrow> ('a \<Rightarrow> 'w \<Rightarrow> ('e + 'b) \<times> 'w) \<Rightarrow> 'w \<Rightarrow> ('e + 'b) \<times> 'w" where
  "io_then m f w = (case m w of (Inl e, w') \<Rightarrow> (Inl e, w') | (Inr a, w') \<Rightarrow> f a w')"

definition append_locked ::
    "('w, 'fd, 'e) file_ops \<Rightarrow> 'e json_ops \<Rightarrow> 'fd \<Rightarrow> client_handler \<Rightarrow> 'w \<Rightarrow> ('e + unit) \<times> 'w" where
  "append_locked fo js fd h =
     io_then (fo_read fo fd) (\<lambda>txt.
     io_then (Pair (append_text js h txt)) (\<lambda>out.
     io_then (fo_set_len_0 fo fd) (\<lambda>_.
     io_then (fo_rewind fo fd) (\<lambda>_.
     fo_write_all fo fd out))))"

definition append_handler ::
    "('w, 'fd, 'e) file_ops \<Rightarrow> 'e json_ops \<Rightarrow> string \<Rightarrow> client_handler \<Rightarrow> 'w \<Rightarrow> ('e + unit) \<times> 'w" where
  "append_handler fo js dir h =
     io_then (fo_create_dir_all fo dir) (\<lambda>_.
     io_then (fo_open fo (dir @ ''/handlers.json'')) (\<lambda>fd.
     io_then (fo_lock fo fd) (\<lambda>_ w.
       case append_locked fo js fd h w of
         (result, w) \<Rightarrow> io_then (fo_unlock fo fd) (\<lambda>_. Pair result) w)))"

definition read_handlers ::
    "('w, 'fd, 'e) file_ops \<Rightarrow> 'e json_ops \<Rightarrow> string \<Rightarrow> 'w \<Rightarrow> ('e + client_handler list) \<times> 'w" where
  "read_handlers fo js path = io_then (fo_read_path fo path) (\<lambda>txt. Pair (js_parse js txt))"

text \<open>The lock serialises the tests: what they do to the file's text is a sequence of updates.\<close>

fun append_texts :: "'e json_ops \<Rightarrow> client_handler list \<Rightarrow> string \<Rightarrow> 'e + string" where
  "append_texts js [] txt = Inr txt"
| "append_texts js (h # hs) txt = and_then (append_text js h txt) (append_texts js hs)"

section \<open>Facts\<close>

lemma io_then_Inr:
  "io_then m f w = (Inr b, w') \<longleftrightarrow> (\<exists>a w1. m w = (Inr a, w1) \<and> f a w1 = (Inr b, w'))"
  by (auto simp: io_then_def split: prod.splits sum.splits)

lemma sort_key_same: "filter (\<lambda>y. f k = f y) (sort_key f zs) = filter (\<lambda>y. f k = f y) zs"
  using sort_key_stable [of f "f k" zs] by (simp add: eq_commute [of "f k"])

lemma sort_key_snoc: "sort_key f (sort_key f xs @ [x]) = sort_key f (xs @ [x])"
proof (rule properties_for_sort_key)
  show "mset (sort_key f (xs @ [x])) = mset (sort_key f xs @ [x])" by simp
  show "filter (\<lambda>y. f k = f y) (sort_key f (xs @ [x])) = filter (\<lambda>y. f k = f y) (sort_key f xs @ [x])"
    for k
    unfolding sort_key_same filter_append ..
  show "sorted (map f (sort_key f (xs @ [x])))" by simp
qed

lemma add_handler_idem: "add_handler h (add_handler h hs) = add_handler h hs"
proof -
  have "filter (\<lambda>x. ch_fqname x \<noteq> ch_fqname h) (add_handler h hs) =
      sort_key ch_fqname (filter (\<lambda>x. ch_fqname x \<noteq> ch_fqname h) hs)"
    by (simp add: add_handler_def filter_sort)
  then show ?thesis by (simp add: add_handler_def sort_key_snoc)
qed

text \<open>A handler whose name is new is added to what is there; sorting early or late is the same.\<close>

lemma add_handler_fresh:
  assumes "ch_fqname h \<notin> ch_fqname ` set hs"
  shows "add_handler h (sort_key ch_fqname hs) = sort_key ch_fqname (hs @ [h])"
proof -
  have "filter (\<lambda>x. ch_fqname x \<noteq> ch_fqname h) (sort_key ch_fqname hs) = sort_key ch_fqname hs"
    by (intro filter_True ballI) (metis assms imageI set_sort)
  then show ?thesis by (simp add: add_handler_def sort_key_snoc)
qed

lemma sort_key_perm:
  assumes "mset xs = mset ys" "distinct (map f xs)"
  shows "sort_key f xs = sort_key f ys"
  using assms by (intro sort_key_inj_key_eq) (auto simp: distinct_map)

text \<open>serde reads back what it printed, for the handlers at hand, and prints something.\<close>

definition json_faithful :: "'e json_ops \<Rightarrow> client_handler list \<Rightarrow> bool" where
  "json_faithful js hs =
     (case js_print js hs of
        Inl e \<Rightarrow> False
      | Inr out \<Rightarrow> js_parse js (out @ newline) = Inr hs \<and> trim (out @ newline) \<noteq> [])"

definition handlers_text :: "'e json_ops \<Rightarrow> client_handler list \<Rightarrow> string \<Rightarrow> bool" where
  "handlers_text js hs txt \<longleftrightarrow>
     (if trim txt = [] then hs = [] else js_parse js txt = Inr (sort_key ch_fqname hs))"

lemma append_text_fresh:
  assumes "handlers_text js hs txt" "ch_fqname h \<notin> ch_fqname ` set hs"
    and "json_faithful js (sort_key ch_fqname (hs @ [h]))"
  shows "\<exists>out. append_text js h txt = Inr out \<and> handlers_text js (hs @ [h]) out"
proof -
  from assms(3) obtain out where out: "js_print js (sort_key ch_fqname (hs @ [h])) = Inr out"
    "js_parse js (out @ newline) = Inr (sort_key ch_fqname (hs @ [h]))" "trim (out @ newline) \<noteq> []"
    by (auto simp: json_faithful_def split: sum.splits)
  have "append_text js h txt = Inr (out @ newline)"
  proof (cases "trim txt = []")
    case True
    with assms(1) out show ?thesis by (simp add: handlers_text_def append_text_def add_handler_def)
  next
    case False
    with assms(1,2) out show ?thesis
      by (simp add: handlers_text_def append_text_def add_handler_fresh)
  qed
  with out show ?thesis by (simp add: handlers_text_def)
qed

lemma append_texts_fresh:
  assumes "handlers_text js prior t" "distinct (map ch_fqname (prior @ hs))"
    and "\<And>ys. set ys \<subseteq> set (prior @ hs) \<Longrightarrow> json_faithful js ys"
  shows "\<exists>out. append_texts js hs t = Inr out \<and> handlers_text js (prior @ hs) out"
  using assms
proof (induction hs arbitrary: prior t)
  case Nil
  then show ?case by simp
next
  case (Cons h hs)
  from Cons.prems(2) have "ch_fqname h \<notin> ch_fqname ` set prior" by auto
  moreover have "json_faithful js (sort_key ch_fqname (prior @ [h]))"
    by (rule Cons.prems(3)) auto
  ultimately obtain out where "append_text js h t = Inr out" "handlers_text js (prior @ [h]) out"
    using append_text_fresh [OF Cons.prems(1), of h] by auto
  moreover have "\<exists>out'. append_texts js hs out = Inr out' \<and> handlers_text js ((prior @ [h]) @ hs) out'"
    by (rule Cons.IH [OF calculation(2)]) (use Cons.prems(2,3) in simp_all)
  ultimately show ?case by simp
qed

section \<open>Properties\<close>

text \<open>C28: The order in which the parallel export tests reach the file does not show. Starting from an
  empty file, the tests of handlers with distinct names, run in any two orders, succeed and leave
  files that read back as the same list: all the handlers, sorted by name. (serde is assumed to
  read back what it prints.)\<close>

theorem export_order_irrelevant:
  assumes "distinct (map ch_fqname hs)" "mset hs' = mset hs" "hs \<noteq> []"
    and "\<And>ys. set ys \<subseteq> set hs \<Longrightarrow> json_faithful js ys"
  shows "\<exists>out out'. append_texts js hs '''' = Inr out \<and> append_texts js hs' '''' = Inr out'
    \<and> js_parse js out = Inr (sort_key ch_fqname hs) \<and> js_parse js out' = js_parse js out"
proof -
  have blank: "handlers_text js [] ''''"
    by (simp add: handlers_text_def trim_def trim_start_def trim_end_def)
  have same: "set hs' = set hs" using assms(2) by (rule mset_eq_setD)
  have "mset (map ch_fqname hs') = mset (map ch_fqname hs)" using assms(2) by simp
  with assms(1) have dist: "distinct (map ch_fqname hs')" by (metis mset_eq_imp_distinct_iff)
  obtain out where out: "append_texts js hs '''' = Inr out" "handlers_text js hs out"
    using append_texts_fresh [OF blank, of hs] assms(1,4) by auto
  obtain out' where out': "append_texts js hs' '''' = Inr out'" "handlers_text js hs' out'"
    using append_texts_fresh [OF blank, of hs'] dist same assms(4) by auto
  have "hs' \<noteq> []" using assms(2,3) by auto
  with out out' assms(3) sort_key_perm [OF assms(2) dist] show ?thesis
    by (auto simp: handlers_text_def split: if_splits)
qed

definition toy_handler :: "string \<Rightarrow> client_handler" where
  "toy_handler n = \<lparr>ch_fqname = n, ch_name = n, ch_args = [], ch_response = RNoContent\<rparr>"

text \<open>A printer for handlers of one-letter names: the names, in brackets.\<close>

definition toy_json :: "string json_ops" where
  "toy_json =
     \<lparr>js_parse = (\<lambda>t. Inr (map (\<lambda>c. toy_handler [c]) (butlast (butlast (tl t))))),
      js_print = (\<lambda>hs. Inr (''['' @ concat (map ch_fqname hs) @ '']''))\<rparr>"

theorem export_order_irrelevant_witness:
  "\<exists>out out'. append_texts toy_json [toy_handler ''b'', toy_handler ''a''] '''' = Inr out
     \<and> append_texts toy_json [toy_handler ''a'', toy_handler ''b''] '''' = Inr out'
     \<and> js_parse toy_json out = Inr [toy_handler ''a'', toy_handler ''b''] \<and> js_parse toy_json out' = js_parse toy_json out"
proof -
  let ?hs = "[toy_handler ''b'', toy_handler ''a'']"
  have names: "distinct (map ch_fqname ?hs)" by (simp add: toy_handler_def)
  have faithful: "json_faithful toy_json ys" if "set ys \<subseteq> set ?hs" for ys
  proof -
    from that have "map (\<lambda>c. toy_handler [c]) (concat (map ch_fqname ys)) = ys"
      by (induction ys) (auto simp: toy_handler_def)
    moreover have "CHR ''['' \<in> set (trim (CHR ''['' # s))" for s
      by (rule trim_keeps, simp, code_simp)
    then have "trim (CHR ''['' # s) \<noteq> []" for s by (metis empty_iff list.set(1))
    ultimately show ?thesis by (simp add: json_faithful_def toy_json_def newline_def butlast_append)
  qed
  have "sort_key ch_fqname ?hs = [toy_handler ''a'', toy_handler ''b'']"
    by (simp add: toy_handler_def)
  with export_order_irrelevant [OF names _ _ faithful, of "[toy_handler ''a'', toy_handler ''b'']"]
  show ?thesis by simp
qed

end
