(* ===== verification/Routing_Generate.thy ===== *)
theory Routing_Generate
  imports Routing_Export
begin

text \<open>
  \<open>generate.rs\<close> and \<open>barrel.rs\<close> of \<open>crates/routing\<close>: the join of the route table with the handler
  descriptors, the plan of one TypeScript function per handler, and the text of \<open>client.ts\<close>; and
  the \<open>index.ts\<close> barrel. A \<open>BTreeMap\<close> that is only probed is a map, a \<open>BTreeSet\<close> that is
  iterated is the sorted list of its elements.
\<close>

section \<open>Errors and options\<close>

datatype ('e, 'j) generate_error =
    GenIo 'e
  | GenJson 'j
  | HandlerWithoutRoute string
  | RouteWithoutHandler string string string
  | HandlerMountedTwice string
  | ShapeError string string
  | NameClash string string string

record client_options =
  op_transport :: string
  op_types :: string
  op_include :: "registration \<Rightarrow> bool"

definition default_options :: client_options where
  "default_options = \<lparr>op_transport = ''./client-call'', op_types = ''./index'', op_include = (\<lambda>_. True)\<rparr>"

definition with_transport :: "string \<Rightarrow> client_options \<Rightarrow> client_options" where
  "with_transport specifier o' = o'\<lparr>op_transport := specifier\<rparr>"

definition with_types :: "string \<Rightarrow> client_options \<Rightarrow> client_options" where
  "with_types specifier o' = o'\<lparr>op_types := specifier\<rparr>"

definition with_include :: "(registration \<Rightarrow> bool) \<Rightarrow> client_options \<Rightarrow> client_options" where
  "with_include f o' = o'\<lparr>op_include := f\<rparr>"

section \<open>Names and types\<close>

fun camel_scan :: "unicode \<Rightarrow> bool \<Rightarrow> string list \<Rightarrow> string" where
  "camel_scan u upper [] = []"
| "camel_scan u upper (ch # chs) =
     (if ch = ''_'' then camel_scan u True chs
      else if upper then to_uppercase u ch @ camel_scan u False chs
      else ch @ camel_scan u upper chs)"

definition camel :: "unicode \<Rightarrow> string \<Rightarrow> string" where
  "camel u snake = camel_scan u False (chars_of snake)"

definition TS_BUILTIN :: "string list" where
  "TS_BUILTIN = [''Array'', ''Record'', ''Partial'', ''Map'', ''Set'', ''Promise'', ''Date'']"

fun named_scan :: "unicode \<Rightarrow> string list \<Rightarrow> string list \<Rightarrow> string set" where
  "named_scan u cur [] = {}"
| "named_scan u cur (ch # chs) =
     (if is_alphanumeric u ch \<or> ch = ''_'' then named_scan u (cur @ [ch]) chs
      else (if cur \<noteq> [] \<and> is_uppercase u (hd cur) \<and> concat cur \<notin> set TS_BUILTIN
            then {concat cur} else {}) \<union> named_scan u [] chs)"

definition named_types :: "unicode \<Rightarrow> string \<Rightarrow> string set" where
  "named_types u ty = named_scan u [] (chars_of ty @ ['' ''])"

definition RESERVED :: "string list" where
  "RESERVED =
     [''break'', ''case'', ''catch'', ''class'', ''const'', ''continue'', ''debugger'', ''default'',
      ''delete'', ''do'', ''else'', ''enum'', ''export'', ''extends'', ''false'', ''finally'', ''for'',
      ''function'', ''if'', ''import'', ''in'', ''instanceof'', ''new'', ''null'', ''return'', ''super'',
      ''switch'', ''this'', ''throw'', ''true'', ''try'', ''typeof'', ''var'', ''void'', ''while'',
      ''with'', ''yield'', ''let'', ''static'', ''implements'', ''interface'', ''package'', ''private'',
      ''protected'', ''public'', ''await'', ''query'', ''body'']"

section \<open>The plan of one function\<close>

record client_fn =
  fn_name :: string
  fn_params :: "(string \<times> string) list"
  fn_url :: string
  fn_method :: string
  fn_has_query :: bool
  fn_has_body :: bool
  fn_response :: client_response
  fn_fqname :: string
  fn_path :: string

definition shape_error :: "client_handler \<Rightarrow> string \<Rightarrow> ('e, 'j) generate_error" where
  "shape_error h detail = ShapeError (ch_fqname h) detail"

definition args_of :: "client_handler \<Rightarrow> arg_kind set \<Rightarrow> client_arg list" where
  "args_of h ks = filter (\<lambda>a. ca_kind a \<in> ks) (ch_args h)"

definition bind_field ::
    "registration \<Rightarrow> client_handler \<Rightarrow> client_arg \<Rightarrow> ts_field list \<Rightarrow> string
     \<Rightarrow> ('e, 'j) generate_error + string \<times> string" where
  "bind_field reg h arg flds p =
     (case find (\<lambda>f. tf_name f = p) flds of
        None \<Rightarrow> Inl (shape_error h (''path param {'' @ p @ ''} of '' @ rg_path reg @ '' is not a field of ''
                  @ ca_ts_type arg))
      | Some f \<Rightarrow> Inr (p, tf_type f))"

definition bind_positions ::
    "registration \<Rightarrow> client_handler \<Rightarrow> client_arg \<Rightarrow> ('e, 'j) generate_error + (string \<times> string) list" where
  "bind_positions reg h arg =
     (let types = (case ca_positions arg of Some p \<Rightarrow> p | None \<Rightarrow> [ca_ts_type arg])
      in if length types \<noteq> length (rg_path_params reg)
         then Inl (shape_error h (''the route '' @ rg_path reg @ '' has '' @ show_nat (length (rg_path_params reg))
                @ '' params '' @ debug_strs (rg_path_params reg) @ '' but Path<'' @ ca_ts_type arg
                @ ''> carries '' @ show_nat (length types)))
         else Inr (zip (rg_path_params reg) types))"

definition bind_path ::
    "registration \<Rightarrow> client_handler \<Rightarrow> ('e, 'j) generate_error + (string \<times> string) list" where
  "bind_path reg h =
     (case args_of h {KPath} of
        [] \<Rightarrow>
          if rg_path_params reg \<noteq> []
          then Inl (shape_error h (''the route '' @ rg_path reg @ '' has params '' @ debug_strs (rg_path_params reg)
                 @ '' but the handler takes no Path<T>''))
          else Inr []
      | arg # _ \<Rightarrow>
          (case ca_fields arg of
             Some flds \<Rightarrow> traverse (bind_field reg h arg flds) (rg_path_params reg)
           | None \<Rightarrow> bind_positions reg h arg))"

definition url_segment :: "string \<Rightarrow> bool \<times> string" where
  "url_segment seg =
     (case brace_inner seg of
        Some inner \<Rightarrow>
          if \<not> starts_with inner ''{''
          then (True, ''${enc('' @ trim_start_char (CHR ''*'') inner @ '')}'')
          else (False, seg)
      | None \<Rightarrow> (False, seg))"

definition quoted :: "string \<Rightarrow> string" where
  "quoted s = [CHR 0x22] @ s @ [CHR 0x22]"

definition client_url :: "string \<Rightarrow> string" where
  "client_url path =
     (let segs = map url_segment (split_char (CHR ''/'') path);
          url = join ''/'' (map snd segs)
      in if list_ex fst segs then [CHR 0x60] @ url @ [CHR 0x60] else quoted url)"

definition plan ::
    "unicode \<Rightarrow> registration \<Rightarrow> client_handler \<Rightarrow> ('e, 'j) generate_error + client_fn" where
  "plan u reg h =
     (if length (args_of h {KPath}) > 1 then Inl (shape_error h ''more than one Path extractor'')
      else and_then (bind_path reg h) (\<lambda>params.
        case find (\<lambda>(p, _). p \<in> set RESERVED) params of
          Some (p, _) \<Rightarrow>
            Inl (shape_error h (''path param {'' @ p @ ''} is not usable as a TypeScript parameter name''))
        | None \<Rightarrow>
            (let query = args_of h {KQuery}; body = args_of h {KBody, KMultipart}
             in if length query > 1 \<or> length body > 1
                then Inl (shape_error h ''more than one Query, or more than one body, extractor'')
                else Inr \<lparr>fn_name = camel u (ch_name h),
                          fn_params = params
                            @ (case query of q # _ \<Rightarrow> [(''query'', ca_ts_type q)] | [] \<Rightarrow> [])
                            @ (case body of b # _ \<Rightarrow> [(''body'', ca_ts_type b)] | [] \<Rightarrow> []),
                          fn_url = client_url (rg_path reg),
                          fn_method = rg_method reg,
                          fn_has_query = (query \<noteq> []),
                          fn_has_body = (body \<noteq> []),
                          fn_response = ch_response h,
                          fn_fqname = ch_fqname h,
                          fn_path = rg_path reg\<rparr>)))"

section \<open>The join\<close>

text \<open>\<open>by_fqname\<close>, refusing the second route of a name.\<close>

fun index_routes ::
    "registration list \<Rightarrow> (string \<Rightarrow> registration option)
     \<Rightarrow> ('e, 'j) generate_error + (string \<Rightarrow> registration option)" where
  "index_routes [] m = Inr m"
| "index_routes (r # rs) m =
     (if m (rg_fqname r) \<noteq> None then Inl (HandlerMountedTwice (rg_fqname r))
      else index_routes rs (m(rg_fqname r \<mapsto> r)))"

definition undescribed :: "client_options \<Rightarrow> client_handler list \<Rightarrow> registration list \<Rightarrow> registration option" where
  "undescribed opts hs routes =
     find (\<lambda>r. op_include opts r \<and> rg_fqname r \<notin> ch_fqname ` set hs) routes"

definition plan_handler ::
    "unicode \<Rightarrow> (string \<Rightarrow> registration option) \<Rightarrow> client_handler \<Rightarrow> ('e, 'j) generate_error + client_fn" where
  "plan_handler u by_fqname h =
     (case by_fqname (ch_fqname h) of
        None \<Rightarrow> Inl (HandlerWithoutRoute (ch_fqname h))
      | Some reg \<Rightarrow> plan u reg h)"

definition ts_function_name :: "client_fn \<Rightarrow> string" where
  "ts_function_name f = (case fn_response f of RLink \<Rightarrow> fn_name f @ ''Url'' | _ \<Rightarrow> fn_name f)"

fun check_names ::
    "client_fn list \<Rightarrow> (string \<Rightarrow> string option) \<Rightarrow> ('e, 'j) generate_error + unit" where
  "check_names [] seen = Inr ()"
| "check_names (f # fs) seen =
     (case seen (ts_function_name f) of
        Some prev \<Rightarrow> Inl (NameClash prev (fn_fqname f) (ts_function_name f))
      | None \<Rightarrow> check_names fs (seen(ts_function_name f \<mapsto> fn_fqname f)))"

definition client_imports :: "unicode \<Rightarrow> client_fn list \<Rightarrow> string set" where
  "client_imports u fns =
     (\<Union>f \<in> set fns. (\<Union>(_, t) \<in> set (fn_params f). named_types u t)
        \<union> (case fn_response f of RJson t \<Rightarrow> named_types u t | _ \<Rightarrow> {})) - {''FormData''}"

definition import_block :: "client_options \<Rightarrow> string set \<Rightarrow> string" where
  "import_block opts imports =
     (if imports = {} then []
      else ''import type {'' @ newline
        @ concat (map (\<lambda>t. ''  '' @ t @ '','' @ newline) (sorted_list_of_set imports))
        @ ''} from '' @ quoted (op_types opts) @ '';'' @ newline)"

definition function_text :: "client_fn \<Rightarrow> string" where
  "function_text f =
     (let sg = join '', '' (map (\<lambda>(n, t). n @ '': '' @ t) (fn_params f)) in
      newline @ ''/** '' @ fn_method f @ '' '' @ fn_path f @ '' '' @ em_dash @ '' '' @ fn_fqname f @ '' */'' @ newline
      @ (case fn_response f of
           RLink \<Rightarrow> ''export function '' @ fn_name f @ ''Url('' @ sg @ ''): string {'' @ newline
             @ ''  return '' @ fn_url f @ '';'' @ newline @ ''}'' @ newline
         | resp \<Rightarrow>
             (let ret = (case resp of RJson t \<Rightarrow> t | _ \<Rightarrow> ''void'');
                  call_args = [quoted (fn_method f), fn_url f]
                    @ (if fn_has_query f \<or> fn_has_body f
                       then [if fn_has_query f then ''query'' else ''undefined''] else [])
                    @ (if fn_has_body f then [''body''] else [])
              in ''export function '' @ fn_name f @ ''('' @ sg @ ''): Promise<'' @ ret @ ''> {'' @ newline
                 @ ''  return call<'' @ ret @ ''>('' @ join '', '' call_args @ '');'' @ newline
                 @ ''}'' @ newline)))"

definition client_text :: "unicode \<Rightarrow> client_options \<Rightarrow> client_fn list \<Rightarrow> string" where
  "client_text u opts fns =
     ''// Generated by common-routing from routes.json and handlers.json '' @ em_dash @ '' do not edit.''
     @ newline
     @ ''// One function per #[client] handler; the path template lives in Rust only.'' @ newline
     @ ''import { call } from '' @ quoted (op_transport opts) @ '';'' @ newline
     @ import_block opts (client_imports u fns)
     @ newline
     @ ''const enc = (v: string | number | boolean) => encodeURIComponent(String(v));'' @ newline
     @ concat (map function_text fns)"

definition fn_key :: "client_fn \<Rightarrow> string \<times> string" where
  "fn_key f = (fn_path f, fn_method f)"

definition render_client ::
    "unicode \<Rightarrow> registration list \<Rightarrow> client_handler list \<Rightarrow> client_options
     \<Rightarrow> ('e, 'j) generate_error + string \<times> nat" where
  "render_client u routes hs opts =
     and_then (index_routes routes Map.empty) (\<lambda>by_fqname.
       case undescribed opts hs routes of
         Some r \<Rightarrow> Inl (RouteWithoutHandler (rg_method r) (rg_path r) (rg_fqname r))
       | None \<Rightarrow>
           and_then (traverse (plan_handler u by_fqname) hs) (\<lambda>planned.
             let fns = sort_key fn_key planned
             in and_then (check_names fns Map.empty) (\<lambda>_. Inr (client_text u opts fns, length fns))))"

text \<open>\<open>Options::generate\<close>: both files, the join, the write. serde's error on the routes is \<open>Json\<close>;
  \<open>export::read\<close> has already made its own an io error.\<close>

definition generate_files ::
    "('w, 'fd, 'e) file_ops \<Rightarrow> (string \<Rightarrow> 'j + registration list) \<Rightarrow> 'e json_ops
     \<Rightarrow> (string \<Rightarrow> string \<Rightarrow> 'w \<Rightarrow> ('e + unit) \<times> 'w) \<Rightarrow> unicode \<Rightarrow> client_options
     \<Rightarrow> string \<Rightarrow> string \<Rightarrow> string \<Rightarrow> 'w \<Rightarrow> (('e, 'j) generate_error + nat) \<times> 'w" where
  "generate_files fo parse_routes js write_file u opts routes_json handlers_json out_ts w =
     (case fo_read_path fo routes_json w of
        (Inl e, w) \<Rightarrow> (Inl (GenIo e), w)
      | (Inr t, w) \<Rightarrow>
          (case parse_routes t of
             Inl e \<Rightarrow> (Inl (GenJson e), w)
           | Inr routes \<Rightarrow>
               (case read_handlers fo js handlers_json w of
                  (Inl e, w) \<Rightarrow> (Inl (GenIo e), w)
                | (Inr hs, w) \<Rightarrow>
                    (case render_client u routes hs opts of
                       Inl e \<Rightarrow> (Inl e, w)
                     | Inr (out, n) \<Rightarrow>
                         (case write_file out_ts out w of
                            (Inl e, w) \<Rightarrow> (Inl (GenIo e), w)
                          | (Inr _, w) \<Rightarrow> (Inr n, w))))))"

definition generate_client ::
    "('w, 'fd, 'e) file_ops \<Rightarrow> (string \<Rightarrow> 'j + registration list) \<Rightarrow> 'e json_ops
     \<Rightarrow> (string \<Rightarrow> string \<Rightarrow> 'w \<Rightarrow> ('e + unit) \<times> 'w) \<Rightarrow> unicode
     \<Rightarrow> string \<Rightarrow> string \<Rightarrow> string \<Rightarrow> 'w \<Rightarrow> (('e, 'j) generate_error + nat) \<times> 'w" where
  "generate_client fo parse_routes js write_file u =
     generate_files fo parse_routes js write_file u default_options"

section \<open>Facts\<close>

lemma args_of_single:
  "length (args_of h ks) \<le> Suc 0 \<longleftrightarrow> args_of h ks = [] \<or> (\<exists>a. args_of h ks = [a])"
  by (cases "args_of h ks" rule: list.exhaust) (auto simp: le_Suc_eq length_Suc_conv)

lemma bind_path_names:
  assumes "bind_path reg h = Inr params"
  shows "map fst params = rg_path_params reg"
proof -
  have fields_ok: "map fst ps = qs" if "traverse (bind_field reg h arg flds) qs = Inr ps" for arg flds ps qs
    using that by (induction qs arbitrary: ps) (auto simp: bind_field_def result_simps split: option.splits)
  from assms fields_ok show ?thesis
    by (auto simp: bind_path_def bind_positions_def Let_def split: list.splits option.splits if_splits)
qed

lemma bind_path_types:
  assumes "(bind_path reg h :: ('e, 'j) generate_error + (string \<times> string) list) = Inr params"
    and "length (args_of h {KPath}) \<le> 1"
  shows "case args_of h {KPath} of
      [] \<Rightarrow> params = []
    | [a] \<Rightarrow> (case ca_fields a of
        Some flds \<Rightarrow> \<forall>(p, t) \<in> set params. \<exists>fld \<in> set flds. tf_name fld = p \<and> tf_type fld = t
      | None \<Rightarrow> map snd params = (case ca_positions a of Some ts \<Rightarrow> ts | None \<Rightarrow> [ca_ts_type a]))
    | _ \<Rightarrow> False"
proof -
  have fld: "\<exists>fld \<in> set flds. tf_name fld = fst pt \<and> tf_type fld = snd pt"
    if "(bind_field reg h arg flds q :: ('e, 'j) generate_error + _) = Inr pt" for arg flds q pt
    using that by (fastforce simp: bind_field_def find_Some_iff split: option.splits)
  have flds: "\<forall>(p, t) \<in> set ps. \<exists>fld \<in> set flds. tf_name fld = p \<and> tf_type fld = t"
    if "(traverse (bind_field reg h arg flds) qs :: ('e, 'j) generate_error + _) = Inr ps" for arg flds ps qs
  proof -
    from that have "list_all2 (\<lambda>q pt. (bind_field reg h arg flds q :: ('e, 'j) generate_error + _) = Inr pt) qs ps"
      by (simp add: traverse_Inr)
    then show ?thesis
    proof (induction rule: list_all2_induct)
      case (Cons q qs pt ps)
      with fld [OF Cons(1)] show ?case by (cases pt) auto
    qed simp
  qed
  show ?thesis
    using assms flds
    by (cases "args_of h {KPath}")
      (auto simp: bind_path_def bind_positions_def Let_def split: option.splits if_splits)
qed

definition planned_fn :: "unicode \<Rightarrow> registration \<Rightarrow> client_handler \<Rightarrow> (string \<times> string) list \<Rightarrow> client_fn" where
  "planned_fn u reg h params =
     \<lparr>fn_name = camel u (ch_name h),
      fn_params = params
        @ map (\<lambda>q. (''query'', ca_ts_type q)) (args_of h {KQuery})
        @ map (\<lambda>b. (''body'', ca_ts_type b)) (args_of h {KBody, KMultipart}),
      fn_url = client_url (rg_path reg), fn_method = rg_method reg,
      fn_has_query = (args_of h {KQuery} \<noteq> []), fn_has_body = (args_of h {KBody, KMultipart} \<noteq> []),
      fn_response = ch_response h, fn_fqname = ch_fqname h, fn_path = rg_path reg\<rparr>"

lemma plan_Inr:
  "(plan u reg h :: ('e, 'j) generate_error + client_fn) = Inr f \<longleftrightarrow>
     length (args_of h {KPath}) \<le> 1 \<and> length (args_of h {KQuery}) \<le> 1
     \<and> length (args_of h {KBody, KMultipart}) \<le> 1
     \<and> (\<exists>params. (bind_path reg h :: ('e, 'j) generate_error + (string \<times> string) list) = Inr params \<and> set (map fst params) \<inter> set RESERVED = {}
          \<and> f = planned_fn u reg h params)"
proof (cases "bind_path reg h :: ('e, 'j) generate_error + (string \<times> string) list")
  case (Inr params)
  have free: "find (\<lambda>(p, _). p \<in> set RESERVED) params = None \<longleftrightarrow> set (map fst params) \<inter> set RESERVED = {}"
    by (auto simp: find_None_iff)
  show ?thesis
  proof (cases "find (\<lambda>(p, _). p \<in> set RESERVED) params")
    case None
    with free show ?thesis
      by (cases "args_of h {KQuery}"; cases "args_of h {KBody, KMultipart}")
        (auto simp: plan_def Inr Let_def planned_fn_def)
  next
    case (Some pt)
    with free show ?thesis by (cases pt) (auto simp: plan_def Inr)
  qed
qed (simp add: plan_def)

text \<open>A brace segment in the form axum takes: a non-empty name and no stray closing brace.\<close>

definition regular_segment :: "string \<Rightarrow> bool" where
  "regular_segment seg =
     (case brace_inner seg of None \<Rightarrow> True | Some inner \<Rightarrow> inner \<noteq> [] \<and> \<not> ends_with inner ''}'')"

definition segment_text :: "string \<Rightarrow> string" where
  "segment_text seg =
     (case segment_param seg of Some p \<Rightarrow> ''${enc('' @ p @ '')}'' | None \<Rightarrow> seg)"

lemma url_segment_regular:
  assumes "regular_segment seg"
  shows "url_segment seg = (segment_param seg \<noteq> None, segment_text seg)"
  using assms
  by (auto simp: regular_segment_def url_segment_def segment_param_def segment_text_def split: option.splits)

lemma map_filter_empty: "List.map_filter f xs = [] \<longleftrightarrow> (\<forall>x \<in> set xs. f x = None)"
  by (induction xs) (auto simp: List.map_filter_def)

lemma client_url_regular:
  assumes "list_all regular_segment (split_char (CHR ''/'') path)"
  shows "client_url path =
    (if parse_path_params path = [] then quoted path
     else [CHR 0x60] @ join ''/'' (map segment_text (split_char (CHR ''/'') path)) @ [CHR 0x60])"
proof -
  let ?segs = "split_char (CHR ''/'') path"
  have pairs: "list_ex fst (map (\<lambda>s. (P s, t s)) xs) = list_ex P xs"
      "map snd (map (\<lambda>s. (P s, t s)) xs) = map t xs" for P and t :: "string \<Rightarrow> string" and xs
    by (induction xs) auto
  have segs: "map url_segment ?segs = map (\<lambda>s. (segment_param s \<noteq> None, segment_text s)) ?segs"
    using assms by (intro map_cong refl url_segment_regular) (simp add: list_all_iff)
  have any: "list_ex (\<lambda>s. segment_param s \<noteq> None) ?segs \<longleftrightarrow> parse_path_params path \<noteq> []"
    by (auto simp: parse_path_params_def map_filter_empty list_ex_iff)
  have none: "map segment_text ?segs = ?segs" if "parse_path_params path = []"
    using that by (intro map_idI) (simp add: parse_path_params_def map_filter_empty segment_text_def)
  show ?thesis
    unfolding client_url_def Let_def segs pairs any by (simp add: none)
qed

lemma index_routes_Inr:
  "index_routes rs m = Inr m' \<longleftrightarrow> distinct (map rg_fqname rs) \<and> (\<forall>r \<in> set rs. m (rg_fqname r) = None)
     \<and> m' = m ++ map_of (map (\<lambda>r. (rg_fqname r, r)) rs)"
proof (induction rs arbitrary: m)
  case (Cons r rs)
  let ?of = "\<lambda>rs. map_of (map (\<lambda>r. (rg_fqname r, r)) rs)"
  show ?case
  proof (cases "m (rg_fqname r) = None \<and> rg_fqname r \<notin> rg_fqname ` set rs")
    case True
    then have "m(rg_fqname r \<mapsto> r) ++ ?of rs = m ++ ?of (r # rs)"
      by (subst map_add_upd_left) (auto simp: dom_map_of_conv_image_fst image_image)
    moreover have "(\<forall>x \<in> set rs. (m(rg_fqname r \<mapsto> r)) (rg_fqname x) = None) \<longleftrightarrow>
        (\<forall>x \<in> set rs. m (rg_fqname x) = None)"
      using True by (auto simp: image_iff)
    ultimately show ?thesis
      using True by (simp add: Cons.IH del: fun_upd_apply map_of.simps)
  qed (auto simp: Cons.IH intro: rev_image_eqI)
qed auto

lemma check_names_Inr:
  "check_names fs seen = Inr x \<longleftrightarrow>
     distinct (map ts_function_name fs) \<and> (\<forall>f \<in> set fs. seen (ts_function_name f) = None)"
  by (induction fs arbitrary: seen) (auto split: option.splits intro: rev_image_eqI)

lemma distinct_map_sort_key: "distinct (map g (sort_key k xs)) = distinct (map g xs)"
  by (rule mset_eq_imp_distinct_iff) simp

lemma plan_handler_Inr:
  assumes "distinct (map rg_fqname routes)"
  shows "(plan_handler u (map_of (map (\<lambda>r. (rg_fqname r, r)) routes)) h :: ('e, 'j) generate_error + client_fn) = Inr f \<longleftrightarrow>
    (\<exists>reg \<in> set routes. rg_fqname reg = ch_fqname h
       \<and> (plan u reg h :: ('e, 'j) generate_error + client_fn) = Inr f)"
proof -
  let ?m = "map_of (map (\<lambda>r. (rg_fqname r, r)) routes)"
  have look: "?m k = Some reg \<longleftrightarrow> reg \<in> set routes \<and> rg_fqname reg = k" for k reg
    using assms by (subst map_of_eq_Some_iff) (auto simp: comp_def)
  show ?thesis
  proof (cases "?m (ch_fqname h)")
    case None
    then have "\<not> (reg \<in> set routes \<and> rg_fqname reg = ch_fqname h)" for reg
      using look [of "ch_fqname h" reg] by simp
    with None show ?thesis by (auto simp: plan_handler_def)
  next
    case (Some r)
    then have sole: "(reg \<in> set routes \<and> rg_fqname reg = ch_fqname h) = (reg = r)" for reg
      using look [of "ch_fqname h" reg] by auto
    have "(\<exists>reg \<in> set routes. rg_fqname reg = ch_fqname h \<and> Q reg) = Q r" for Q
      unfolding Bex_def conj_assoc [symmetric] sole by simp
    with Some show ?thesis by (simp add: plan_handler_def)
  qed
qed

lemma plan_params:
  assumes "(plan u reg h :: ('e, 'j) generate_error + client_fn) = Inr f"
  shows "map fst (fn_params f) = rg_path_params reg
      @ (if fn_has_query f then [''query''] else []) @ (if fn_has_body f then [''body''] else [])
    \<and> set (rg_path_params reg) \<inter> set RESERVED = {} \<and> fn_url f = client_url (rg_path reg)
    \<and> fn_path f = rg_path reg \<and> fn_method f = rg_method reg \<and> fn_fqname f = ch_fqname h"
proof -
  from assms obtain params where
    p: "(bind_path reg h :: ('e, 'j) generate_error + (string \<times> string) list) = Inr params"
    "set (map fst params) \<inter> set RESERVED = {}" "f = planned_fn u reg h params"
    "length (args_of h {KQuery}) \<le> Suc 0" "length (args_of h {KBody, KMultipart}) \<le> Suc 0"
    by (auto simp: plan_Inr)
  have single: "length xs \<le> Suc 0 \<Longrightarrow> map (\<lambda>_. k) xs = (if xs \<noteq> [] then [k] else [])"
    for xs :: "client_arg list" and k :: string
    by (cases xs) auto
  from p(3) have "map fst (fn_params f) = map fst params
      @ (if fn_has_query f then [''query''] else []) @ (if fn_has_body f then [''body''] else [])"
    by (simp add: planned_fn_def comp_def single [OF p(4)] single [OF p(5)])
  with p bind_path_names [OF p(1)] show ?thesis by (simp add: planned_fn_def)
qed

lemma render_client_Inr:
  "(render_client u routes hs opts :: ('e, 'j) generate_error + string \<times> nat) = Inr (out, n) \<longleftrightarrow>
     distinct (map rg_fqname routes)
     \<and> {rg_fqname r |r. r \<in> set routes \<and> op_include opts r} \<subseteq> ch_fqname ` set hs
     \<and> (\<exists>fns. list_all2 (\<lambda>h f. \<exists>reg \<in> set routes. rg_fqname reg = ch_fqname h
            \<and> (plan u reg h :: ('e, 'j) generate_error + client_fn) = Inr f) hs fns
          \<and> distinct (map ts_function_name fns)
          \<and> out = client_text u opts (sort_key fn_key fns) \<and> n = length hs)"
proof (cases "distinct (map rg_fqname routes)")
  case False
  then show ?thesis by (auto simp: render_client_def result_simps index_routes_Inr)
next
  case True
  let ?m = "map_of (map (\<lambda>r. (rg_fqname r, r)) routes)"
  have m: "(index_routes routes Map.empty :: ('e, 'j) generate_error + _) = Inr ?m" using True by (simp add: index_routes_Inr)
  have "undescribed opts hs routes = None \<longleftrightarrow>
      {rg_fqname r |r. r \<in> set routes \<and> op_include opts r} \<subseteq> ch_fqname ` set hs"
    by (auto simp: undescribed_def find_None_iff)
  with True m show ?thesis
    by (auto simp: render_client_def Let_def result_simps traverse_Inr plan_handler_Inr [OF True] check_names_Inr
        distinct_map_sort_key list_all2_lengthD split: option.splits)
qed

section \<open>Properties\<close>

text \<open>C21: A generated function binds its route and its handler. When \<open>plan\<close> succeeds, the handler has at most
  one path, one query and one body extractor, and the function's parameters are the path's parameters in
  path order, none of them a reserved word, then \<open>query\<close> with the type of the handler's query extractor
  if it has one, then \<open>body\<close> with that of its body or multipart extractor if it has one. A path
  parameter's type is that of the path extractor's field of its name, or, for an extractor without
  fields, the type at its position. The URL is the path with every parameter segment replaced by
  the encoding of that parameter, a template literal exactly when there is one; method and response are
  those of route and handler, and the flags say which of \<open>query\<close> and \<open>body\<close> there are.\<close>

theorem client_function_binds_its_route:
  assumes "(plan u reg h :: ('e, 'j) generate_error + client_fn) = Inr f" "registration_ok reg"
    and "list_all regular_segment (split_char (CHR ''/'') (rg_path reg))"
  shows "\<exists>params. fn_params f = params
        @ map (\<lambda>a. (''query'', ca_ts_type a)) (filter (\<lambda>a. ca_kind a = KQuery) (ch_args h))
        @ map (\<lambda>a. (''body'', ca_ts_type a)) (filter (\<lambda>a. ca_kind a = KBody \<or> ca_kind a = KMultipart) (ch_args h))
      \<and> map fst params = rg_path_params reg \<and> set (rg_path_params reg) \<inter> set RESERVED = {}
      \<and> (case filter (\<lambda>a. ca_kind a = KPath) (ch_args h) of
           [] \<Rightarrow> params = []
         | [a] \<Rightarrow> (case ca_fields a of
             Some flds \<Rightarrow> \<forall>(p, t) \<in> set params. \<exists>fld \<in> set flds. tf_name fld = p \<and> tf_type fld = t
           | None \<Rightarrow> map snd params = (case ca_positions a of Some ts \<Rightarrow> ts | None \<Rightarrow> [ca_ts_type a]))
         | _ \<Rightarrow> False)
      \<and> length (filter (\<lambda>a. ca_kind a = KQuery) (ch_args h)) \<le> 1
      \<and> length (filter (\<lambda>a. ca_kind a = KBody \<or> ca_kind a = KMultipart) (ch_args h)) \<le> 1
      \<and> fn_has_query f = (\<exists>a \<in> set (ch_args h). ca_kind a = KQuery)
      \<and> fn_has_body f = (\<exists>a \<in> set (ch_args h). ca_kind a = KBody \<or> ca_kind a = KMultipart)
      \<and> fn_method f = rg_method reg \<and> fn_response f = ch_response h \<and> fn_fqname f = ch_fqname h
      \<and> fn_url f = (if rg_path_params reg = [] then quoted (rg_path reg)
          else [CHR 0x60] @ join ''/'' (map segment_text (split_char (CHR ''/'') (rg_path reg))) @ [CHR 0x60])"
proof -
  from assms(1) obtain params where
    p: "(bind_path reg h :: ('e, 'j) generate_error + (string \<times> string) list) = Inr params"
      "set (map fst params) \<inter> set RESERVED = {}" "f = planned_fn u reg h params"
      "length (args_of h {KPath}) \<le> 1" "length (args_of h {KQuery}) \<le> 1"
      "length (args_of h {KBody, KMultipart}) \<le> 1"
    unfolding plan_Inr by blast
  have args: "args_of h {KPath} = filter (\<lambda>a. ca_kind a = KPath) (ch_args h)"
    "args_of h {KQuery} = filter (\<lambda>a. ca_kind a = KQuery) (ch_args h)"
    "args_of h {KBody, KMultipart} = filter (\<lambda>a. ca_kind a = KBody \<or> ca_kind a = KMultipart) (ch_args h)"
    by (simp_all add: args_of_def)
  note names = bind_path_names [OF p(1)]
  note types = bind_path_types [OF p(1,4), unfolded args]
  from assms(2) client_url_regular [OF assms(3)]
  have url: "client_url (rg_path reg) = (if rg_path_params reg = [] then quoted (rg_path reg)
      else [CHR 0x60] @ join ''/'' (map segment_text (split_char (CHR ''/'') (rg_path reg))) @ [CHR 0x60])"
    by (simp add: registration_ok_def)
  show ?thesis
    using p(2,5,6) names types url unfolding p(3)
    by (intro exI [of _ params]) (auto simp: planned_fn_def args filter_empty_conv)
qed

text \<open>C22: Generation succeeds exactly when routes and handlers match: no two routes share a name,
  every included route has a handler, every handler has its one route and plans onto it, and no
  two functions get one TypeScript name. The text is then that of the planned functions sorted by
  path and method, and the count is the number of handlers.\<close>

theorem client_generation_complete:
  "(render_client u routes hs opts :: ('e, 'j) generate_error + string \<times> nat) = Inr (out, n) \<longleftrightarrow>
     distinct (map rg_fqname routes)
     \<and> {rg_fqname r |r. r \<in> set routes \<and> op_include opts r} \<subseteq> ch_fqname ` set hs
     \<and> (\<exists>fns. list_all2 (\<lambda>h f. \<exists>reg \<in> set routes. rg_fqname reg = ch_fqname h
            \<and> (plan u reg h :: ('e, 'j) generate_error + client_fn) = Inr f) hs fns
          \<and> distinct (map ts_function_name fns)
          \<and> out = client_text u opts (sort_key fn_key fns) \<and> n = length hs)"
  by (rule render_client_Inr)

definition toy_route :: registration where
  "toy_route = \<lparr>rg_fqname = ''app::task'', rg_method = ''GET'', rg_path = ''/t/{id}'', rg_path_params = [''id'']\<rparr>"

definition toy_described :: client_handler where
  "toy_described =
     \<lparr>ch_fqname = ''app::task'', ch_name = ''task'',
      ch_args = [arg_path \<lparr>ts_name = ''string'', ts_inline = ''string''\<rparr> ''id''], ch_response = RJson ''Task''\<rparr>"

lemma toy_plan:
  "(plan u toy_route toy_described :: ('e, 'j) generate_error + client_fn)
   = Inr (planned_fn u toy_route toy_described [(''id'', ''string'')])"
proof -
  have "args_of toy_described {KPath} = ch_args toy_described" "args_of toy_described {KQuery} = []"
    "args_of toy_described {KBody, KMultipart} = []" "ca_fields (hd (ch_args toy_described)) = None"
    "ca_positions (hd (ch_args toy_described)) = None" "ca_ts_type (hd (ch_args toy_described)) = ''string''"
    by code_simp+
  moreover have "length (ch_args toy_described) = 1" by (simp add: toy_described_def)
  ultimately have "(bind_path toy_route toy_described :: ('e, 'j) generate_error + (string \<times> string) list)
      = Inr [(''id'', ''string'')]"
    by (auto simp: bind_path_def bind_positions_def toy_route_def length_Suc_conv Let_def)
  moreover have "set [''id''] \<inter> set RESERVED = {}" by code_simp
  moreover note \<open>args_of toy_described {KPath} = ch_args toy_described\<close>
    \<open>args_of toy_described {KQuery} = []\<close> \<open>args_of toy_described {KBody, KMultipart} = []\<close>
    \<open>length (ch_args toy_described) = 1\<close>
  ultimately show ?thesis unfolding plan_Inr by simp
qed

theorem client_function_binds_its_route_witness:
  "\<forall>u. fn_url (planned_fn u toy_route toy_described [(''id'', ''string'')])
     = [CHR 0x60] @ ''/t/${enc(id)}'' @ [CHR 0x60]"
proof
  fix u
  have "registration_ok toy_route" unfolding registration_ok_def
    by (intro conjI, code_simp) (auto simp: toy_route_def method_str_def image_iff split: http_method.splits intro: exI [of _ GET])
  moreover have "list_all regular_segment (split_char (CHR ''/'') (rg_path toy_route))" by code_simp
  moreover have "join ''/'' (map segment_text (split_char (CHR ''/'') (rg_path toy_route))) = ''/t/${enc(id)}''"
    "rg_path_params toy_route = [''id'']"
    by code_simp+
  ultimately show "fn_url (planned_fn u toy_route toy_described [(''id'', ''string'')])
      = [CHR 0x60] @ ''/t/${enc(id)}'' @ [CHR 0x60]"
    using client_function_binds_its_route [OF toy_plan [of u]] by (elim meta_impE exE conjE) simp_all
qed

section \<open>The barrel\<close>

record barrel =
  ba_type_only :: bool
  ba_exclude :: "string set"
  ba_header :: "string option"

definition default_barrel :: barrel where
  "default_barrel =
     \<lparr>ba_type_only = True, ba_exclude = {''index'', ''client''},
      ba_header = Some (''// Generated '' @ em_dash @ '' do not edit.'')\<rparr>"

definition barrel_values :: "barrel \<Rightarrow> barrel" where
  "barrel_values b = b\<lparr>ba_type_only := False\<rparr>"

definition barrel_exclude :: "string \<Rightarrow> barrel \<Rightarrow> barrel" where
  "barrel_exclude stem b = b\<lparr>ba_exclude := insert stem (ba_exclude b)\<rparr>"

definition barrel_with_client :: "barrel \<Rightarrow> barrel" where
  "barrel_with_client b = b\<lparr>ba_exclude := ba_exclude b - {''client''}\<rparr>"

definition barrel_header :: "string \<Rightarrow> barrel \<Rightarrow> barrel" where
  "barrel_header line b = b\<lparr>ba_header := Some line\<rparr>"

definition barrel_no_header :: "barrel \<Rightarrow> barrel" where
  "barrel_no_header b = b\<lparr>ba_header := None\<rparr>"

text \<open>\<open>file_stem\<close> and \<open>extension\<close> of a directory entry's name: around the last dot, unless that is
  the first character.\<close>

definition stem_ext :: "string \<Rightarrow> string \<times> string option" where
  "stem_ext name =
     (let pieces = split_char (CHR ''.'') name; before = join ''.'' (butlast pieces)
      in if name = ''..'' \<or> before = [] then (name, None) else (before, Some (last pieces)))"

text \<open>The loop over the directory: \<open>utf8\<close> says which names are valid UTF-8.\<close>

definition barrel_stems :: "(string \<Rightarrow> bool) \<Rightarrow> barrel \<Rightarrow> string list \<Rightarrow> string list" where
  "barrel_stems utf8 b names =
     List.map_filter (\<lambda>name.
       case stem_ext name of
         (stem, ext) \<Rightarrow>
           if ext \<noteq> Some ''ts'' \<or> \<not> utf8 stem \<or> ends_with stem ''.d'' \<or> stem \<in> ba_exclude b then None
           else Some stem) names"

definition barrel_text :: "barrel \<Rightarrow> string list \<Rightarrow> string" where
  "barrel_text b stems =
     (case ba_header b of Some line \<Rightarrow> line @ newline | None \<Rightarrow> [])
     @ concat (map (\<lambda>stem. (if ba_type_only b then ''export type *'' else ''export *'')
         @ '' from '' @ quoted (''./'' @ stem) @ '';'' @ newline) stems)"

definition barrel_render ::
    "(string \<Rightarrow> bool) \<Rightarrow> (string \<Rightarrow> 'e + ('e + string) list) \<Rightarrow> barrel \<Rightarrow> string \<Rightarrow> 'e + string" where
  "barrel_render utf8 read_dir b dir =
     and_then (read_dir dir) (\<lambda>entries.
       map_ok (\<lambda>names. barrel_text b (sort (barrel_stems utf8 b names))) (traverse id entries))"

definition barrel_write ::
    "(string \<Rightarrow> bool) \<Rightarrow> (string \<Rightarrow> 'e + ('e + string) list) \<Rightarrow> (string \<Rightarrow> string \<Rightarrow> 'w \<Rightarrow> ('e + unit) \<times> 'w)
     \<Rightarrow> barrel \<Rightarrow> string \<Rightarrow> 'w \<Rightarrow> ('e + unit) \<times> 'w" where
  "barrel_write utf8 read_dir write_file b dir w =
     (case barrel_render utf8 read_dir b dir of
        Inl e \<Rightarrow> (Inl e, w)
      | Inr t \<Rightarrow> write_file (dir @ ''/index.ts'') t w)"

lemma mset_map_filter: "mset (List.map_filter f xs) = image_mset (the \<circ> f) (filter_mset (\<lambda>x. f x \<noteq> None) (mset xs))"
  by (induction xs) (auto simp: List.map_filter_def)

text \<open>The barrel does not depend on the order of the directory.\<close>

lemma barrel_order_irrelevant:
  assumes "mset names' = mset names"
  shows "sort (barrel_stems utf8 b names') = sort (barrel_stems utf8 b names)"
  by (rule properties_for_sort) (auto simp: barrel_stems_def mset_map_filter assms)

lemma barrel_never_itself:
  "''index'' \<in> ba_exclude b \<Longrightarrow> ''index'' \<notin> set (barrel_stems utf8 b names)"
  by (induction names)
    (auto simp: barrel_stems_def map_filter_simps split: prod.splits option.splits if_splits)

end
