(* ===== verification/Routing_Macros.thy ===== *)
theory Routing_Macros
  imports Routing_Generate
begin

text \<open>
  \<open>parse.rs\<close> and \<open>lib.rs\<close> of \<open>crates/routing-macros\<close>: what \<open>#[client]\<close> reads off a handler's
  signature and the export test it emits. The syntax tree is syn's, cut down to what the code
  looks at; an error is its message. The emitted test is the handler descriptor it would write,
  as a function of the module path and of what ts-rs says of each type.
\<close>

section \<open>Signatures\<close>

datatype syn_type =
    SynPath "path_segment list"
  | SynTuple "syn_type list"
  | SynOther string
and path_segment = Segment string path_args
and path_args = SynNoArgs | Angle "generic_arg list" | Parenthesized
and generic_arg = SynArgType syn_type | SynArgOther string

datatype rpat = PatIdent string | PatTupleStruct "rpat list" | PatParen rpat | PatOther

datatype fn_arg = Receiver | Typed rpat syn_type

record item_fn =
  it_ident :: string
  it_async :: bool
  it_inputs :: "fn_arg list"
  it_output :: "syn_type option"

record macro_arg =
  ma_name :: string
  ma_kind :: arg_kind
  ma_ty :: "syn_type option"

datatype macro_response = MJson syn_type | MNoContent | MLink

record descriptor =
  de_name :: string
  de_args :: "macro_arg list"
  de_response :: macro_response

definition PATH :: "string list" where "PATH = [''Path'', ''ApiPath'']"
definition QUERY :: "string list" where "QUERY = [''Query'', ''ApiQuery'']"
definition BODY :: "string list" where "BODY = [''Json'', ''ApiJson'']"
definition MULTIPART :: "string list" where "MULTIPART = [''Multipart'']"

section \<open>The attribute\<close>

definition DECLARABLE :: "string list" where
  "DECLARABLE = [''string'', ''number'', ''boolean'', ''bigint'']"

definition attr_prefix :: "string \<Rightarrow> string" where
  "attr_prefix template = ''#[client(path = '' @ quoted template @ '')]''"

definition tick :: "string \<Rightarrow> string" where
  "tick s = [CHR 0x60] @ s @ [CHR 0x60]"

definition usable_name :: "string \<Rightarrow> bool" where
  "usable_name name \<longleftrightarrow>
     name \<noteq> [] \<and> (\<forall>c \<in> set name. is_ascii_alnum c \<or> c = CHR ''_'') \<and> \<not> is_ascii_digit (hd name)"

definition name_and_type :: "string \<Rightarrow> string \<times> string" where
  "name_and_type body =
     (case split_once (CHR '':'') body of
        Some (n, t) \<Rightarrow> (trim n, trim t)
      | None \<Rightarrow> (trim body, ''string''))"

text \<open>One pair of braces, against the parameters already read.\<close>

definition declared_param ::
    "string \<Rightarrow> string \<Rightarrow> (string \<times> string) list \<Rightarrow> string + string \<times> string" where
  "declared_param template body out =
     (case name_and_type body of
        (name, ts) \<Rightarrow>
          if \<not> usable_name name
          then Inl (attr_prefix template @ '': '' @ tick (''{'' @ body @ ''}'') @ '' is not a usable parameter name'')
          else if ts \<notin> set DECLARABLE
          then Inl (attr_prefix template @ '': '' @ tick (''{'' @ body @ ''}'')
                 @ '' asks for TypeScript type '' @ tick ts @ '' '' @ em_dash @ '' accepted: ''
                 @ join '', '' DECLARABLE)
          else if name \<in> set (map fst out)
          then Inl (attr_prefix template @ '': '' @ tick (''{'' @ name @ ''}'') @ '' is declared twice'')
          else Inr (name, ts))"

function declared_scan ::
    "string \<Rightarrow> string \<Rightarrow> (string \<times> string) list \<Rightarrow> string + (string \<times> string) list" where
  "declared_scan template rest out =
     (case split_once (CHR ''{'') rest of
        None \<Rightarrow> Inr out
      | Some (_, after) \<Rightarrow>
          (case split_once (CHR ''}'') after of
             None \<Rightarrow> Inl (attr_prefix template @ '': unclosed '' @ tick ''{'' @ '' in the template'')
           | Some (body, rest') \<Rightarrow>
               (case declared_param template body out of
                  Inl e \<Rightarrow> Inl e
                | Inr p \<Rightarrow> declared_scan template rest' (out @ [p]))))"
  by pat_completeness auto
termination
  by (relation "measure (\<lambda>(t, rest, out). length rest)") (auto dest!: split_once_length)

declare declared_scan.simps [simp del]

definition declared_params :: "string \<Rightarrow> string + (string \<times> string) list" where
  "declared_params template = declared_scan template template []"

record client_attr =
  at_link :: bool
  at_path :: "string option"

datatype attr_meta = MetaPath string | MetaNameValue string "string option" | MetaList string

text \<open>One option; \<open>MetaNameValue n None\<close> has a value that is not a string literal.\<close>

definition unknown_option :: string where
  "unknown_option = ''#[client]: unknown option '' @ em_dash @ '' accepted: '' @ tick ''link'' @ '', ''
     @ tick (''path = '' @ quoted ''/a/{param}'')"

definition read_meta :: "attr_meta \<Rightarrow> client_attr \<Rightarrow> string + client_attr" where
  "read_meta m at =
     (case m of
        MetaPath p \<Rightarrow> if p = ''link'' then Inr (at\<lparr>at_link := True\<rparr>) else Inl unknown_option
      | MetaNameValue n v \<Rightarrow>
          if n = ''path''
          then (case v of
                  Some s \<Rightarrow> Inr (at\<lparr>at_path := Some s\<rparr>)
                | None \<Rightarrow> Inl (''#[client(path = '' @ ellipsis
                       @ '')]: expected a string literal, the route template''))
          else Inl unknown_option
      | MetaList n \<Rightarrow> Inl unknown_option)"

fun read_metas :: "attr_meta list \<Rightarrow> client_attr \<Rightarrow> string + client_attr" where
  "read_metas [] at = Inr at"
| "read_metas (m # ms) at = and_then (read_meta m at) (read_metas ms)"

text \<open>The attribute's tokens: \<open>None\<close> when empty, otherwise what syn's parser makes of them.\<close>

definition parse_attr :: "(string + attr_meta list) option \<Rightarrow> string + client_attr" where
  "parse_attr attr =
     (case attr of
        None \<Rightarrow> Inr \<lparr>at_link = False, at_path = None\<rparr>
      | Some parsed \<Rightarrow>
          and_then parsed (\<lambda>metas.
          and_then (read_metas metas \<lparr>at_link = False, at_path = None\<rparr>) (\<lambda>at.
            case at_path at of
              None \<Rightarrow> Inr at
            | Some template \<Rightarrow>
                and_then (declared_params template) (\<lambda>params.
                  if params = []
                  then Inl (attr_prefix template @ '': the template declares no '' @ tick ''{param}'' @ '' ''
                         @ em_dash @ '' a handler with no path params does not need it'')
                  else Inr at))))"

section \<open>The signature\<close>

text \<open>The last segment of a path type and its first type argument.\<close>

fun first_type :: "generic_arg list \<Rightarrow> syn_type option" where
  "first_type [] = None"
| "first_type (SynArgType t # gs) = Some t"
| "first_type (SynArgOther s # gs) = first_type gs"

definition last_path_segment :: "syn_type \<Rightarrow> (string \<times> syn_type option) option" where
  "last_path_segment ty =
     (case ty of
        SynPath segs \<Rightarrow>
          (if segs = [] then None
           else (case last segs of
                   Segment ident args \<Rightarrow>
                     Some (ident, case args of Angle gs \<Rightarrow> first_type gs | _ \<Rightarrow> None)))
      | _ \<Rightarrow> None)"

definition classify :: "syn_type \<Rightarrow> string + (arg_kind \<times> syn_type option) option" where
  "classify ty =
     (case last_path_segment ty of
        None \<Rightarrow> Inr None
      | Some (ident, inner) \<Rightarrow>
          (let needs = (\<lambda>kind. case inner of
                 Some t \<Rightarrow> Inr (Some (kind, Some t))
               | None \<Rightarrow> Inl (''#[client]: '' @ tick ident @ '' needs its payload type argument (''
                      @ tick (ident @ ''<T>'') @ '')''))
           in if ident \<in> set PATH then needs KPath
              else if ident \<in> set QUERY then needs KQuery
              else if ident \<in> set BODY then needs KBody
              else if ident \<in> set MULTIPART then Inr (Some (KMultipart, None))
              else Inr None))"

fun ident_of :: "rpat \<Rightarrow> string option" where
  "ident_of (PatIdent i) = Some i"
| "ident_of (PatTupleStruct [p]) = ident_of p"
| "ident_of (PatParen p) = ident_of p"
| "ident_of _ = None"

definition pat_name :: "rpat \<Rightarrow> arg_kind \<Rightarrow> string" where
  "pat_name p kind =
     unwrap_or (case kind of KPath \<Rightarrow> ''path'' | KQuery \<Rightarrow> ''query'' | KBody \<Rightarrow> ''body''
                | KMultipart \<Rightarrow> ''multipart'') (ident_of p)"

text \<open>\<open>show_ty\<close> prints a type's tokens.\<close>

definition opaque_return :: "(syn_type \<Rightarrow> string) \<Rightarrow> string \<Rightarrow> syn_type \<Rightarrow> string" where
  "opaque_return show_ty name ty =
     ''#[client] on '' @ tick name @ '': the return type '' @ tick (show_ty ty) @ '' is opaque '' @ em_dash
     @ '' return Json<T> (also as Result<Json<T>, _>, (StatusCode, Json<T>) or ApiJson<T>), or ''
     @ ''StatusCode / () for no content; a handler the browser navigates to takes #[client(link)]''"

lemma first_type_size: "first_type gs = Some t \<Longrightarrow> size t < size_list size gs"
  by (induction gs rule: first_type.induct) auto

lemma last_path_segment_size:
  assumes "last_path_segment ty = Some (ident, Some t)"
  shows "size t < size ty"
proof -
  from assms obtain segs gs where ty: "ty = SynPath segs" "segs \<noteq> []" "last segs = Segment ident (Angle gs)"
    "first_type gs = Some t"
    by (auto simp: last_path_segment_def split: syn_type.splits path_segment.splits path_args.splits if_splits)
  have "size t < size (last segs)" using ty(3) first_type_size [OF ty(4)] by simp
  moreover have "size (last segs) < size_list size segs"
    using ty(2) by (induction segs) auto
  ultimately show ?thesis using ty(1) by simp
qed

function response_of :: "(syn_type \<Rightarrow> string) \<Rightarrow> string \<Rightarrow> syn_type \<Rightarrow> string + macro_response" where
  "response_of show_ty name ty =
     (let opaque = Inl (opaque_return show_ty name ty) in
      case ty of
        SynTuple elems \<Rightarrow>
          if elems = [] then Inr MNoContent
          else (case last_path_segment (last elems) of
                  Some (ident, Some inner) \<Rightarrow> if ident \<in> set BODY then Inr (MJson inner) else opaque
                | _ \<Rightarrow> opaque)
      | SynPath segs \<Rightarrow>
          (case last_path_segment ty of
             None \<Rightarrow> opaque
           | Some (ident, Some inner) \<Rightarrow>
               if ident = ''Result'' then response_of show_ty name inner
               else if ident \<in> set BODY then Inr (MJson inner)
               else opaque
           | Some (ident, None) \<Rightarrow> if ident = ''StatusCode'' then Inr MNoContent else opaque)
      | SynOther s \<Rightarrow> opaque)"
  by pat_completeness auto
termination
  by (relation "measure (\<lambda>(s, n, ty). size ty)") (auto dest: last_path_segment_size)

declare response_of.simps [simp del]

fun describe_args :: "string \<Rightarrow> fn_arg list \<Rightarrow> string + macro_arg list" where
  "describe_args name [] = Inr []"
| "describe_args name (Receiver # ins) = Inl (''#[client] on '' @ tick name @ '': a handler has no '' @ tick ''self'')"
| "describe_args name (Typed p ty # ins) =
     and_then (classify ty) (\<lambda>c.
       map_ok (\<lambda>rest. (case c of
                 Some (kind, t) \<Rightarrow> [\<lparr>ma_name = pat_name p kind, ma_kind = kind, ma_ty = t\<rparr>]
               | None \<Rightarrow> []) @ rest)
         (describe_args name ins))"

definition describe :: "(syn_type \<Rightarrow> string) \<Rightarrow> item_fn \<Rightarrow> bool \<Rightarrow> string + descriptor" where
  "describe show_ty item link =
     (if \<not> it_async item
      then Inl (''#[client] on '' @ tick (it_ident item) @ '': expected an '' @ tick ''async fn'' @ '' handler'')
      else and_then (describe_args (it_ident item) (it_inputs item)) (\<lambda>args.
        map_ok (\<lambda>resp. \<lparr>de_name = it_ident item, de_args = args, de_response = resp\<rparr>)
          (if link then Inr MLink
           else (case it_output item of
                   None \<Rightarrow> Inr MNoContent
                 | Some ty \<Rightarrow> response_of show_ty (it_ident item) ty))))"

section \<open>The emitted test\<close>

text \<open>The argument expressions of the emitted descriptor.\<close>

datatype arg_expr =
    ExprArg arg_kind "syn_type option" string
  | ExprDeclared string "(string \<times> string) list"

record expansion =
  ex_item :: item_fn
  ex_test_name :: string
  ex_args :: "arg_expr list"
  ex_response :: macro_response

definition expand ::
    "(syn_type \<Rightarrow> string) \<Rightarrow> (string + attr_meta list) option \<Rightarrow> item_fn \<Rightarrow> string + expansion" where
  "expand show_ty attr item =
     and_then (parse_attr attr) (\<lambda>at.
     and_then (describe show_ty item (at_link at)) (\<lambda>d.
       let exprs = map (\<lambda>a. ExprArg (ma_kind a) (ma_ty a) (ma_name a)) (de_args d);
           expansion = (\<lambda>args.
             \<lparr>ex_item = item, ex_test_name = ''export_client_'' @ de_name d, ex_args = args,
              ex_response = de_response d\<rparr>)
       in case at_path at of
            None \<Rightarrow> Inr (expansion exprs)
          | Some template \<Rightarrow>
              if list_ex (\<lambda>a. ma_kind a = KPath) (de_args d)
              then Inl (attr_prefix template @ '' on '' @ tick (de_name d)
                     @ '', which already takes a Path<T> '' @ em_dash
                     @ '' the declaration is for a handler whose params are read inside a guard, ''
                     @ ''so drop whichever of the two is redundant'')
              else map_ok (\<lambda>pairs. expansion (exprs @ [ExprDeclared template pairs]))
                     (declared_params template)))"

text \<open>Running the test: ts-rs resolves the types; a type argument is present for every kind but
  \<open>Multipart\<close>.\<close>

definition run_arg :: "(syn_type \<Rightarrow> ts) \<Rightarrow> arg_expr \<Rightarrow> client_arg" where
  "run_arg resolve e =
     (case e of
        ExprDeclared template pairs \<Rightarrow> arg_declared_path template pairs
      | ExprArg KPath (Some t) name \<Rightarrow> arg_path (resolve t) name
      | ExprArg KQuery (Some t) name \<Rightarrow> arg_query (resolve t) name
      | ExprArg KBody (Some t) name \<Rightarrow> arg_body (resolve t) name
      | ExprArg _ _ name \<Rightarrow> arg_multipart name)"

definition run_response :: "(syn_type \<Rightarrow> ts) \<Rightarrow> macro_response \<Rightarrow> client_response" where
  "run_response resolve r =
     (case r of MJson t \<Rightarrow> response_json (resolve t) | MNoContent \<Rightarrow> RNoContent | MLink \<Rightarrow> RLink)"

definition run_export :: "(syn_type \<Rightarrow> ts) \<Rightarrow> string \<Rightarrow> expansion \<Rightarrow> client_handler" where
  "run_export resolve module_path ex =
     \<lparr>ch_fqname = module_path @ ''::'' @ it_ident (ex_item ex),
      ch_name = it_ident (ex_item ex),
      ch_args = map (run_arg resolve) (ex_args ex),
      ch_response = run_response resolve (ex_response ex)\<rparr>"

text \<open>\<open>lib.rs\<close>: on an error the handler is emitted beside the diagnostic.\<close>

datatype client_output = Expanded expansion | ItemWithError item_fn string

definition client_attribute ::
    "(syn_type \<Rightarrow> string) \<Rightarrow> (string + attr_meta list) option \<Rightarrow> item_fn \<Rightarrow> client_output" where
  "client_attribute show_ty attr item =
     (case expand show_ty attr item of
        Inr ex \<Rightarrow> Expanded ex
      | Inl e \<Rightarrow> ItemWithError item e)"

section \<open>Facts\<close>

definition declared_ok :: "(string \<times> string) list \<Rightarrow> bool" where
  "declared_ok ps \<longleftrightarrow> distinct (map fst ps) \<and> list_all (\<lambda>(n, t). usable_name n \<and> t \<in> set DECLARABLE) ps"

lemma declared_param_ok:
  "declared_param template body out = Inr p \<Longrightarrow> declared_ok out \<Longrightarrow> declared_ok (out @ [p])"
  by (auto simp: declared_param_def declared_ok_def split: prod.splits if_splits intro: rev_image_eqI)

lemma declared_scan_ok:
  "declared_scan template rest out = Inr ps \<Longrightarrow> declared_ok out \<Longrightarrow> declared_ok ps"
proof (induction template rest out rule: declared_scan.induct)
  case (1 template rest out)
  show ?case
  proof (cases "split_once (CHR ''{'') rest")
    case None
    with "1.prems" show ?thesis by (simp add: declared_scan.simps)
  next
    case (Some pre)
    then obtain before after where pre: "split_once (CHR ''{'') rest = Some (before, after)" by (cases pre) auto
    then obtain body rest' p where steps: "split_once (CHR ''}'') after = Some (body, rest')"
      "declared_param template body out = Inr p" "declared_scan template rest' (out @ [p]) = Inr ps"
      using "1.prems"(1) by (subst (asm) declared_scan.simps) (auto split: option.splits prod.splits sum.splits)
    from "1.IH" [OF pre refl steps(1) refl steps(2,3)] declared_param_ok [OF steps(2) "1.prems"(2)]
    show ?thesis .
  qed
qed

lemma declared_params_ok: "declared_params template = Inr ps \<Longrightarrow> declared_ok ps"
  unfolding declared_params_def by (erule declared_scan_ok) (simp add: declared_ok_def)

lemma run_arg_kind: "ca_kind (run_arg resolve (ExprArg k t n)) = k \<or> ca_kind (run_arg resolve (ExprArg k t n)) = KMultipart"
  by (cases k; cases t)
    (auto simp: run_arg_def arg_path_def arg_query_def arg_body_def arg_multipart_def Let_def split: option.splits)

text \<open>What an accepted expansion with a declared template holds.\<close>

lemma expand_declared:
  assumes "expand show_ty attr item = Inr ex" "parse_attr attr = Inr at" "at_path at = Some template"
  shows "\<exists>ps. declared_params template = Inr ps \<and> declared_ok ps
    \<and> args_of (run_export resolve m ex) {KPath} = [arg_declared_path template ps]"
proof -
  from assms obtain d :: descriptor and ps where d: "\<not> list_ex (\<lambda>a. ma_kind a = KPath) (de_args d)"
    "declared_params template = Inr ps"
    "ex_args ex = map (\<lambda>a. ExprArg (ma_kind a) (ma_ty a) (ma_name a)) (de_args d) @ [ExprDeclared template ps]"
    by (auto simp: expand_def result_simps Let_def split: if_splits)
  have "ca_kind (run_arg resolve (ExprArg (ma_kind a) (ma_ty a) (ma_name a))) \<noteq> KPath"
    if "a \<in> set (de_args d)" for a
    using run_arg_kind [of resolve "ma_kind a" "ma_ty a" "ma_name a"] d(1) that by (auto simp: list_ex_iff)
  then have "args_of (run_export resolve m ex) {KPath} = [arg_declared_path template ps]"
    by (auto simp: args_of_def run_export_def d(3) run_arg_def [of resolve "ExprDeclared template ps"]
        arg_declared_path_def filter_empty_conv)
  with d(2) declared_params_ok show ?thesis by blast
qed

lemma find_declared:
  "find (\<lambda>f. tf_name f = p) (map (\<lambda>(n, t). TsField n t) ps) = map_option (TsField p) (map_of ps p)"
  by (induction ps) auto

lemma bind_declared:
  assumes "args_of h {KPath} = [arg_declared_path template ps]"
  shows "case (bind_path reg h :: ('e, 'j) generate_error + (string \<times> string) list) of
      Inr params \<Rightarrow> set (rg_path_params reg) \<subseteq> fst ` set ps
        \<and> params = map (\<lambda>p. (p, the (map_of ps p))) (rg_path_params reg)
    | Inl _ \<Rightarrow> \<not> set (rg_path_params reg) \<subseteq> fst ` set ps"
proof -
  let ?arg = "arg_declared_path template ps"
  let ?bind = "bind_field reg h ?arg (map (\<lambda>(n, t). TsField n t) ps) :: _ \<Rightarrow> ('e, 'j) generate_error + _"
  have "case traverse ?bind qs of
      Inr params \<Rightarrow> set qs \<subseteq> fst ` set ps \<and> params = map (\<lambda>p. (p, the (map_of ps p))) qs
    | Inl _ \<Rightarrow> \<not> set qs \<subseteq> fst ` set ps" for qs
  proof (induction qs)
    case (Cons q qs)
    show ?case
    proof (cases "map_of ps q")
      case None
      then obtain e where "?bind q = Inl e" by (simp add: bind_field_def find_declared)
      moreover have "q \<notin> fst ` set ps" using None by (simp add: map_of_eq_None_iff)
      ultimately show ?thesis by simp
    next
      case (Some t)
      then have "?bind q = Inr (q, t)" by (simp add: bind_field_def find_declared)
      moreover have "q \<in> fst ` set ps" using Some map_of_eq_None_iff [of ps q] by auto
      ultimately show ?thesis
        using Cons.IH Some by (cases "traverse ?bind qs") simp_all
    qed
  qed simp
  from this [of "rg_path_params reg"] show ?thesis
    using assms by (simp add: bind_path_def arg_declared_path_def)
qed

lemma bind_declared_Inr:
  assumes "args_of h {KPath} = [arg_declared_path template ps]"
  shows "(bind_path reg h :: ('e, 'j) generate_error + (string \<times> string) list) = Inr params \<longleftrightarrow>
    set (rg_path_params reg) \<subseteq> fst ` set ps \<and> params = map (\<lambda>p. (p, the (map_of ps p))) (rg_path_params reg)"
  using bind_declared [OF assms, of reg, where 'e = 'e and 'j = 'j]
  by (cases "bind_path reg h :: ('e, 'j) generate_error + (string \<times> string) list") auto

text \<open>
  A declared name the route does not have is ignored: the function is generated, with the route's
  parameters only.
\<close>

lemma extra_declared_name_accepted:
  assumes "args_of h {KPath} = [arg_declared_path template ps]" "set (rg_path_params reg) \<subseteq> fst ` set ps"
    and "set (rg_path_params reg) \<inter> set RESERVED = {}" "args_of h {KQuery} = []"
    and "args_of h {KBody, KMultipart} = []" "extra \<in> fst ` set ps" "extra \<notin> set (rg_path_params reg)"
  shows "\<exists>f. (plan u reg h :: ('e, 'j) generate_error + client_fn) = Inr f
    \<and> extra \<notin> fst ` set (fn_params f)"
proof -
  let ?params = "map (\<lambda>p. (p, the (map_of ps p))) (rg_path_params reg)"
  from assms(1,2) have "(bind_path reg h :: ('e, 'j) generate_error + (string \<times> string) list) = Inr ?params"
    by (simp add: bind_declared_Inr)
  with assms have "(plan u reg h :: ('e, 'j) generate_error + client_fn) = Inr (planned_fn u reg h ?params)"
    unfolding plan_Inr by (auto simp: comp_def)
  moreover have "extra \<notin> fst ` set (fn_params (planned_fn u reg h ?params))"
    using assms(4,5,7) by (auto simp: planned_fn_def)
  ultimately show ?thesis by blast
qed

section \<open>Properties\<close>

text \<open>C24: A declared template is checked against the route it is mounted on. When \<open>#[client(path = ...)]\<close>
  is accepted, its parameters are distinct identifiers of declarable types and the emitted descriptor
  has that template as its only path argument. Generating the function of the descriptor on a
  route succeeds exactly when every parameter of the route is declared and is not a reserved
  word, and the handler has at most one query and at most one body extractor; a declared name that the
  route does not have is no obstacle. Then the function's parameters begin with the route's, in their
  order, each with its declared type, and only the query and the body follow.\<close>

theorem declared_template_checked_against_route:
  assumes "expand show_ty attr item = Inr ex" "parse_attr attr = Inr at" "at_path at = Some template"
  shows "\<exists>ps. declared_params template = Inr ps \<and> distinct (map fst ps)
    \<and> list_all (\<lambda>(n, t). usable_name n \<and> t \<in> set DECLARABLE) ps
    \<and> args_of (run_export resolve m ex) {KPath} = [arg_declared_path template ps]
    \<and> ((\<exists>f. (plan u reg (run_export resolve m ex) :: ('e, 'j) generate_error + client_fn) = Inr f) \<longleftrightarrow>
         set (rg_path_params reg) \<subseteq> fst ` set ps \<and> set (rg_path_params reg) \<inter> set RESERVED = {}
         \<and> length (args_of (run_export resolve m ex) {KQuery}) \<le> 1
         \<and> length (args_of (run_export resolve m ex) {KBody, KMultipart}) \<le> 1)
    \<and> (\<forall>f. (plan u reg (run_export resolve m ex) :: ('e, 'j) generate_error + client_fn) = Inr f \<longrightarrow>
         fn_params f = map (\<lambda>p. (p, the (map_of ps p))) (rg_path_params reg)
           @ map (\<lambda>a. (''query'', ca_ts_type a)) (args_of (run_export resolve m ex) {KQuery})
           @ map (\<lambda>a. (''body'', ca_ts_type a)) (args_of (run_export resolve m ex) {KBody, KMultipart}))"
proof -
  let ?h = "run_export resolve m ex"
  from expand_declared [OF assms] obtain ps where ps: "declared_params template = Inr ps" "declared_ok ps"
    "args_of ?h {KPath} = [arg_declared_path template ps]" by blast
  let ?params = "map (\<lambda>p. (p, the (map_of ps p))) (rg_path_params reg)"
  have plan: "(plan u reg ?h :: ('e, 'j) generate_error + client_fn) = Inr f \<longleftrightarrow>
      set (rg_path_params reg) \<subseteq> fst ` set ps \<and> set (rg_path_params reg) \<inter> set RESERVED = {}
      \<and> length (args_of ?h {KQuery}) \<le> 1 \<and> length (args_of ?h {KBody, KMultipart}) \<le> 1
      \<and> f = planned_fn u reg ?h ?params" for f
    unfolding plan_Inr bind_declared_Inr [OF ps(3)] by (auto simp: ps(3) comp_def image_image)
  show ?thesis
    using ps unfolding plan declared_ok_def
    by (intro exI [of _ ps] conjI) (auto simp: planned_fn_def)
qed

definition guarded_item :: item_fn where
  "guarded_item =
     \<lparr>it_ident = ''run'', it_async = True,
      it_inputs = [Typed PatOther (SynPath [Segment ''Operator'' SynNoArgs])],
      it_output = Some (SynPath [Segment ''StatusCode'' SynNoArgs])\<rparr>"

definition guarded_attr :: "(string + attr_meta list) option" where
  "guarded_attr = Some (Inr [MetaNameValue ''path'' (Some ''/t/{id: number}'')])"

lemma guarded_params: "declared_params ''/t/{id: number}'' = Inr [(''id'', ''number'')]"
proof -
  have split: "split_once (CHR ''{'') ''/t/{id: number}'' = Some (''/t/'', ''id: number}'')"
    "split_once (CHR ''}'') ''id: number}'' = Some (''id: number'', [])"
    "split_once (CHR '':'') ''id: number'' = Some (''id'', '' number'')"
    by code_simp+
  have "\<forall>c \<in> set ''id''. word_char c" "\<forall>c \<in> set ''number''. word_char c"
    by (simp_all add: word_char_def is_ascii_alnum_def)
  then have "trim ''id'' = ''id''" "trim '' number'' = ''number''"
    by (simp_all only: trim_word trim_space_word)
  with split(3) have "declared_param ''/t/{id: number}'' ''id: number'' [] = Inr (''id'', ''number'')"
    by (simp add: declared_param_def name_and_type_def usable_name_def is_ascii_alnum_def
        is_ascii_digit_def DECLARABLE_def)
  with split(1,2) show ?thesis by (simp add: declared_params_def declared_scan.simps)
qed

theorem declared_template_checked_against_route_witness:
  "\<exists>ex. expand (\<lambda>_. []) guarded_attr guarded_item = Inr ex
     \<and> (\<forall>u. \<exists>f. (plan u toy_route (run_export (\<lambda>_. \<lparr>ts_name = [], ts_inline = []\<rparr>) ''app'' ex)
          :: (unit, unit) generate_error + client_fn) = Inr f \<and> fn_params f = [(''id'', ''number'')])"
proof -
  let ?at = "\<lparr>at_link = False, at_path = Some ''/t/{id: number}''\<rparr>" and ?ts = "\<lambda>_. \<lparr>ts_name = [], ts_inline = []\<rparr>"
  have at: "parse_attr guarded_attr = Inr ?at"
    by (simp add: parse_attr_def guarded_attr_def read_meta_def guarded_params)
  have "classify (SynPath [Segment ''Operator'' SynNoArgs]) = Inr None" by code_simp
  moreover have "response_of (\<lambda>_. []) ''run'' (SynPath [Segment ''StatusCode'' SynNoArgs]) = Inr MNoContent"
    by (simp add: response_of.simps last_path_segment_def)
  ultimately obtain ex where ex: "expand (\<lambda>_. []) guarded_attr guarded_item = Inr ex"
    and args: "ex_args ex = [ExprDeclared ''/t/{id: number}'' [(''id'', ''number'')]]"
    by (simp add: expand_def at describe_def guarded_item_def guarded_params)
  have none: "args_of (run_export ?ts ''app'' ex) {KQuery} = []"
    "args_of (run_export ?ts ''app'' ex) {KBody, KMultipart} = []"
    by (simp_all add: args_of_def run_export_def args run_arg_def arg_declared_path_def)
  have path: "at_path ?at = Some ''/t/{id: number}''" by simp
  have "\<exists>f. (plan u toy_route (run_export ?ts ''app'' ex) :: (unit, unit) generate_error + client_fn) = Inr f
      \<and> fn_params f = [(''id'', ''number'')]" for u
  proof -
    have free: "set (rg_path_params toy_route) \<inter> set RESERVED = {}" by code_simp
    from declared_template_checked_against_route [OF ex at path, where reg = toy_route and m = "''app''"
        and resolve = ?ts and u = u and 'e = unit and 'j = unit] free
    show ?thesis by (auto simp: none guarded_params toy_route_def)
  qed
  with ex show ?thesis by blast
qed

end
