(* ===== verification/Routing_Calls.thy ===== *)
theory Routing_Calls
  imports Routing_Generate
begin

text \<open>
  What a generated function asks the server for: the value of the JavaScript literal the generator
  writes as its URL, and whether a path of the route table takes a URL, with which parameters.
\<close>

section \<open>The literal\<close>

lemma strip_prefix_length: "strip_prefix p s = Some t \<Longrightarrow> length t \<le> length s"
  by (auto simp: strip_prefix_def split: if_splits)

text \<open>
  The value of a template literal's text: a substitution is \<open>${enc(name)}\<close>, \<open>args\<close> giving what
  \<open>enc\<close> makes of the variables in scope; a dollar sign elsewhere, a backtick and an escape are left
  out.
\<close>

function eval_template :: "(string \<Rightarrow> string option) \<Rightarrow> string \<Rightarrow> string option" where
  "eval_template args [] = Some []"
| "eval_template args (c # cs) =
     (if c \<in> {CHR 0x60, CHR 0x5C} then None
      else if c = CHR ''$'' then
        (case strip_prefix ''{enc('' cs of
           None \<Rightarrow> None
         | Some rest \<Rightarrow>
             (case strip_prefix '')}'' (dropWhile (\<lambda>x. x \<noteq> CHR '')'') rest) of
                None \<Rightarrow> None
              | Some after \<Rightarrow>
                  Option.bind (args (takeWhile (\<lambda>x. x \<noteq> CHR '')'') rest)) (\<lambda>a.
                    map_option ((@) a) (eval_template args after))))
      else map_option ((#) c) (eval_template args cs))"
  by pat_completeness auto

termination
proof (relation "measure (length \<circ> snd)", goal_cases)
  case (2 args c cs rest after a)
  then have "length after \<le> length (dropWhile (\<lambda>x. x \<noteq> CHR '')'') rest)" "length rest \<le> length cs"
    by (auto dest: strip_prefix_length)
  with length_dropWhile_le [of "\<lambda>x. x \<noteq> CHR '')''" rest] show ?case by simp
qed simp_all

declare eval_template.simps(2) [simp del]

definition eval_url :: "(string \<Rightarrow> string option) \<Rightarrow> string \<Rightarrow> string option" where
  "eval_url args url =
     (case url of
        [] \<Rightarrow> None
      | q # rest \<Rightarrow>
          if rest = [] \<or> last rest \<noteq> q then None
          else if q = CHR 0x22 then
            (if list_all (\<lambda>c. c \<notin> {CHR 0x22, CHR 0x5C, CHR 0x0A, CHR 0x0D}) (butlast rest)
             then Some (butlast rest) else None)
          else if q = CHR 0x60 then eval_template args (butlast rest)
          else None)"

text \<open>The characters of a URL that stand for themselves, and those \<open>encodeURIComponent\<close> leaves.\<close>

definition url_char :: "char \<Rightarrow> bool" where
  "url_char c \<longleftrightarrow> is_ascii_alnum c \<or> c \<in> set ''-._~!*'()''"

text \<open>
  A segment whose text is that of a URL: a parameter whose name is a JavaScript name, or characters
  that stand for themselves, other than the two that move through a path.
\<close>

definition clean_segment :: "string \<Rightarrow> bool" where
  "clean_segment seg \<longleftrightarrow>
     (case segment_param seg of
        Some p \<Rightarrow> seg \<in> {''{'' @ p @ ''}'', ''{*'' @ p @ ''}''}
          \<and> list_all (\<lambda>c. is_ascii_alnum c \<or> c = CHR ''_'') p \<and> \<not> is_ascii_digit (hd p)
      | None \<Rightarrow> list_all url_char seg \<and> seg \<notin> {''.'', ''..''})"

definition clean_path :: "string \<Rightarrow> bool" where
  "clean_path path \<longleftrightarrow> list_all clean_segment (split_char (CHR ''/'') path)"

text \<open>What \<open>encodeURIComponent\<close> can make of an argument that is not empty, a dot or two dots.\<close>

definition encoded :: "string \<Rightarrow> bool" where
  "encoded a \<longleftrightarrow> a \<notin> {[], ''.'', ''..''} \<and> list_all (\<lambda>c. url_char c \<or> c = CHR ''%'') a"

text \<open>A path of axum takes a URL: each segment is the path's, or its parameter's argument.\<close>

definition takes_url :: "string \<Rightarrow> (string \<Rightarrow> string option) \<Rightarrow> string \<Rightarrow> bool" where
  "takes_url path args url \<longleftrightarrow>
     list_all2 (\<lambda>seg useg. case segment_param seg of
          Some p \<Rightarrow> args p = Some useg \<and> useg \<noteq> []
        | None \<Rightarrow> useg = seg)
       (split_char (CHR ''/'') path) (split_char (CHR ''/'') url)"

lemma eval_template_plain:
  assumes "CHR 0x60 \<notin> set t" "CHR 0x5C \<notin> set t" "CHR ''$'' \<notin> set t"
  shows "eval_template args (t @ rest) = map_option ((@) t) (eval_template args rest)"
  using assms
proof (induction t)
  case Nil
  show ?case by (cases "eval_template args rest") simp_all
next
  case (Cons c t)
  then show ?case by (cases "eval_template args rest") (auto simp: eval_template.simps(2))
qed

lemma eval_template_enc:
  assumes "CHR '')'' \<notin> set p"
  shows "eval_template args (''${enc('' @ p @ '')}'' @ rest) =
    Option.bind (args p) (\<lambda>a. map_option ((@) a) (eval_template args rest))"
proof -
  from assms have "\<And>x. x \<in> set p \<Longrightarrow> x \<noteq> CHR '')''" by auto
  then have "takeWhile (\<lambda>x. x \<noteq> CHR '')'') (p @ '')}'' @ rest) = p"
    "dropWhile (\<lambda>x. x \<noteq> CHR '')'') (p @ '')}'' @ rest) = '')}'' @ rest"
    by (simp_all add: takeWhile_append2 dropWhile_append2)
  then show ?thesis
    by (simp add: eval_template.simps(2) strip_prefix_def starts_with_def)
qed

text \<open>The URL of a clean path is that path with the arguments in place of its parameters.\<close>

definition path_url :: "(string \<Rightarrow> string option) \<Rightarrow> string \<Rightarrow> string" where
  "path_url args path =
     join ''/'' (map (\<lambda>seg. case segment_param seg of Some p \<Rightarrow> the (args p) | None \<Rightarrow> seg)
       (split_char (CHR ''/'') path))"

lemma segment_param_brace: "segment_param seg = Some p \<Longrightarrow> starts_with seg ''{''"
  by (auto simp: segment_param_def brace_inner_Some starts_with_def split: option.splits)

lemma url_char_plain:
  "url_char c \<Longrightarrow> c \<notin> {CHR 0x60, CHR 0x5C, CHR ''$'', CHR 0x22, CHR 0x0A, CHR 0x0D, CHR ''/''}"
  by (auto simp: url_char_def is_ascii_alnum_def)

lemma name_plain:
  "list_all (\<lambda>c. is_ascii_alnum c \<or> c = CHR ''_'') p \<Longrightarrow> CHR '')'' \<notin> set p"
  by (auto simp: list_all_iff is_ascii_alnum_def)

lemma clean_regular:
  assumes "clean_segment seg"
  shows "regular_segment seg"
proof (cases "segment_param seg")
  case None
  with assms have plain: "list_all url_char seg" by (simp add: clean_segment_def)
  have "brace_inner seg = None"
  proof (cases "brace_inner seg")
    case (Some inner)
    with plain show ?thesis
      by (simp add: brace_inner_Some url_char_def is_ascii_alnum_def)
  qed simp
  then show ?thesis by (simp add: regular_segment_def)
next
  case (Some p)
  then show ?thesis
    by (auto simp: regular_segment_def segment_param_def split: option.splits if_splits)
qed

lemma eval_segment:
  assumes "clean_segment seg" "\<And>p. segment_param seg = Some p \<Longrightarrow> args p \<noteq> None"
  shows "eval_template args (segment_text seg @ rest) =
    map_option ((@) (case segment_param seg of Some p \<Rightarrow> the (args p) | None \<Rightarrow> seg)) (eval_template args rest)"
proof (cases "segment_param seg")
  case None
  with assms(1) have "list_all url_char seg" by (simp add: clean_segment_def)
  then have "CHR 0x60 \<notin> set seg" "CHR 0x5C \<notin> set seg" "CHR ''$'' \<notin> set seg"
    using url_char_plain by (auto simp: list_all_iff)
  with None show ?thesis by (simp add: segment_text_def eval_template_plain)
next
  case (Some p)
  with assms(1) have "CHR '')'' \<notin> set p"
    using name_plain by (simp add: clean_segment_def)
  moreover from Some assms(2) obtain a where "args p = Some a" by blast
  ultimately show ?thesis
    using Some eval_template_enc [of p args rest] by (simp add: segment_text_def)
qed

lemma eval_segments:
  assumes "list_all clean_segment segs"
    and "\<And>seg p. seg \<in> set segs \<Longrightarrow> segment_param seg = Some p \<Longrightarrow> args p \<noteq> None"
  shows "eval_template args (join ''/'' (map segment_text segs)) =
    Some (join ''/'' (map (\<lambda>seg. case segment_param seg of Some p \<Rightarrow> the (args p) | None \<Rightarrow> seg) segs))"
  using assms
proof (induction segs rule: induct_list012)
  case (2 seg)
  then show ?case using eval_segment [of seg args "[]"] by simp
next
  case (3 seg seg' segs)
  have "args p \<noteq> None" if "segment_param seg = Some p" for p
    using 3(4) [OF _ that] by simp
  with 3(3) have "eval_template args (segment_text seg @ ''/'' @ join ''/'' (map segment_text (seg' # segs))) =
      map_option ((@) (case segment_param seg of Some p \<Rightarrow> the (args p) | None \<Rightarrow> seg))
        (eval_template args (''/'' @ join ''/'' (map segment_text (seg' # segs))))"
    by (intro eval_segment) simp_all
  moreover have "eval_template args (''/'' @ join ''/'' (map segment_text (seg' # segs))) =
      map_option ((@) ''/'') (eval_template args (join ''/'' (map segment_text (seg' # segs))))"
    by (rule eval_template_plain) simp_all
  moreover have "eval_template args (join ''/'' (map segment_text (seg' # segs))) =
      Some (join ''/'' (map (\<lambda>seg. case segment_param seg of Some p \<Rightarrow> the (args p) | None \<Rightarrow> seg) (seg' # segs)))"
    using 3(3) by (intro 3(2)) (simp, rule 3(4), simp_all)
  ultimately show ?case by simp
qed simp

section \<open>The URL of a route\<close>

lemma set_path_params:
  "set (parse_path_params path) = {p. \<exists>seg \<in> set (split_char (CHR ''/'') path). segment_param seg = Some p}"
proof -
  have "set (List.map_filter g xs) = {p. \<exists>x \<in> set xs. g x = Some p}" for g :: "string \<Rightarrow> string option" and xs
    by (induction xs) (auto simp: map_filter_simps split: option.splits)
  then show ?thesis by (simp add: parse_path_params_def)
qed

lemma split_char_no: "s \<in> set (split_char c x) \<Longrightarrow> c \<notin> set s"
  by (induction x arbitrary: s) (auto split: if_splits list.splits)

lemma split_char_not_empty: "split_char c x \<noteq> []"
  by (induction x) (auto split: list.splits)

lemma literal_path_plain:
  assumes "clean_path path" "parse_path_params path = []" "c \<in> set path"
  shows "c = CHR ''/'' \<or> url_char c"
proof -
  have "set (join ''/'' segs) \<subseteq> insert (CHR ''/'') (\<Union> (set ` set segs))" for segs
    by (induction segs rule: induct_list012) auto
  from this [of "split_char (CHR ''/'') path"] assms(3)
  have "c = CHR ''/'' \<or> (\<exists>seg \<in> set (split_char (CHR ''/'') path). c \<in> set seg)" by auto
  moreover have "segment_param seg = None" if "seg \<in> set (split_char (CHR ''/'') path)" for seg
    using that assms(2) by (simp add: parse_path_params_def map_filter_empty)
  ultimately show ?thesis
    using assms(1) by (fastforce simp: clean_path_def clean_segment_def list_all_iff)
qed

text \<open>The literal the generator writes has the URL of the path as its value.\<close>

lemma client_url_value:
  assumes "clean_path path" "\<And>p. p \<in> set (parse_path_params path) \<Longrightarrow> args p \<noteq> None"
  shows "eval_url args (client_url path) = Some (path_url args path)"
proof -
  have regular: "list_all regular_segment (split_char (CHR ''/'') path)"
    using assms(1) clean_regular by (auto simp: clean_path_def list_all_iff)
  show ?thesis
  proof (cases "parse_path_params path = []")
    case True
    have "list_all (\<lambda>c. c \<notin> {CHR 0x22, CHR 0x5C, CHR 0x0A, CHR 0x0D}) path"
      using literal_path_plain [OF assms(1) True] url_char_plain by (fastforce simp: list_all_iff)
    then have "eval_url args (quoted path) = Some path" by (simp add: eval_url_def quoted_def)
    moreover have "map (\<lambda>seg. case segment_param seg of Some p \<Rightarrow> the (args p) | None \<Rightarrow> seg)
        (split_char (CHR ''/'') path) = split_char (CHR ''/'') path"
      using True by (intro map_idI) (simp add: parse_path_params_def map_filter_empty)
    then have "path_url args path = path" by (simp add: path_url_def)
    ultimately show ?thesis using True by (simp add: client_url_regular [OF regular])
  next
    case False
    have "eval_template args (join ''/'' (map segment_text (split_char (CHR ''/'') path))) = Some (path_url args path)"
      unfolding path_url_def
      using assms set_path_params by (intro eval_segments) (auto simp: clean_path_def)
    with False show ?thesis
      by (simp add: client_url_regular [OF regular] eval_url_def)
  qed
qed

text \<open>And the path takes that URL, each parameter with its own argument.\<close>

lemma path_url_taken:
  assumes "clean_path path"
    and "\<And>p. p \<in> set (parse_path_params path) \<Longrightarrow> \<exists>a. args p = Some a \<and> encoded a"
  shows "takes_url path args (path_url args path)"
proof -
  let ?segs = "split_char (CHR ''/'') path"
  let ?useg = "\<lambda>seg. case segment_param seg of Some p \<Rightarrow> the (args p) | None \<Rightarrow> seg"
  have arg: "\<exists>a. args p = Some a \<and> encoded a" if "seg \<in> set ?segs" "segment_param seg = Some p" for seg p
    using that assms(2) [of p] set_path_params [of path] by blast
  have "CHR ''/'' \<notin> set (?useg seg)" if "seg \<in> set ?segs" for seg
  proof (cases "segment_param seg")
    case None
    with split_char_no [OF that] show ?thesis by simp
  next
    case (Some p)
    with arg [OF that] obtain a where "args p = Some a" "encoded a" by blast
    with Some url_char_plain show ?thesis by (force simp: encoded_def list_all_iff)
  qed
  then have "split_char (CHR ''/'') (path_url args path) = map ?useg ?segs"
    unfolding path_url_def by (intro split_char_join) (auto simp: split_char_not_empty)
  moreover have "list_all2 (\<lambda>seg useg. case segment_param seg of
      Some p \<Rightarrow> args p = Some useg \<and> useg \<noteq> [] | None \<Rightarrow> useg = seg) ?segs (map ?useg ?segs)"
    using arg by (fastforce simp: list_all2_map2 encoded_def list.rel_refl_strong
        split: option.splits intro!: list.rel_refl_strong)
  ultimately show ?thesis by (simp add: takes_url_def)
qed

section \<open>The text of a function\<close>

text \<open>
  What the client has to say for a handler: its name, the parameters, and the request or the link, with
  the query and the body the handler takes.
\<close>

definition takes :: "client_handler \<Rightarrow> arg_kind set \<Rightarrow> bool" where
  "takes h ks \<longleftrightarrow> (\<exists>a \<in> set (ch_args h). ca_kind a \<in> ks)"

definition binding_text ::
    "unicode \<Rightarrow> client_handler \<Rightarrow> (string \<times> string) list \<Rightarrow> string \<Rightarrow> string \<Rightarrow> string" where
  "binding_text u h params verb url =
     (let sg = join '', '' (map (\<lambda>(n, t). n @ '': '' @ t) params); name = camel u (ch_name h);
          request = (\<lambda>ret. ''export function '' @ name @ ''('' @ sg @ ''): Promise<'' @ ret @ ''> {'' @ newline
            @ ''  return call<'' @ ret @ ''>('' @ quoted verb @ '', '' @ url
            @ (if takes h {KQuery} then '', query'' else if takes h {KBody, KMultipart} then '', undefined'' else '''')
            @ (if takes h {KBody, KMultipart} then '', body'' else '''') @ '');'')
      in case ch_response h of
           RLink \<Rightarrow> ''export function '' @ name @ ''Url('' @ sg @ ''): string {'' @ newline
             @ ''  return '' @ url @ '';''
         | RJson t \<Rightarrow> request t
         | _ \<Rightarrow> request ''void'')"

lemma contains_middle: "contains x (a @ x @ b)"
proof (induction a)
  case Nil
  show ?case by (cases "x @ b") (auto simp: starts_with_def dest: arg_cong [where f = "take (length x)"])
qed simp

lemma contains_part:
  assumes "contains x y"
  shows "contains x (a @ y @ b)"
proof -
  have "\<exists>c d. y = c @ x @ d"
    using assms
  proof (induction y)
    case (Cons z y)
    show ?case
    proof (cases "starts_with (z # y) x")
      case True
      then have "z # y = [] @ x @ drop (length x) (z # y)" by (metis append_Nil append_take_drop_id starts_with_def)
      then show ?thesis by blast
    next
      case False
      with Cons obtain c d where "y = c @ x @ d" by auto
      then have "z # y = (z # c) @ x @ d" by simp
      then show ?thesis by blast
    qed
  qed simp
  then obtain c d where "a @ y @ b = (a @ c) @ x @ (d @ b)" by auto
  then show ?thesis using contains_middle by metis
qed

lemma planned_text:
  assumes "(plan u reg h :: ('e, 'j) generate_error + client_fn) = Inr f"
  shows "contains (binding_text u h (fn_params f) (rg_method reg) (client_url (rg_path reg))) (function_text f)"
proof -
  from assms obtain params where f: "f = planned_fn u reg h params" unfolding plan_Inr by blast
  have takes: "takes h ks \<longleftrightarrow> args_of h ks \<noteq> []" for ks
    by (auto simp: takes_def args_of_def filter_empty_conv)
  let ?head = "newline @ ''/** '' @ fn_method f @ '' '' @ fn_path f @ '' '' @ em_dash @ '' '' @ fn_fqname f @ '' */'' @ newline"
  have "function_text f = ?head @ binding_text u h (fn_params f) (rg_method reg) (client_url (rg_path reg))
      @ newline @ ''}'' @ newline"
    by (cases "ch_response h") (simp_all add: f planned_fn_def function_text_def binding_text_def Let_def takes)
  then show ?thesis using contains_middle by metis
qed

lemma plan_takes:
  assumes "(plan u reg h :: ('e, 'j) generate_error + client_fn) = Inr f"
  shows "map fst (fn_params f) = rg_path_params reg
    @ (if takes h {KQuery} then [''query''] else []) @ (if takes h {KBody, KMultipart} then [''body''] else [])"
proof -
  from assms obtain params where f: "f = planned_fn u reg h params" unfolding plan_Inr by blast
  have "takes h ks \<longleftrightarrow> args_of h ks \<noteq> []" for ks
    by (auto simp: takes_def args_of_def filter_empty_conv)
  then have "fn_has_query f = takes h {KQuery}" "fn_has_body f = takes h {KBody, KMultipart}"
    by (simp_all add: f planned_fn_def)
  with plan_params [OF assms] show ?thesis by simp
qed

lemma function_in_client:
  assumes "f \<in> set fns" "contains x (function_text f)"
  shows "contains x (client_text u opts fns)"
proof -
  from assms(1) obtain fs gs where "concat (map function_text fns) = fs @ function_text f @ gs"
    by (auto simp: in_set_conv_decomp)
  then have "\<exists>a b. client_text u opts fns = a @ function_text f @ b"
    unfolding client_text_def by (metis append.assoc append_Nil2)
  with assms(2) contains_part show ?thesis by metis
qed

section \<open>Where the client and the server differ\<close>

text \<open>
  A doubled brace is axum's escape for one: axum serves the path \<open>/{{x}}\<close> as \<open>/{x}\<close>. The client asks for
  the path with the braces doubled. And \<open>encodeURIComponent\<close> leaves dots alone, so an argument of two
  dots gives a URL that a browser resolves to the path above.
\<close>

lemma escaped_braces_asked_doubled:
  "parse_path_params ''/{{x}}'' = [] \<and> eval_url args (client_url ''/{{x}}'') = Some ''/{{x}}''"
proof -
  have "parse_path_params ''/{{x}}'' = []" "client_url ''/{{x}}'' = quoted ''/{{x}}''" by code_simp+
  then show ?thesis by (simp add: eval_url_def quoted_def)
qed

lemma dots_are_not_encoded:
  "eval_url [''id'' \<mapsto> ''..''] (client_url ''/t/{id}'') = Some ''/t/..''"
proof -
  have "clean_path ''/t/{id}''" "path_url [''id'' \<mapsto> ''..''] ''/t/{id}'' = ''/t/..''"
    "parse_path_params ''/t/{id}'' = [''id'']" by code_simp+
  then show ?thesis using client_url_value [of "''/t/{id}''" "[''id'' \<mapsto> ''..'']"] by simp
qed

end
