(* ===== verification/Logging_Filter.thy ===== *)
theory Logging_Filter
  imports Config_Schema
begin

text \<open>
  \<open>designator.rs\<close>, \<open>filter.rs\<close> and \<open>config.rs\<close> of \<open>crates/logging\<close>: what an event is about, which
  designators reach the output and at what level, and the resolved logging configuration. tracing's
  own parsers are parameters: \<open>level_from_str\<close> for \<open>LevelFilter\<close>'s \<open>FromStr\<close>, \<open>env_try\<close> for
  \<open>EnvFilter::try_new\<close>. A \<open>BTreeMap\<close> that is only probed is a map.
\<close>

section \<open>Designators\<close>

datatype designator = Auth | Business | Upstream | Storage | Http | Startup | CustomColumn string

definition CUSTOM_PREFIX :: string where
  "CUSTOM_PREFIX = ''c-''"

definition STAND :: "designator list" where
  "STAND = [Auth, Business, Upstream, Storage, Http, Startup]"

text \<open>strum's \<open>AsRef<str>\<close> is the variant's spelling, its \<open>Display\<close> the whole column of a custom one.\<close>

definition designator_as_ref :: "designator \<Rightarrow> string" where
  "designator_as_ref d =
     (case d of Auth \<Rightarrow> ''auth'' | Business \<Rightarrow> ''business'' | Upstream \<Rightarrow> ''upstream''
      | Storage \<Rightarrow> ''storage'' | Http \<Rightarrow> ''http'' | Startup \<Rightarrow> ''startup'' | CustomColumn _ \<Rightarrow> ''custom'')"

definition designator_str :: "designator \<Rightarrow> string" where
  "designator_str d = (case d of CustomColumn column \<Rightarrow> column | _ \<Rightarrow> designator_as_ref d)"

definition designator_of_name :: "string \<Rightarrow> designator" where
  "designator_of_name name = CustomColumn (CUSTOM_PREFIX @ name)"

definition designator_from_str :: "string \<Rightarrow> designator" where
  "designator_from_str column =
     unwrap_or (CustomColumn column) (find (\<lambda>d. designator_as_ref d = column) STAND)"

definition is_well_formed :: "designator \<Rightarrow> bool" where
  "is_well_formed d = (case d of CustomColumn column \<Rightarrow> starts_with column CUSTOM_PREFIX | _ \<Rightarrow> True)"

section \<open>Levels\<close>

text \<open>tracing's levels, \<open>OFF\<close> the least: a filter admits a level that is at most its own.\<close>

datatype level = ERROR | WARN | INFO | DEBUG | TRACE

datatype level_filter = OFF | UpTo level

fun level_rank :: "level \<Rightarrow> nat" where
  "level_rank ERROR = 1"
| "level_rank WARN = 2"
| "level_rank INFO = 3"
| "level_rank DEBUG = 4"
| "level_rank TRACE = 5"

fun filter_rank :: "level_filter \<Rightarrow> nat" where
  "filter_rank OFF = 0"
| "filter_rank (UpTo l) = level_rank l"

lemma level_rank_inj [simp]: "level_rank a = level_rank b \<longleftrightarrow> a = b"
  by (cases a; cases b) auto

lemma level_rank_pos [simp]: "0 < level_rank l" "level_rank l \<noteq> 0"
  by (cases l; simp)+

lemma filter_rank_inj [simp]: "filter_rank a = filter_rank b \<longleftrightarrow> a = b"
  by (cases a; cases b) auto

instantiation level_filter :: linorder
begin

definition less_eq_level_filter :: "level_filter \<Rightarrow> level_filter \<Rightarrow> bool" where
  "less_eq_level_filter a b = (filter_rank a \<le> filter_rank b)"

definition less_level_filter :: "level_filter \<Rightarrow> level_filter \<Rightarrow> bool" where
  "less_level_filter a b = (filter_rank a < filter_rank b)"

instance
  by standard (auto simp: less_eq_level_filter_def less_level_filter_def)

end

lemma UpTo_le_OFF [simp]: "\<not> UpTo l \<le> OFF"
  by (simp add: less_eq_level_filter_def)

section \<open>The filter\<close>

definition LOG_DESIGNATORS_VARIABLE :: string where
  "LOG_DESIGNATORS_VARIABLE = ''LOG_DESIGNATORS''"

definition LEVELS :: "string list" where
  "LEVELS = [''trace'', ''debug'', ''info'', ''warn'', ''error'', ''off'']"

record designators =
  dg_rules :: "string \<Rightarrow> level_filter option"
  dg_default :: "level_filter option"
  dg_unset :: bool

definition permissive :: designators where
  "permissive = \<lparr>dg_rules = Map.empty, dg_default = None, dg_unset = True\<rparr>"

definition parse_level :: "(string \<Rightarrow> level_filter option) \<Rightarrow> string \<Rightarrow> refusal + level_filter" where
  "parse_level level_from_str t =
     ok_or (refusal_new LOG_DESIGNATORS_VARIABLE t (''a level, one of '' @ debug_strs LEVELS))
       (level_from_str t)"

definition check_designator :: "string \<Rightarrow> refusal + unit" where
  "check_designator name =
     (if is_well_formed (designator_from_str name) then Inr ()
      else Inl (refusal_new LOG_DESIGNATORS_VARIABLE name
        (''a designator, one of '' @ debug_strs (map designator_as_ref STAND)
         @ '', or a project designator carrying the '' @ debug_str CUSTOM_PREFIX @ '' prefix'')))"

text \<open>One item of the list, into what has been read so far.\<close>

definition parse_item ::
    "(string \<Rightarrow> level_filter option) \<Rightarrow> string \<Rightarrow> designators \<Rightarrow> refusal + designators" where
  "parse_item lfs item out =
     (case split_once (CHR ''='') item of
        None \<Rightarrow> map_ok (\<lambda>level. out\<lparr>dg_default := Some level\<rparr>) (parse_level lfs item)
      | Some (name, level) \<Rightarrow>
          (let name = trim name in
           and_then (check_designator name) (\<lambda>_.
             map_ok (\<lambda>l. out\<lparr>dg_rules := (dg_rules out)(name \<mapsto> l)\<rparr>) (parse_level lfs (trim level)))))"

fun parse_items ::
    "(string \<Rightarrow> level_filter option) \<Rightarrow> string list \<Rightarrow> designators \<Rightarrow> refusal + designators" where
  "parse_items lfs [] out = Inr out"
| "parse_items lfs (item # items) out = and_then (parse_item lfs item out) (parse_items lfs items)"

definition items_of :: "string \<Rightarrow> string list" where
  "items_of t = filter (\<lambda>i. i \<noteq> []) (map trim (split_char (CHR '','') t))"

definition no_designators :: designators where
  "no_designators = \<lparr>dg_rules = Map.empty, dg_default = None, dg_unset = False\<rparr>"

lemma no_designators_sel:
  "dg_rules no_designators = Map.empty" "dg_default no_designators = None" "\<not> dg_unset no_designators"
  by (simp_all add: no_designators_def)

definition designators_parse ::
    "(string \<Rightarrow> level_filter option) \<Rightarrow> string option \<Rightarrow> refusal + designators" where
  "designators_parse lfs val =
     (case map_option trim val of
        None \<Rightarrow> Inr permissive
      | Some t \<Rightarrow> if t = [] then Inr permissive else parse_items lfs (items_of t) no_designators)"

definition admits :: "designators \<Rightarrow> string option \<Rightarrow> level \<Rightarrow> bool" where
  "admits f d l =
     (if dg_unset f then True
      else (case d of
              None \<Rightarrow> True
            | Some d \<Rightarrow>
                (case (case dg_rules f d of Some a \<Rightarrow> Some a | None \<Rightarrow> dg_default f) of
                   Some allowed \<Rightarrow> UpTo l \<le> allowed
                 | None \<Rightarrow> False)))"

section \<open>Reading the designator of an event\<close>

text \<open>
  A field's value as tracing hands it to a visitor: a string, another value by its \<open>Debug\<close> text, or
  a number or boolean with the text its \<open>to_string\<close> and its \<open>Debug\<close> give.
\<close>

datatype field_value = VStr string | VDebug string | VScalar string string

type_synonym event_fields = "(string \<times> field_value) list"

definition FIELD :: string where
  "FIELD = ''designator''"

definition trim_quotes :: "string \<Rightarrow> string" where
  "trim_quotes s = trim_end_char (CHR 0x22) (trim_start_char (CHR 0x22) s)"

text \<open>The visitor \<open>Read\<close>; a visitor without a method for a scalar gets its \<open>Debug\<close> text.\<close>

definition read_field :: "string \<times> field_value \<Rightarrow> string option \<Rightarrow> string option" where
  "read_field nv found =
     (case nv of (name, v) \<Rightarrow>
        if name \<noteq> FIELD then found
        else (case v of
                VStr s \<Rightarrow> Some s
              | VDebug s \<Rightarrow> (if found = None then Some (trim_quotes s) else found)
              | VScalar _ s \<Rightarrow> (if found = None then Some (trim_quotes s) else found)))"

definition event_designator :: "event_fields \<Rightarrow> string option" where
  "event_designator fs = fold read_field fs None"

definition designators_event_enabled :: "designators \<Rightarrow> level \<Rightarrow> event_fields \<Rightarrow> bool" where
  "designators_event_enabled f l fs = (if dg_unset f then True else admits f (event_designator fs) l)"

section \<open>The logging configuration\<close>

definition RUST_LOG_VARIABLE :: string where
  "RUST_LOG_VARIABLE = ''RUST_LOG''"

definition LOG_FORMAT_VARIABLE :: string where
  "LOG_FORMAT_VARIABLE = ''LOG_FORMAT''"

definition DEFAULT_FILTER :: string where
  "DEFAULT_FILTER = ''info''"

definition LOG_FORMAT_ACCEPTED :: string where
  "LOG_FORMAT_ACCEPTED = ''one of '' @ debug_strs [''human'', ''json''] @ '' (unset means json)''"

definition RUST_LOG_ACCEPTED :: string where
  "RUST_LOG_ACCEPTED =
     ''comma-separated tracing directives such as '' @ debug_str ''info'' @ '', ''
     @ debug_str ''my_crate=debug'' @ '' or '' @ debug_str ''my_crate::module=trace,sqlx=warn''
     @ '' (unset means '' @ debug_str ''info'' @ '' under DEPLOYMENT_TYPE=prod, ''
     @ debug_str ''debug'' @ '' under dev)''"

datatype log_format = Human | JsonLines

definition format_from_str :: "string \<Rightarrow> log_format option" where
  "format_from_str s =
     (if s = ''human'' then Some Human else if s = ''json'' then Some JsonLines else None)"

definition format_parse :: "string option \<Rightarrow> refusal + log_format" where
  "format_parse val =
     (case val of
        None \<Rightarrow> Inr JsonLines
      | Some t \<Rightarrow> ok_or (refusal_new LOG_FORMAT_VARIABLE t LOG_FORMAT_ACCEPTED) (format_from_str t))"

record log_section =
  lg_format :: log_format
  lg_designators :: "string option"

definition log_parse :: "string option \<Rightarrow> string option \<Rightarrow> refusal + log_section" where
  "log_parse fmt ds =
     map_ok (\<lambda>f. \<lparr>lg_format = f, lg_designators = ds\<rparr>) (format_parse fmt)"

definition log_from_env :: "(string \<Rightarrow> string option) \<Rightarrow> refusal + log_section" where
  "log_from_env env = log_parse (env LOG_FORMAT_VARIABLE) (env LOG_DESIGNATORS_VARIABLE)"

record log_config =
  lc_format :: log_format
  lc_deployment :: deployment
  lc_filter :: string
  lc_designators :: designators

text \<open>The third-party parsers.\<close>

record 'f log_parsers =
  lp_level :: "string \<Rightarrow> level_filter option"
  lp_env :: "string \<Rightarrow> string + 'f"

definition env_filter :: "'f log_parsers \<Rightarrow> log_config \<Rightarrow> refusal + 'f" where
  "env_filter lp cfg =
     map_err (\<lambda>e. with_detail (refusal_new RUST_LOG_VARIABLE (lc_filter cfg) RUST_LOG_ACCEPTED) e)
       (lp_env lp (lc_filter cfg))"

definition assemble ::
    "'f log_parsers \<Rightarrow> log_format \<Rightarrow> deployment \<Rightarrow> string option \<Rightarrow> string option
     \<Rightarrow> refusal + log_config" where
  "assemble lp fmt dep rust_log log_designators =
     (let flt = (let d = (case dep of Prod \<Rightarrow> ''info'' | Dev \<Rightarrow> ''debug'')
                 in case rust_log of Some s \<Rightarrow> if s \<noteq> [] then s else d | None \<Rightarrow> d)
      in and_then (designators_parse (lp_level lp) log_designators) (\<lambda>ds.
           let resolved = \<lparr>lc_format = fmt, lc_deployment = dep, lc_filter = flt, lc_designators = ds\<rparr>
           in and_then (env_filter lp resolved) (\<lambda>_. Inr resolved)))"

definition log_resolve ::
    "'f log_parsers \<Rightarrow> string option \<Rightarrow> string option \<Rightarrow> string option \<Rightarrow> string option
     \<Rightarrow> refusal + log_config" where
  "log_resolve lp fmt dep rust_log log_designators =
     and_then (format_parse fmt) (\<lambda>f.
     and_then (deployment_parse dep) (\<lambda>d. assemble lp f d rust_log log_designators))"

definition log_config_from_log ::
    "'f log_parsers \<Rightarrow> log_section \<Rightarrow> deployment \<Rightarrow> string option \<Rightarrow> refusal + log_config" where
  "log_config_from_log lp lg dep rust_log =
     assemble lp (lg_format lg) dep rust_log (lg_designators lg)"

definition log_config_from_env :: "'f log_parsers \<Rightarrow> (string \<Rightarrow> string option) \<Rightarrow> refusal + log_config" where
  "log_config_from_env lp env =
     log_resolve lp (env LOG_FORMAT_VARIABLE) (env DEPLOYMENT_VARIABLE) (env RUST_LOG_VARIABLE)
       (env LOG_DESIGNATORS_VARIABLE)"

definition log_config_default :: log_config where
  "log_config_default =
     \<lparr>lc_format = JsonLines, lc_deployment = Dev, lc_filter = DEFAULT_FILTER, lc_designators = permissive\<rparr>"

section \<open>Facts\<close>

text \<open>An item as a name (none for a bare level) and a level's text.\<close>

definition entry_of :: "string \<Rightarrow> string option \<times> string" where
  "entry_of item =
     (case split_once (CHR ''='') item of
        None \<Rightarrow> (None, item)
      | Some (name, level) \<Rightarrow> (Some (trim name), trim level))"

definition entries_of :: "string \<Rightarrow> (string option \<times> string) list" where
  "entries_of t = map entry_of (items_of (trim t))"

definition entry_ok :: "(string \<Rightarrow> level_filter option) \<Rightarrow> string option \<times> string \<Rightarrow> bool" where
  "entry_ok lfs e =
     (case e of (n, lv) \<Rightarrow>
        (case n of Some d \<Rightarrow> is_well_formed (designator_from_str d) | None \<Rightarrow> True) \<and> lfs lv \<noteq> None)"

lemma parse_item_ok:
  "parse_item lfs item out =
     (if entry_ok lfs (entry_of item)
      then Inr (case entry_of item of
                  (None, lv) \<Rightarrow> out\<lparr>dg_default := lfs lv\<rparr>
                | (Some d, lv) \<Rightarrow> out\<lparr>dg_rules := (dg_rules out)(d := lfs lv)\<rparr>)
      else parse_item lfs item out)"
  by (auto simp: parse_item_def entry_of_def entry_ok_def parse_level_def check_designator_def Let_def
      split: option.splits prod.splits)

lemma parse_item_refused:
  "\<not> entry_ok lfs (entry_of item) \<Longrightarrow> \<exists>r. parse_item lfs item out = Inl r \<and> r_variable r = LOG_DESIGNATORS_VARIABLE"
  by (auto simp: parse_item_def entry_of_def entry_ok_def parse_level_def check_designator_def Let_def
      split: option.splits prod.splits if_splits)

text \<open>The last rule of a name stands, and the last bare level.\<close>

lemma parse_items_spec:
  "case parse_items lfs items out of
     Inl r \<Rightarrow> r_variable r = LOG_DESIGNATORS_VARIABLE \<and> \<not> list_all (entry_ok lfs) (map entry_of items)
   | Inr f \<Rightarrow> list_all (entry_ok lfs) (map entry_of items)
       \<and> dg_rules f = (\<lambda>d. case map_of (rev (map entry_of items)) (Some d) of
            Some lv \<Rightarrow> lfs lv | None \<Rightarrow> dg_rules out d)
       \<and> dg_default f = (case map_of (rev (map entry_of items)) None of
            Some lv \<Rightarrow> lfs lv | None \<Rightarrow> dg_default out)
       \<and> dg_unset f = dg_unset out"
proof (induction items arbitrary: out)
  case (Cons item items)
  show ?case
  proof (cases "entry_ok lfs (entry_of item)")
    case False
    with parse_item_refused [OF False, of out] show ?thesis by auto
  next
    case True
    obtain n lv where e: "entry_of item = (n, lv)" by fastforce
    show ?thesis
    proof (cases n)
      case None
      with True e have "parse_item lfs item out = Inr (out\<lparr>dg_default := lfs lv\<rparr>)"
        by (subst parse_item_ok) simp
      with Cons.IH [of "out\<lparr>dg_default := lfs lv\<rparr>"] True e None show ?thesis
        by (auto simp: map_add_def fun_eq_iff split: sum.splits option.splits)
    next
      case (Some d)
      with True e have "parse_item lfs item out = Inr (out\<lparr>dg_rules := (dg_rules out)(d := lfs lv)\<rparr>)"
        by (subst parse_item_ok) simp
      with Cons.IH [of "out\<lparr>dg_rules := (dg_rules out)(d := lfs lv)\<rparr>"] True e Some show ?thesis
        by (auto simp: map_add_def fun_eq_iff split: sum.splits option.splits)
    qed
  qed
qed simp

section \<open>Properties\<close>

text \<open>C26: What \<open>LOG_DESIGNATORS\<close> means. A non-blank value is accepted exactly when every comma-separated
  item is a level or names a well-formed designator and a level; it is refused under its own name
  otherwise. An accepted value admits an event of a designator up to the level of the last item
  naming it, or of the last bare level when none does, and not at all when there is neither; an
  event without a designator is always admitted.\<close>

theorem designator_filter_meaning:
  assumes "trim t \<noteq> []"
  shows "case designators_parse lfs (Some t) of
      Inl r \<Rightarrow> r_variable r = ''LOG_DESIGNATORS'' \<and> \<not> list_all (entry_ok lfs) (entries_of t)
    | Inr f \<Rightarrow> list_all (entry_ok lfs) (entries_of t) \<and> admits f None l
        \<and> admits f (Some d) l =
            (case map_of (rev (entries_of t)) (Some d) of
               Some lv \<Rightarrow> UpTo l \<le> the (lfs lv)
             | None \<Rightarrow> (case map_of (rev (entries_of t)) None of
                          Some lv \<Rightarrow> UpTo l \<le> the (lfs lv) | None \<Rightarrow> False))"
proof -
  have parse: "designators_parse lfs (Some t) = parse_items lfs (items_of (trim t)) no_designators"
    using assms by (simp add: designators_parse_def)
  have known: "lfs lv \<noteq> None" if "list_all (entry_ok lfs) (entries_of t)" "map_of (rev (entries_of t)) n = Some lv"
    for n lv
    using that map_of_SomeD [OF that(2)] by (auto simp: list_all_iff entry_ok_def)
  note spec = parse_items_spec [of lfs "items_of (trim t)" no_designators, folded entries_of_def]
  show ?thesis
  proof (cases "parse_items lfs (items_of (trim t)) no_designators")
    case (Inl r)
    with spec show ?thesis by (simp add: parse LOG_DESIGNATORS_VARIABLE_def)
  next
    case (Inr f)
    with spec have f: "list_all (entry_ok lfs) (entries_of t)" "\<not> dg_unset f"
      "dg_rules f d = (case map_of (rev (entries_of t)) (Some d) of Some lv \<Rightarrow> lfs lv | None \<Rightarrow> None)"
      "dg_default f = (case map_of (rev (entries_of t)) None of Some lv \<Rightarrow> lfs lv | None \<Rightarrow> None)"
      by (simp_all add: no_designators_sel split: option.splits)
    from known [OF f(1), of "Some d"] known [OF f(1), of None] f Inr show ?thesis
      by (cases "map_of (rev (entries_of t)) (Some d)"; cases "map_of (rev (entries_of t)) None")
        (auto simp: parse admits_def)
  qed
qed

definition toy_levels :: "string \<Rightarrow> level_filter option" where
  "toy_levels s = map_of [(''debug'', UpTo DEBUG), (''info'', UpTo INFO), (''off'', OFF)] s"

theorem designator_filter_meaning_witness:
  "case designators_parse toy_levels (Some ''info,auth=debug'') of
     Inl r \<Rightarrow> False
   | Inr f \<Rightarrow> admits f (Some ''auth'') DEBUG \<and> \<not> admits f (Some ''storage'') DEBUG"
proof -
  have trimmed: "trim ''info,auth=debug'' = ''info,auth=debug''" "trim ''auth=debug'' = ''auth=debug''"
    by (rule trim_visible, simp add: visible_def)+
  then have "trim ''info,auth=debug'' \<noteq> []" by simp
  note m = designator_filter_meaning [OF this, of toy_levels]
  have e: "entries_of ''info,auth=debug'' = [(None, ''info''), (Some ''auth'', ''debug'')]"
    by (simp add: entries_of_def items_of_def entry_of_def trim_word word_char_def is_ascii_alnum_def
        trimmed)
  moreover have "is_well_formed (designator_from_str ''auth'')" by code_simp
  ultimately have "list_all (entry_ok toy_levels) (entries_of ''info,auth=debug'')"
    by (simp add: entry_ok_def toy_levels_def)
  with m [of DEBUG "''auth''"] m [of DEBUG "''storage''"] show ?thesis
    by (auto simp: e toy_levels_def less_eq_level_filter_def split: sum.splits)
qed

text \<open>A value whose items are all blank is not unset: it silences every designated event.\<close>

lemma blank_items_silence:
  "designators_parse lfs (Some '','') = Inr no_designators" "\<not> admits no_designators (Some d) l"
proof -
  have "trim '','' = '',''" by (rule trim_visible) (simp add: visible_def)
  moreover have "items_of '','' = []" by (simp add: items_of_def)
  ultimately show "designators_parse lfs (Some '','') = Inr no_designators"
    by (simp add: designators_parse_def)
  show "\<not> admits no_designators (Some d) l" by (simp add: admits_def no_designators_def)
qed

text \<open>The event the emission macros produce: the designator by its \<open>Display\<close> first, then the
  caller's fields.\<close>

definition designated :: "designator \<Rightarrow> event_fields \<Rightarrow> event_fields" where
  "designated d fs = (FIELD, VDebug (designator_str d)) # fs"

lemma word_not:
  "list_all word_char s \<Longrightarrow> \<not> word_char c \<Longrightarrow> c \<notin> set s"
  by (auto simp: list_all_iff)

lemma trim_quotes_word: "list_all word_char s \<Longrightarrow> trim_quotes s = s"
proof -
  assume "list_all word_char s"
  moreover have "\<not> word_char (CHR 0x22)" by code_simp
  ultimately have "CHR 0x22 \<notin> set s" by (rule word_not)
  then have "dropWhile (\<lambda>x. x = CHR 0x22) s = s" "dropWhile (\<lambda>x. x = CHR 0x22) (rev s) = rev s"
    by (auto simp: dropWhile_eq_self_iff hd_in_set) (metis hd_in_set set_rev rev_is_Nil_conv)+
  then show ?thesis by (simp add: trim_quotes_def trim_start_char_def trim_end_char_def)
qed

lemma event_designator_designated:
  assumes "list_all word_char (designator_str d)" "FIELD \<notin> fst ` set fs"
  shows "event_designator (designated d fs) = Some (designator_str d)"
proof -
  have "fold read_field fs (Some x) = Some x" for x
    using assms(2) by (induction fs) (auto simp: read_field_def split: prod.splits)
  then show ?thesis
    using assms(1) by (simp add: event_designator_def designated_def read_field_def trim_quotes_word)
qed

lemma designator_from_str_str:
  assumes "is_well_formed d"
  shows "designator_from_str (designator_str d) = d"
proof (cases "d \<in> set STAND")
  case True
  have "\<forall>d \<in> set STAND. designator_from_str (designator_str d) = d" by code_simp
  with True show ?thesis by blast
next
  case False
  then obtain c where d: "d = CustomColumn c" by (cases d) (auto simp: STAND_def)
  with assms have "take 2 c = ''c-''"
    by (simp add: is_well_formed_def starts_with_def CUSTOM_PREFIX_def numeral_2_eq_2)
  then have "c = ''c-'' @ drop 2 c" by (metis append_take_drop_id)
  then obtain r where "c = ''c-'' @ r" by blast
  moreover have "\<forall>d \<in> set STAND. hd (tl (designator_as_ref d)) \<noteq> CHR ''-''" by code_simp
  ultimately have "find (\<lambda>d. designator_as_ref d = c) STAND = None" by (auto simp: find_None_iff)
  with d show ?thesis by (simp add: designator_from_str_def designator_str_def)
qed

lemma entries_single:
  assumes "list_all word_char col" "list_all word_char lv"
  shows "entries_of (col @ CHR ''='' # lv) = [(Some col, lv)]" "trim (col @ CHR ''='' # lv) \<noteq> []"
proof -
  let ?t = "col @ CHR ''='' # lv"
  have "\<forall>w \<in> set white_space. CHR ''='' \<notin> set w" by code_simp
  with assms white_space_not_word have t: "trim ?t = ?t"
    by (intro trim_id) (auto simp: list_all_iff)
  then show "trim ?t \<noteq> []" by simp
  have "\<not> word_char (CHR '','')" "\<not> word_char (CHR ''='')" by code_simp+
  then have no: "CHR '','' \<notin> set ?t" "CHR ''='' \<notin> set col"
    using assms word_not by auto
  have "trim col = col" "trim lv = lv" using assms by (auto simp: list_all_iff trim_word)
  then show "entries_of ?t = [(Some col, lv)]"
    unfolding entries_of_def items_of_def t split_char_none [OF no(1)]
    by (simp add: t entry_of_def split_once_append [OF no(2)])
qed

text \<open>What the macros write is what the filter reads. For a well-formed designator whose column is
  made of letters, digits, \<open>-\<close> and \<open>_\<close>: its column parses back to it, \<open>LOG_DESIGNATORS\<close> takes
  \<open>column=level\<close>, and under that value an event of a designator is let through exactly when it is
  that designator and the event's level is at most the one given.\<close>

theorem designator_round_trip:
  assumes "is_well_formed d" "list_all word_char (designator_str d)"
    and "list_all word_char lv" "lfs lv = Some a"
    and "is_well_formed e" "list_all word_char (designator_str e)" "FIELD \<notin> fst ` set fs"
  shows "designator_from_str (designator_str d) = d
    \<and> (case designators_parse lfs (Some (designator_str d @ ''='' @ lv)) of
       Inl r \<Rightarrow> False
     | Inr f \<Rightarrow> designators_event_enabled f l (designated e fs) = (e = d \<and> UpTo l \<le> a))"
proof -
  have same: "designator_from_str (designator_str d) = d" by (rule designator_from_str_str [OF assms(1)])
  let ?t = "designator_str d @ CHR ''='' # lv"
  note es = entries_single [OF assms(2,3)]
  have "list_all (entry_ok lfs) (entries_of ?t)"
    using assms(1,4) same by (simp add: es entry_ok_def)
  moreover have "designator_str e = designator_str d \<longleftrightarrow> e = d"
    using designator_from_str_str [OF assms(5)] same by metis
  ultimately have "case designators_parse lfs (Some ?t) of
       Inl r \<Rightarrow> False
     | Inr f \<Rightarrow> designators_event_enabled f l (designated e fs) = (e = d \<and> UpTo l \<le> a)"
    using parse_items_spec [of lfs "items_of (trim ?t)" no_designators, folded entries_of_def] es assms(4)
      event_designator_designated [OF assms(6,7)]
    by (auto simp: designators_parse_def designators_event_enabled_def admits_def no_designators_sel
        split: sum.splits)
  with same show ?thesis by simp
qed

theorem designator_round_trip_witness:
  "designator_from_str ''c-poller'' = CustomColumn ''c-poller''
   \<and> (case designators_parse toy_levels (Some ''c-poller=debug'') of
        Inl r \<Rightarrow> False
      | Inr f \<Rightarrow> \<not> designators_event_enabled f TRACE (designated (CustomColumn ''c-poller'') []))"
proof -
  let ?d = "CustomColumn ''c-poller''"
  have "is_well_formed ?d" "list_all word_char (designator_str ?d)" "list_all word_char ''debug''" by code_simp+
  moreover have "toy_levels ''debug'' = Some (UpTo DEBUG)" by (simp add: toy_levels_def)
  ultimately show ?thesis
    using designator_round_trip [of ?d "''debug''" toy_levels "UpTo DEBUG" ?d "[]" TRACE]
    by (auto simp: designator_str_def less_eq_level_filter_def split: sum.splits)
qed

end
