(* ===== verification/Logging_Output.thy ===== *)
theory Logging_Output
  imports Logging_Filter Config_Load "HOL-Library.Word"
begin

text \<open>
  \<open>macros.rs\<close>, \<open>span.rs\<close>, \<open>format.rs\<close>, \<open>refuse.rs\<close> and \<open>lib.rs\<close> of \<open>crates/logging\<close>: the event a
  macro emits, the request span, the human line, the refusal line and the boot sequence. A span is
  the two extensions \<open>CaptureLayer\<close> keeps; a scope lists the spans around an event, the innermost
  first. The JSON line is tracing-subscriber's own and is not modelled; which events reach it is.
\<close>

section \<open>The emission macros\<close>

definition MESSAGE :: string where
  "MESSAGE = ''message''"

record log_event =
  le_level :: level
  le_fields :: event_fields

text \<open>What stands before the bar: a designator, or anything that becomes a string.\<close>

datatype designator_arg = DesignatorArg designator | NameArg string

definition into_designator :: "designator_arg \<Rightarrow> designator" where
  "into_designator a = (case a of DesignatorArg d \<Rightarrow> d | NameArg s \<Rightarrow> designator_of_name s)"

text \<open>\<open>__designated!\<close>: tracing puts the message before the fields.\<close>

definition designated_event ::
    "level \<Rightarrow> designator_arg \<Rightarrow> event_fields \<Rightarrow> string \<Rightarrow> log_event" where
  "designated_event l d fs msg =
     \<lparr>le_level = l,
      le_fields = (MESSAGE, VDebug msg) # designated (into_designator d) fs\<rparr>"

definition custom_value :: "string \<Rightarrow> designator" where
  "custom_value name = designator_of_name name"

definition first_argument_form ::
    "level \<Rightarrow> designator_arg \<Rightarrow> event_fields \<Rightarrow> string \<Rightarrow> log_event" where
  "first_argument_form = designated_event"

text \<open>\<open>level_module!\<close>: the macros of one level, by name; \<open>custom!\<close> takes its own designator.\<close>

definition module_designator :: "string \<Rightarrow> designator_arg \<Rightarrow> designator_arg option" where
  "module_designator name tag =
     (if name = ''custom'' then Some tag
      else map_of [(''auth'', DesignatorArg Auth), (''business'', DesignatorArg Business),
         (''upstream'', DesignatorArg Upstream), (''storage'', DesignatorArg Storage),
         (''http'', DesignatorArg Http), (''startup'', DesignatorArg Startup)] name)"

text \<open>The level primitives: a designator before the bar, or the deprecated comma form.\<close>

datatype call_form = Barred | FirstArgument

definition level_primitive ::
    "level \<Rightarrow> call_form \<Rightarrow> designator_arg \<Rightarrow> event_fields \<Rightarrow> string \<Rightarrow> log_event" where
  "level_primitive l form d fs msg =
     (case form of Barred \<Rightarrow> designated_event l d fs msg | FirstArgument \<Rightarrow> first_argument_form l d fs msg)"

definition error_macro :: "call_form \<Rightarrow> designator_arg \<Rightarrow> event_fields \<Rightarrow> string \<Rightarrow> log_event" where
  "error_macro = level_primitive ERROR"

definition warn_macro :: "call_form \<Rightarrow> designator_arg \<Rightarrow> event_fields \<Rightarrow> string \<Rightarrow> log_event" where
  "warn_macro = level_primitive WARN"

definition info_macro :: "call_form \<Rightarrow> designator_arg \<Rightarrow> event_fields \<Rightarrow> string \<Rightarrow> log_event" where
  "info_macro = level_primitive INFO"

definition debug_macro :: "call_form \<Rightarrow> designator_arg \<Rightarrow> event_fields \<Rightarrow> string \<Rightarrow> log_event" where
  "debug_macro = level_primitive DEBUG"

definition trace_macro :: "call_form \<Rightarrow> designator_arg \<Rightarrow> event_fields \<Rightarrow> string \<Rightarrow> log_event" where
  "trace_macro = level_primitive TRACE"

text \<open>The five level modules: a macro by its name, expanding to its level's primitive.\<close>

definition level_module ::
    "(call_form \<Rightarrow> designator_arg \<Rightarrow> event_fields \<Rightarrow> string \<Rightarrow> log_event)
     \<Rightarrow> string \<Rightarrow> designator_arg \<Rightarrow> event_fields \<Rightarrow> string \<Rightarrow> log_event option" where
  "level_module primitive name tag fs msg =
     map_option (\<lambda>d. primitive Barred d fs msg) (module_designator name tag)"

definition error_module ::
    "string \<Rightarrow> designator_arg \<Rightarrow> event_fields \<Rightarrow> string \<Rightarrow> log_event option" where
  "error_module = level_module error_macro"

definition warn_module ::
    "string \<Rightarrow> designator_arg \<Rightarrow> event_fields \<Rightarrow> string \<Rightarrow> log_event option" where
  "warn_module = level_module warn_macro"

definition info_module ::
    "string \<Rightarrow> designator_arg \<Rightarrow> event_fields \<Rightarrow> string \<Rightarrow> log_event option" where
  "info_module = level_module info_macro"

definition debug_module ::
    "string \<Rightarrow> designator_arg \<Rightarrow> event_fields \<Rightarrow> string \<Rightarrow> log_event option" where
  "debug_module = level_module debug_macro"

definition trace_module ::
    "string \<Rightarrow> designator_arg \<Rightarrow> event_fields \<Rightarrow> string \<Rightarrow> log_event option" where
  "trace_module = level_module trace_macro"

section \<open>Request spans\<close>

datatype fixed_field = ReqId | Actor

definition fixed_field_str :: "fixed_field \<Rightarrow> string" where
  "fixed_field_str f = (case f of ReqId \<Rightarrow> ''reqid'' | Actor \<Rightarrow> ''actor'')"

definition fixed_field_from_str :: "string \<Rightarrow> fixed_field option" where
  "fixed_field_from_str s =
     (if s = ''reqid'' then Some ReqId else if s = ''actor'' then Some Actor else None)"

text \<open>\<open>{:0w$x}\<close> of a number.\<close>

definition hex_padded :: "nat \<Rightarrow> nat \<Rightarrow> string" where
  "hex_padded w n = replicate (w - length (show_hex n)) (CHR ''0'') @ show_hex n"

text \<open>The clock as \<open>u64\<close> nanoseconds (zero before the epoch), the counter a wrapping \<open>u64\<close>.\<close>

definition gen_reqid :: "64 word \<Rightarrow> 64 word \<Rightarrow> string \<times> 64 word" where
  "gen_reqid nanos counter =
     (hex_padded 8 (unat (ucast nanos :: 32 word))
      @ hex_padded 4 (unat (ucast (and counter 0xffff) :: 32 word)),
      counter + 1)"

record req_ctx =
  rq_reqid :: "string option"
  rq_actor :: "string option"

definition req_set :: "fixed_field \<Rightarrow> string \<Rightarrow> req_ctx \<Rightarrow> req_ctx" where
  "req_set f v rc = (case f of ReqId \<Rightarrow> rc\<lparr>rq_reqid := Some v\<rparr> | Actor \<Rightarrow> rc\<lparr>rq_actor := Some v\<rparr>)"

definition debug_text :: "field_value \<Rightarrow> string" where
  "debug_text v = (case v of VStr s \<Rightarrow> debug_str s | VDebug s \<Rightarrow> s | VScalar _ s \<Rightarrow> s)"

definition req_visit :: "string \<times> field_value \<Rightarrow> req_ctx \<Rightarrow> req_ctx" where
  "req_visit nv rc =
     (case fixed_field_from_str (fst nv) of
        None \<Rightarrow> rc
      | Some f \<Rightarrow>
          (case snd nv of
             VStr s \<Rightarrow> req_set f s rc
           | v \<Rightarrow> (let s = debug_text v in
                  req_set f (unwrap_or s (Option.bind (strip_prefix [CHR 0x22] s) (strip_suffix [CHR 0x22]))) rc)))"

type_synonym span_fields = "(string \<times> string) list"

fun fields_put :: "string \<Rightarrow> string \<Rightarrow> span_fields \<Rightarrow> span_fields" where
  "fields_put name v [] = [(name, v)]"
| "fields_put name v ((n, w) # fs) = (if n = name then (n, v) # fs else (n, w) # fields_put name v fs)"

text \<open>A value as the human line prints it.\<close>

definition shown_value :: "field_value \<Rightarrow> string" where
  "shown_value v = (case v of VStr s \<Rightarrow> debug_str s | VScalar disp _ \<Rightarrow> disp | VDebug s \<Rightarrow> s)"

definition all_visit :: "string \<times> field_value \<Rightarrow> span_fields \<Rightarrow> span_fields" where
  "all_visit nv sf = fields_put (fst nv) (shown_value (snd nv)) sf"

record log_span =
  sp_req :: "req_ctx option"
  sp_fields :: "span_fields option"

definition on_new_span :: "event_fields \<Rightarrow> log_span" where
  "on_new_span attrs =
     \<lparr>sp_req = Some (fold req_visit attrs \<lparr>rq_reqid = None, rq_actor = None\<rparr>),
      sp_fields = Some (fold all_visit attrs [])\<rparr>"

definition on_record :: "event_fields \<Rightarrow> log_span \<Rightarrow> log_span" where
  "on_record vals sp =
     \<lparr>sp_req = map_option (fold req_visit vals) (sp_req sp),
      sp_fields = map_option (fold all_visit vals) (sp_fields sp)\<rparr>"

text \<open>\<open>request_span!\<close> declares \<open>actor\<close> without a value.\<close>

definition request_span :: "string \<Rightarrow> log_span" where
  "request_span reqid = on_new_span [(fixed_field_str ReqId, VStr reqid)]"

definition set_actor :: "string \<Rightarrow> log_span \<Rightarrow> log_span" where
  "set_actor a sp = on_record [(fixed_field_str Actor, VStr a)] sp"

section \<open>The human line\<close>

record rendered =
  re_designator :: "string option"
  re_message :: "string option"
  re_fields :: span_fields

definition rendered_put :: "string \<Rightarrow> string \<Rightarrow> rendered \<Rightarrow> rendered" where
  "rendered_put name v r =
     (if name = MESSAGE then r\<lparr>re_message := Some v\<rparr>
      else if name = FIELD then r\<lparr>re_designator := Some v\<rparr>
      else r\<lparr>re_fields := re_fields r @ [(name, v)]\<rparr>)"

definition rendered_visit :: "string \<times> field_value \<Rightarrow> rendered \<Rightarrow> rendered" where
  "rendered_visit nv r =
     (case nv of (name, v) \<Rightarrow>
        rendered_put name
          (if name = MESSAGE \<or> name = FIELD
           then (case v of VStr s \<Rightarrow> s | VScalar disp _ \<Rightarrow> disp | VDebug s \<Rightarrow> trim_quotes s)
           else shown_value v) r)"

definition render_fields :: "event_fields \<Rightarrow> rendered" where
  "render_fields fs = fold rendered_visit fs \<lparr>re_designator = None, re_message = None, re_fields = []\<rparr>"

fun lookup_ctx :: "log_span list \<Rightarrow> string option \<Rightarrow> string option \<Rightarrow> string option \<times> string option" where
  "lookup_ctx [] reqid actor = (reqid, actor)"
| "lookup_ctx (sp # scope) reqid actor =
     (case sp_req sp of
        None \<Rightarrow> lookup_ctx scope reqid actor
      | Some rc \<Rightarrow>
          lookup_ctx scope (if reqid = None then rq_reqid rc else reqid)
            (if actor = None then rq_actor rc else actor))"

text \<open>The loop over one span's fields, and over the scope: \<open>seen\<close> and \<open>retained\<close>.\<close>

fun retain_fields :: "span_fields \<Rightarrow> string list \<times> span_fields \<Rightarrow> string list \<times> span_fields" where
  "retain_fields [] acc = acc"
| "retain_fields ((n, v) # fs) (seen, retained) =
     retain_fields fs (if n \<in> set seen then (seen, retained) else (seen @ [n], retained @ [(n, v)]))"

definition is_request_span :: "log_span \<Rightarrow> bool" where
  "is_request_span sp = (case sp_req sp of Some rc \<Rightarrow> rq_reqid rc \<noteq> None | None \<Rightarrow> False)"

fun retain_scope :: "log_span list \<Rightarrow> string list \<times> span_fields \<Rightarrow> string list \<times> span_fields" where
  "retain_scope [] acc = acc"
| "retain_scope (sp # scope) acc =
     retain_scope scope
       (if is_request_span sp then acc
        else (case sp_fields sp of Some sf \<Rightarrow> retain_fields sf acc | None \<Rightarrow> acc))"

definition level_str :: "level \<Rightarrow> string" where
  "level_str l =
     (case l of ERROR \<Rightarrow> ''ERROR'' | WARN \<Rightarrow> ''WARN'' | INFO \<Rightarrow> ''INFO'' | DEBUG \<Rightarrow> ''DEBUG''
      | TRACE \<Rightarrow> ''TRACE'')"

definition line_fields :: "event_fields \<Rightarrow> log_span list \<Rightarrow> span_fields" where
  "line_fields fs scope =
     (let r = render_fields fs
      in re_fields r @ rev (snd (retain_scope scope (map fst (re_fields r), []))))"

text \<open>\<open>ts\<close> is the clock's RFC 3339 text, which may fail to format; the file and line are those of
  the callsite's metadata.\<close>

definition human_line ::
    "string option \<Rightarrow> string option \<Rightarrow> nat option \<Rightarrow> log_event \<Rightarrow> log_span list \<Rightarrow> string option" where
  "human_line ts file_name line_no ev scope =
     map_option (\<lambda>t.
       (let (reqid, actor) = lookup_ctx scope None None; r = render_fields (le_fields ev)
        in t @ '' '' @ level_str (le_level ev) @ '' '' @ unwrap_or ''-'' (re_designator r) @ '' ''
           @ unwrap_or ''?'' file_name @ '':'' @ show_nat (unwrap_or 0 line_no) @ '' ''
           @ unwrap_or ''-'' reqid @ '' ['' @ unwrap_or ''-'' actor @ ''] ''
           @ unwrap_or '''' (re_message r)
           @ concat (map (\<lambda>(n, v). '' '' @ n @ ''='' @ v) (line_fields (le_fields ev) scope))
           @ newline)) ts"

section \<open>Subscribers, refusals and boot\<close>

record 'f subscriber =
  su_format :: log_format
  su_env :: 'f
  su_designators :: designators

text \<open>The two filters on the layer are both asked; \<open>env_enabled\<close> is \<open>EnvFilter\<close>'s answer.\<close>

definition event_written :: "('f \<Rightarrow> log_event \<Rightarrow> bool) \<Rightarrow> 'f subscriber \<Rightarrow> log_event \<Rightarrow> bool" where
  "event_written env_enabled s ev \<longleftrightarrow>
     env_enabled (su_env s) ev
     \<and> designators_event_enabled (su_designators s) (le_level ev) (le_fields ev)"

text \<open>\<open>try_init().ok()\<close>: the first global subscriber stays.\<close>

definition install_subscriber ::
    "log_format \<Rightarrow> 'f \<Rightarrow> designators \<Rightarrow> 'f subscriber option \<Rightarrow> 'f subscriber option" where
  "install_subscriber fmt env ds global =
     (case global of
        Some s \<Rightarrow> Some s
      | None \<Rightarrow> Some \<lparr>su_format = fmt, su_env = env, su_designators = ds\<rparr>)"

definition refusal_event :: "refusal \<Rightarrow> log_event" where
  "refusal_event r =
     designated_event ERROR (DesignatorArg Startup)
       [(''variable'', VStr (r_variable r)), (''value'', VDebug (r_value r)),
        (''accepted'', VDebug (r_accepted r)), (''detail'', VStr (unwrap_or ''-'' (r_detail r)))]
       ''refusing to start: invalid configuration''"

text \<open>What reaches standard output, and how the process goes on. \<open>__unfiltered\<close> writes whatever is
  emitted under it, the installed subscriber not being asked.\<close>

datatype boot_output = Printed string | Unfiltered log_event

datatype ('c, 'f) process = Running 'c "'f subscriber option" | Exited nat | Crashed string

definition refuse :: "refusal \<Rightarrow> ('c, 'f) process \<times> boot_output list" where
  "refuse r = (Exited 1, [Unfiltered (refusal_event r)])"

definition init_with ::
    "'f log_parsers \<Rightarrow> log_config \<Rightarrow> 'f subscriber option \<Rightarrow> refusal + 'f subscriber option" where
  "init_with lp cfg global =
     map_ok (\<lambda>env. install_subscriber (lc_format cfg) env (lc_designators cfg) global) (env_filter lp cfg)"

definition log_init ::
    "'f log_parsers \<Rightarrow> (string \<Rightarrow> string option) \<Rightarrow> 'f subscriber option
     \<Rightarrow> (unit, 'f) process \<times> boot_output list" where
  "log_init lp env global =
     (case and_then (log_config_from_env lp env) (\<lambda>cfg. init_with lp cfg global) of
        Inl r \<Rightarrow> refuse r
      | Inr g \<Rightarrow> (Running () g, []))"

text \<open>\<open>common_config::load\<close>: help and printed config end the process.\<close>

definition config_load :: "fault + 'c outcome \<Rightarrow> (('c, 'f) process \<times> boot_output list) + (refusal + 'c)" where
  "config_load loaded =
     (case loaded of
        Inl (Refused r) \<Rightarrow> Inr (Inl r)
      | Inl (Panicked m) \<Rightarrow> Inl (Crashed m, [])
      | Inr (OutConfig c) \<Rightarrow> Inr (Inr c)
      | Inr (OutHelp t) \<Rightarrow> Inl (Exited 0, [Printed t])
      | Inr (OutPrint t) \<Rightarrow> Inl (Exited 0, [Printed t]))"

text \<open>The second half of a boot: the sealed log settings, resolved, then the subscriber.\<close>

definition log_setup ::
    "'f log_parsers \<Rightarrow> deployment \<Rightarrow> (string \<Rightarrow> string option) \<Rightarrow> 'f subscriber option
     \<Rightarrow> refusal + 'f subscriber option" where
  "log_setup lp dep env global =
     and_then (log_from_env env) (\<lambda>lg.
     and_then (log_config_from_log lp lg dep (env RUST_LOG_VARIABLE)) (\<lambda>cfg. init_with lp cfg global))"

definition boot_sealed ::
    "'f log_parsers \<Rightarrow> ('c \<Rightarrow> deployment) \<Rightarrow> fault + 'c outcome \<Rightarrow> (string \<Rightarrow> string option)
     \<Rightarrow> 'f subscriber option \<Rightarrow> ('c, 'f) process \<times> boot_output list" where
  "boot_sealed lp deployment_of loaded env global =
     (case config_load loaded of
        Inl done_early \<Rightarrow> done_early
      | Inr (Inl r) \<Rightarrow> refuse r
      | Inr (Inr c) \<Rightarrow>
          (case log_setup lp (deployment_of c) env global of
             Inl r \<Rightarrow> refuse r
           | Inr g \<Rightarrow> (Running c g, [])))"

section \<open>Facts\<close>

text \<open>Hexadecimal texts: their length and their value.\<close>

definition hex_digit_val :: "char \<Rightarrow> nat" where
  "hex_digit_val c = (let n = of_char c :: nat in if n < 58 then n - 48 else n - 87)"

definition hex_val :: "string \<Rightarrow> nat" where
  "hex_val s = foldl (\<lambda>acc c. acc * 16 + hex_digit_val c) 0 s"

lemma hex_digit_val_digit: "d < 16 \<Longrightarrow> hex_digit_val (hex_digit d) = d"
  by (simp add: hex_digit_val_def hex_digit_def)

lemma hex_val_show: "hex_val (show_hex n) = n"
proof (induction n rule: show_hex.induct)
  case (1 n)
  show ?case
  proof (cases "n < 16")
    case True
    then show ?thesis by (simp add: show_hex.simps hex_val_def hex_digit_val_digit)
  next
    case False
    with 1 have "hex_val (show_hex (n div 16)) = n div 16" by simp
    with False show ?thesis
      by (subst show_hex.simps) (simp add: hex_val_def hex_digit_val_digit)
  qed
qed

lemma hex_val_padded: "hex_val (hex_padded w n) = n"
proof -
  have "foldl (\<lambda>acc c. acc * 16 + hex_digit_val c) 0 (replicate k (CHR ''0'')) = 0" for k
    by (induction k) (simp_all add: hex_digit_val_def)
  then show ?thesis using hex_val_show [of n] by (simp add: hex_padded_def hex_val_def)
qed

lemma show_hex_length: "n < 16 ^ k \<Longrightarrow> 0 < k \<Longrightarrow> length (show_hex n) \<le> k"
proof (induction n arbitrary: k rule: show_hex.induct)
  case (1 n)
  show ?case
  proof (cases "n < 16")
    case True
    with "1.prems" show ?thesis by (simp add: show_hex.simps)
  next
    case False
    from "1.prems"(2) obtain j where k': "k = Suc j" by (cases k) auto
    with False "1.prems"(1) have "0 < j" by (cases j) auto
    with k' have k: "k = Suc j" "0 < j" by simp_all
    with "1.prems" have "n div 16 < 16 ^ j" by (simp add: less_mult_imp_div_less mult.commute)
    from "1.IH" [OF False this k(2)] k(1) False show ?thesis by (subst show_hex.simps) simp
  qed
qed

lemma hex_padded_length: "n < 16 ^ w \<Longrightarrow> 0 < w \<Longrightarrow> length (hex_padded w n) = w"
  using show_hex_length [of n w] by (simp add: hex_padded_def)

text \<open>Request ids are twelve characters, and differ while the counter has not gone round.\<close>

lemma reqid_counter_bound: "unat (ucast (and (c :: 64 word) 0xffff) :: 32 word) = unat c mod 65536"
proof -
  have "and c 0xffff = take_bit 16 c"
    by (simp add: take_bit_eq_mask mask_eq_exp_minus_1)
  then have "unat (ucast (and c 0xffff) :: 32 word) = take_bit 32 (take_bit 16 (unat c))"
    by (simp only: unsigned_ucast_eq unsigned_take_bit_eq) simp
  then show ?thesis by (simp add: take_bit_eq_mod)
qed

lemma gen_reqid_length: "length (fst (gen_reqid nanos c)) = 12"
proof -
  have "unat (ucast nanos :: 32 word) < 16 ^ 8" using unsigned_less [of "ucast nanos :: 32 word"] by simp
  then show ?thesis
    by (simp add: gen_reqid_def hex_padded_length reqid_counter_bound)
qed

lemma gen_reqid_distinct:
  assumes "unat c mod 65536 \<noteq> unat c' mod 65536"
  shows "fst (gen_reqid nanos c) \<noteq> fst (gen_reqid nanos' c')"
proof
  assume "fst (gen_reqid nanos c) = fst (gen_reqid nanos' c')"
  then have "hex_padded 4 (unat c mod 65536) = hex_padded 4 (unat c' mod 65536)"
    by (auto simp: gen_reqid_def reqid_counter_bound hex_padded_length dest!: append_eq_append_conv [THEN iffD1, rotated])
  then show False using assms by (metis hex_val_padded)
qed

text \<open>
  The ids drawn one after the other, \<open>nanos\<close> the readings of the clock; \<open>fetch_add\<close> wraps.
\<close>

fun gen_reqids :: "64 word list \<Rightarrow> 64 word \<Rightarrow> string list" where
  "gen_reqids [] counter = []"
| "gen_reqids (n # nanos) counter =
     (case gen_reqid n counter of (i, counter) \<Rightarrow> i # gen_reqids nanos counter)"

lemma counter_mod: "unat (c + of_nat i :: 64 word) mod 65536 = (unat c + i) mod 65536"
proof -
  have "unat (c + of_nat i :: 64 word) = (unat c + i) mod 2 ^ 64"
    by (simp add: unat_word_ariths unat_of_nat mod_simps)
  moreover have "(65536 :: nat) dvd 2 ^ 64" by simp
  ultimately show ?thesis by (simp only: mod_mod_cancel)
qed

lemma gen_reqids_nth:
  "i < length nanos \<Longrightarrow> gen_reqids nanos c ! i = fst (gen_reqid (nanos ! i) (c + of_nat i))"
proof (induction nanos arbitrary: c i)
  case (Cons n nanos)
  then show ?case by (cases i) (auto simp: gen_reqid_def add_ac)
qed simp

lemma gen_reqids_length [simp]: "length (gen_reqids nanos c) = length nanos"
  by (induction nanos arbitrary: c) (auto split: prod.splits)

text \<open>What the loop keeps of the span fields: the first of each name that the event does not have.\<close>

definition retained_ok :: "string list \<Rightarrow> span_fields \<Rightarrow> string list \<times> span_fields \<Rightarrow> bool" where
  "retained_ok base src acc \<longleftrightarrow>
     (case acc of (seen, ret) \<Rightarrow>
        seen = base @ map fst ret \<and> distinct (map fst ret) \<and> set (map fst ret) \<inter> set base = {}
        \<and> (\<forall>n. map_of ret n = (if n \<in> set base then None else map_of src n)))"

lemma retain_fields_ok:
  "retained_ok base src acc \<Longrightarrow> retained_ok base (src @ fs) (retain_fields fs acc)"
proof (induction fs acc arbitrary: src rule: retain_fields.induct)
  case (1 acc)
  then show ?case by simp
next
  case (2 n v fs seen retained)
  let ?acc = "if n \<in> set seen then (seen, retained) else (seen @ [n], retained @ [(n, v)])"
  have known: "n \<in> set seen \<longleftrightarrow> n \<in> set base \<or> map_of src n \<noteq> None"
    using "2.prems" map_of_eq_None_iff [of retained n]
    by (auto simp: retained_ok_def split: if_splits)
  have src: "([n \<mapsto> v] ++ map_of src) m = (if m = n \<and> map_of src n = None then Some v else map_of src m)" for m
    by (auto simp: map_add_def split: option.splits)
  have "retained_ok base (src @ [(n, v)]) ?acc"
  proof (cases "n \<in> set seen")
    case True
    with "2.prems" known show ?thesis by (auto simp: retained_ok_def src)
  next
    case False
    with "2.prems" known have "n \<notin> set base" "map_of src n = None" "map_of retained n = None"
      by (auto simp: retained_ok_def)
    with "2.prems" False show ?thesis
      by (auto simp: retained_ok_def src map_add_def fun_eq_iff split: option.splits)
  qed
  from "2.IH" [OF this] show ?case by simp
qed

definition scope_fields :: "log_span list \<Rightarrow> span_fields" where
  "scope_fields scope =
     concat (map (\<lambda>sp. unwrap_or [] (sp_fields sp)) (filter (\<lambda>sp. \<not> is_request_span sp) scope))"

lemma retain_scope_ok:
  "retained_ok base src acc \<Longrightarrow> retained_ok base (src @ scope_fields scope) (retain_scope scope acc)"
proof (induction scope arbitrary: src acc)
  case Nil
  then show ?case by (simp add: scope_fields_def)
next
  case (Cons sp scope)
  show ?case
  proof (cases "is_request_span sp \<or> sp_fields sp = None")
    case True
    then show ?thesis
      using Cons.IH [OF Cons.prems] by (cases "is_request_span sp") (simp_all add: scope_fields_def)
  next
    case False
    then obtain sf where sf: "sp_fields sp = Some sf" by auto
    from Cons.IH [OF retain_fields_ok [OF Cons.prems], of sf] False sf show ?thesis
      by (simp add: scope_fields_def)
  qed
qed

text \<open>The first span that has one.\<close>

definition first_some :: "(req_ctx \<Rightarrow> string option) \<Rightarrow> log_span list \<Rightarrow> string option" where
  "first_some get scope =
     (case List.map_filter (\<lambda>sp. Option.bind (sp_req sp) get) scope of [] \<Rightarrow> None | x # _ \<Rightarrow> Some x)"

lemma lookup_ctx_first:
  "lookup_ctx scope reqid actor =
     (if reqid = None then first_some rq_reqid scope else reqid,
      if actor = None then first_some rq_actor scope else actor)"
  by (induction scope reqid actor rule: lookup_ctx.induct)
    (auto simp: first_some_def map_filter_simps split: option.splits)

lemma request_span_ctx:
  "sp_req (set_actor a (request_span i)) = Some \<lparr>rq_reqid = Some i, rq_actor = Some a\<rparr>"
  "is_request_span (set_actor a (request_span i))"
  by (simp_all add: request_span_def set_actor_def on_new_span_def on_record_def req_visit_def req_set_def
      fixed_field_from_str_def fixed_field_str_def is_request_span_def)

lemma human_line_request:
  "lookup_ctx (set_actor a (request_span i) # outer) None None = (Some i, Some a)"
  "line_fields fs (set_actor a (request_span i) # outer) = line_fields fs outer"
  by (simp_all add: request_span_ctx lookup_ctx_first first_some_def map_filter_simps line_fields_def)

text \<open>The settings of a successful setup, and the variable a refused one names.\<close>

definition filter_text :: "deployment \<Rightarrow> string option \<Rightarrow> string" where
  "filter_text dep rust_log =
     (case rust_log of Some (ch # s) \<Rightarrow> ch # s | _ \<Rightarrow> if dep = Prod then ''info'' else ''debug'')"

lemma assemble_unfold:
  "assemble lp fmt dep rust_log lds =
     and_then (designators_parse (lp_level lp) lds) (\<lambda>ds.
       let cfg = \<lparr>lc_format = fmt, lc_deployment = dep, lc_filter = filter_text dep rust_log, lc_designators = ds\<rparr>
       in and_then (env_filter lp cfg) (\<lambda>_. Inr cfg))"
  by (auto simp: assemble_def filter_text_def Let_def split: option.splits list.splits deployment.splits)

lemma log_setup_Inr:
  assumes "log_setup lp dep env None = Inr g"
  shows "\<exists>fmt ds f. format_parse (env ''LOG_FORMAT'') = Inr fmt
    \<and> designators_parse (lp_level lp) (env ''LOG_DESIGNATORS'') = Inr ds
    \<and> lp_env lp (filter_text dep (env ''RUST_LOG'')) = Inr f
    \<and> g = Some \<lparr>su_format = fmt, su_env = f, su_designators = ds\<rparr>"
  using assms
  by (auto simp: log_setup_def log_from_env_def log_parse_def log_config_from_log_def assemble_unfold
      init_with_def env_filter_def install_subscriber_def result_simps Let_def LOG_FORMAT_VARIABLE_def
      LOG_DESIGNATORS_VARIABLE_def RUST_LOG_VARIABLE_def)

lemma designators_parse_Inl: "designators_parse lfs val = Inl r \<Longrightarrow> r_variable r = ''LOG_DESIGNATORS''"
  using parse_items_spec [of lfs "items_of (trim (the val))" no_designators]
  by (auto simp: designators_parse_def LOG_DESIGNATORS_VARIABLE_def split: option.splits if_splits)

lemma log_setup_Inl:
  assumes "log_setup lp dep env global = Inl r"
  shows "r_variable r \<in> {''LOG_FORMAT'', ''LOG_DESIGNATORS'', ''RUST_LOG''}"
  using assms
  by (auto simp: log_setup_def log_from_env_def log_parse_def log_config_from_log_def assemble_unfold
      init_with_def env_filter_def format_parse_def result_simps Let_def LOG_FORMAT_VARIABLE_def
      RUST_LOG_VARIABLE_def dest!: designators_parse_Inl split: option.splits)

lemma refusal_event_designator: "event_designator (le_fields (refusal_event r)) = Some ''startup''"
proof -
  have "list_all word_char (designator_str Startup)" by code_simp
  then have "event_designator (designated Startup fs) = Some ''startup''" if "FIELD \<notin> fst ` set fs" for fs
    using event_designator_designated [OF _ that, of Startup]
    by (simp add: designator_str_def designator_as_ref_def)
  then show ?thesis
    by (simp add: refusal_event_def designated_event_def into_designator_def event_designator_def
        read_field_def MESSAGE_def FIELD_def)
qed

section \<open>Properties\<close>

text \<open>The fields of a human line. The event's own fields come first, as they are; of the spans
  around it, request spans apart, each field name the event does not have is printed exactly once,
  with the value of the innermost span that has it; and the request id and the actor are those of
  the innermost span that has one.\<close>

theorem human_line_fields_once:
  "\<exists>extra. line_fields fs scope = re_fields (render_fields fs) @ extra
     \<and> distinct (map fst extra)
     \<and> (\<forall>n. map_of extra n = (if n \<in> fst ` set (re_fields (render_fields fs)) then None
            else map_of (scope_fields scope) n))
     \<and> lookup_ctx scope None None = (first_some rq_reqid scope, first_some rq_actor scope)"
proof -
  let ?own = "map fst (re_fields (render_fields fs))"
  have "retained_ok ?own ([] @ scope_fields scope) (retain_scope scope (?own, []))"
    by (rule retain_scope_ok) (simp add: retained_ok_def)
  then obtain seen ret where ret: "retain_scope scope (?own, []) = (seen, ret)" "distinct (map fst ret)"
    "\<forall>n. map_of ret n = (if n \<in> set ?own then None else map_of (scope_fields scope) n)"
    by (cases "retain_scope scope (?own, [])") (auto simp: retained_ok_def)
  have "map_of (rev ret) = map_of ret"
    using hash_of_distinct [OF ret(2)] by (simp add: hash_of_def)
  moreover have "distinct (map fst (rev ret))" using ret(2) by (simp add: rev_map [symmetric])
  ultimately show ?thesis
    using ret(1,3) by (intro exI [of _ "rev ret"]) (simp add: line_fields_def Let_def lookup_ctx_first)
qed

text \<open>C18: How a boot ends. Either the process runs, nothing is printed, and the installed subscriber
  (when none was) has the format of \<open>LOG_FORMAT\<close>, the filter of \<open>LOG_DESIGNATORS\<close> and the
  directives of \<open>RUST_LOG\<close>, or the deployment's default; or it ends with 0 and one printed text,
  for help or a printed config; or it ends with 1 and exactly one line, an unfiltered \<open>startup\<close>
  event at \<open>ERROR\<close>; or the config's load itself panicked.\<close>

theorem boot_settles:
  "case (boot_sealed lp dep loaded env None :: ('c, 'f) process \<times> boot_output list) of
     (Running c g, out) \<Rightarrow> out = [] \<and> loaded = Inr (OutConfig c)
       \<and> (\<exists>fmt ds f. format_parse (env ''LOG_FORMAT'') = Inr fmt
            \<and> designators_parse (lp_level lp) (env ''LOG_DESIGNATORS'') = Inr ds
            \<and> lp_env lp (filter_text (dep c) (env ''RUST_LOG'')) = Inr f
            \<and> g = Some \<lparr>su_format = fmt, su_env = f, su_designators = ds\<rparr>)
   | (Exited n, out) \<Rightarrow>
       (case out of
          [Printed t] \<Rightarrow> n = 0 \<and> loaded \<in> {Inr (OutHelp t), Inr (OutPrint t)}
        | [Unfiltered ev] \<Rightarrow> n = 1 \<and> le_level ev = ERROR \<and> event_designator (le_fields ev) = Some ''startup''
            \<and> (\<exists>r. ev = refusal_event r \<and> (loaded = Inl (Refused r)
                 \<or> r_variable r \<in> {''LOG_FORMAT'', ''LOG_DESIGNATORS'', ''RUST_LOG''}))
        | _ \<Rightarrow> False)
   | (Crashed m, out) \<Rightarrow> out = [] \<and> loaded = Inl (Panicked m)"
proof (cases "config_load loaded :: (('c, 'f) process \<times> boot_output list) + (refusal + 'c)")
  case (Inl early)
  then show ?thesis
    by (auto simp: boot_sealed_def config_load_def split: sum.splits fault.splits outcome.splits)
next
  case (Inr next_step)
  then have loaded: "(\<exists>r. next_step = Inl r \<and> loaded = Inl (Refused r))
      \<or> (\<exists>c. next_step = Inr c \<and> loaded = Inr (OutConfig c))"
    by (auto simp: config_load_def split: sum.splits fault.splits outcome.splits)
  have refused: "le_level (refusal_event r) = ERROR" for r
    by (simp add: refusal_event_def designated_event_def)
  show ?thesis
  proof (cases next_step)
    case (Inl r)
    with loaded \<open>config_load loaded = Inr next_step\<close> refused refusal_event_designator show ?thesis
      by (auto simp: boot_sealed_def refuse_def)
  next
    case (Inr c)
    with loaded \<open>config_load loaded = Inr next_step\<close>
    have c: "loaded = Inr (OutConfig c)"
      "boot_sealed lp dep loaded env None = (case log_setup lp (dep c) env None of
         Inl r \<Rightarrow> refuse r | Inr g \<Rightarrow> (Running c g, []))"
      by (auto simp: boot_sealed_def)
    show ?thesis
    proof (cases "log_setup lp (dep c) env None")
      case (Inl r)
      with c log_setup_Inl [OF Inl] refused refusal_event_designator show ?thesis
        by (auto simp: refuse_def)
    next
      case (Inr g)
      with c log_setup_Inr [OF Inr] show ?thesis by simp
    qed
  qed
qed


text \<open>C39: Request ids do not repeat among 65536 requests: of that many ids drawn one after the other,
  whatever the clock says at each and wherever the 64-bit counter stands, its wrap included, no two
  are equal, and each has twelve characters.\<close>

theorem request_ids_distinct:
  assumes "length nanos \<le> 65536"
  shows "distinct (gen_reqids nanos c) \<and> list_all (\<lambda>i. length i = 12) (gen_reqids nanos c)"
proof
  have "(unat c + i) mod 65536 \<noteq> (unat c + j) mod 65536" if "i < j" "j < 65536" for i j
  proof
    assume "(unat c + i) mod 65536 = (unat c + j) mod 65536"
    then have "65536 dvd j - i" using that mod_eq_dvd_iff_nat [of "unat c + i" "unat c + j" 65536] by simp
    with that show False by (auto dest: dvd_imp_le)
  qed
  then have "(unat c + i) mod 65536 \<noteq> (unat c + j) mod 65536" if "i \<noteq> j" "i < 65536" "j < 65536" for i j
    using that by (metis nat_neq_iff)
  then show "distinct (gen_reqids nanos c)"
    using assms unfolding distinct_conv_nth
    by (auto simp: gen_reqids_nth counter_mod intro!: gen_reqid_distinct)
  show "list_all (\<lambda>i. length i = 12) (gen_reqids nanos c)"
    by (auto simp: list_all_iff in_set_conv_nth gen_reqids_nth gen_reqid_length)
qed

theorem request_ids_distinct_witness:
  "gen_reqids [5, 5, 5] (- 1) ! 0 \<noteq> gen_reqids [5, 5, 5] (- 1) ! 1
   \<and> gen_reqids [5, 5, 5] (- 1) ! 1 \<noteq> gen_reqids [5, 5, 5] (- 1) ! 2"
proof -
  have "distinct (gen_reqids [5, 5, 5] (- 1))"
    using request_ids_distinct [of "[5, 5, 5]" "- 1"] by simp
  then show ?thesis
    unfolding distinct_conv_nth gen_reqids_length by (simp del: gen_reqids.simps)
qed

end
