(* ===== verification/Templating.thy ===== *)
theory Templating
  imports Config_Schema
begin

text \<open>
  \<open>crates/templating\<close>: the asset cache of \<open>lib.rs\<close>, the asset origin of \<open>assets_origin.rs\<close> and the
  page shell of \<open>render.rs\<close>; and the small pure functions of \<open>crates/theme\<close> and \<open>crates/ui-core\<close>.
  The file system is a state that other processes change: the calls on it are the record \<open>fs_ops\<close>,
  and each call of an operation sees the state of its own moment. SHA-256, serde and the template
  engine are parameters.
\<close>

section \<open>Paths and the file system\<close>

datatype component = RootDir | CurDir | ParentDir | Normal string

definition piece_component :: "bool \<Rightarrow> nat \<Rightarrow> string \<Rightarrow> component option" where
  "piece_component absolute i piece =
     (if piece = [] then None
      else if piece = ''.'' then (if i = 0 \<and> \<not> absolute then Some CurDir else None)
      else if piece = ''..'' then Some ParentDir
      else Some (Normal piece))"

definition path_components :: "string \<Rightarrow> component list" where
  "path_components p =
     (let absolute = starts_with p ''/''; pieces = split_char (CHR ''/'') p
      in (if absolute then [RootDir] else [])
         @ List.map_filter (\<lambda>(i, piece). piece_component absolute i piece) (enumerate 0 pieces))"

definition path_starts_with :: "string \<Rightarrow> string \<Rightarrow> bool" where
  "path_starts_with p base =
     (take (length (path_components base)) (path_components p) = path_components base)"

definition path_join :: "string \<Rightarrow> string \<Rightarrow> string" where
  "path_join base rel =
     (if starts_with rel ''/'' then rel
      else if base = [] \<or> ends_with base ''/'' then base @ rel
      else base @ ''/'' @ rel)"

datatype io_error = NotFound | OtherIo string

text \<open>An io error's text.\<close>

record 'fs fs_ops =
  fs_is_dir :: "'fs \<Rightarrow> string \<Rightarrow> bool"
  fs_canonicalize :: "'fs \<Rightarrow> string \<Rightarrow> io_error + string"
  fs_mtime :: "'fs \<Rightarrow> string \<Rightarrow> io_error + nat"
  fs_read :: "'fs \<Rightarrow> string \<Rightarrow> io_error + string"
  fs_error_text :: "io_error \<Rightarrow> string"

section \<open>The asset cache\<close>

datatype asset_error =
    BadDir string
  | Missing string
  | ParseFailed string string
  | PinMismatch string
  | IoFailed string string
  | RenderFailed string string
  | UnsafeName string

text \<open>The pins are a hash map: their order only decides which failure is reported first. The entries
  are \<open>None\<close> once the lock is poisoned.\<close>

type_synonym asset_entries = "(string \<Rightarrow> (nat \<times> string) option) option"

record asset_cache =
  ac_root :: string
  ac_canonical_root :: string
  ac_pins :: "(string \<times> string) list"

record asset_builder =
  ab_root :: string
  ab_pins :: "(string \<times> string) list"

definition asset_builder_new :: "string \<Rightarrow> asset_builder" where
  "asset_builder_new root = \<lparr>ab_root = root, ab_pins = []\<rparr>"

definition pin_asset :: "string \<Rightarrow> string \<Rightarrow> asset_builder \<Rightarrow> asset_builder" where
  "pin_asset name expected b =
     b\<lparr>ab_pins := (name, expected) # filter (\<lambda>(n, _). n \<noteq> name) (ab_pins b)\<rparr>"

definition safe_path :: "'fs fs_ops \<Rightarrow> 'fs \<Rightarrow> asset_cache \<Rightarrow> string \<Rightarrow> asset_error + string" where
  "safe_path ops fs c name =
     (if \<exists>comp \<in> set (path_components name). comp \<in> {RootDir, ParentDir} then Inl (UnsafeName name)
      else (case fs_canonicalize ops fs (path_join (ac_root c) name) of
              Inr real \<Rightarrow>
                if path_starts_with real (ac_canonical_root c) then Inr real else Inl (UnsafeName name)
            | Inl NotFound \<Rightarrow> Inl (Missing name)
            | Inl e \<Rightarrow> Inl (IoFailed name (fs_error_text ops e))))"

definition asset_io :: "'fs fs_ops \<Rightarrow> string \<Rightarrow> io_error \<Rightarrow> asset_error" where
  "asset_io ops name e =
     (case e of NotFound \<Rightarrow> Missing name | _ \<Rightarrow> IoFailed name (fs_error_text ops e))"

definition asset_mtime :: "'fs fs_ops \<Rightarrow> 'fs \<Rightarrow> string \<Rightarrow> string \<Rightarrow> asset_error + nat" where
  "asset_mtime ops fs path name = map_err (asset_io ops name) (fs_mtime ops fs path)"

definition read_verified ::
    "'fs fs_ops \<Rightarrow> (string \<Rightarrow> string) \<Rightarrow> 'fs \<Rightarrow> string \<Rightarrow> string \<Rightarrow> string option \<Rightarrow> asset_error + string" where
  "read_verified ops sha fs path name expected =
     and_then (map_err (asset_io ops name) (fs_read ops fs path)) (\<lambda>bytes.
       case expected of
         Some h \<Rightarrow> if sha bytes \<noteq> h then Inl (PinMismatch name) else Inr bytes
       | None \<Rightarrow> Inr bytes)"

text \<open>\<open>build\<close>, all its calls at one moment.\<close>

fun verify_pins ::
    "'fs fs_ops \<Rightarrow> (string \<Rightarrow> string) \<Rightarrow> 'fs \<Rightarrow> asset_cache \<Rightarrow> (string \<times> string) list
     \<Rightarrow> asset_error + unit" where
  "verify_pins ops sha fs c [] = Inr ()"
| "verify_pins ops sha fs c ((name, expected) # pins) =
     and_then (safe_path ops fs c name) (\<lambda>path.
     and_then (read_verified ops sha fs path name (Some expected)) (\<lambda>_.
       verify_pins ops sha fs c pins))"

definition asset_build ::
    "'fs fs_ops \<Rightarrow> (string \<Rightarrow> string) \<Rightarrow> 'fs \<Rightarrow> asset_builder
     \<Rightarrow> asset_error + asset_cache \<times> asset_entries" where
  "asset_build ops sha fs b =
     (if \<not> fs_is_dir ops fs (ab_root b) then Inl (BadDir (ab_root b))
      else and_then (map_err (\<lambda>e. IoFailed (ab_root b) (fs_error_text ops e))
              (fs_canonicalize ops fs (ab_root b))) (\<lambda>canonical.
        let c = \<lparr>ac_root = ab_root b, ac_canonical_root = canonical, ac_pins = ab_pins b\<rparr>
        in map_ok (\<lambda>_. (c, Some Map.empty)) (verify_pins ops sha fs c (ac_pins c))))"

text \<open>\<open>static_file\<close> up to the insertion: the canonical path, the modification time and the read each
  at its own moment, the entries as the read lock shows them. A hit inserts nothing.\<close>

datatype asset_lookup = Hit string | Loaded nat string

definition static_lookup ::
    "'fs fs_ops \<Rightarrow> (string \<Rightarrow> string) \<Rightarrow> asset_cache \<Rightarrow> 'fs \<Rightarrow> 'fs \<Rightarrow> 'fs \<Rightarrow> asset_entries \<Rightarrow> string
     \<Rightarrow> asset_error + asset_lookup" where
  "static_lookup ops sha c fs1 fs2 fs3 entries name =
     and_then (safe_path ops fs1 c name) (\<lambda>path.
     and_then (asset_mtime ops fs2 path name) (\<lambda>mtime.
       let load = map_ok (Loaded mtime) (read_verified ops sha fs3 path name (map_of (ac_pins c) name))
       in case Option.bind entries (\<lambda>es. es name) of
            Some (m, bytes) \<Rightarrow> if m = mtime then Inr (Hit bytes) else load
          | None \<Rightarrow> load))"

definition static_store :: "string \<Rightarrow> asset_lookup \<Rightarrow> asset_entries \<Rightarrow> asset_entries" where
  "static_store name r entries =
     (case r of
        Hit _ \<Rightarrow> entries
      | Loaded m bytes \<Rightarrow> map_option (\<lambda>es. es(name \<mapsto> (m, bytes))) entries)"

definition looked_up :: "asset_lookup \<Rightarrow> string" where
  "looked_up r = (case r of Hit bytes \<Rightarrow> bytes | Loaded _ bytes \<Rightarrow> bytes)"

text \<open>The operation without interruption: its answer and the entries after it.\<close>

definition static_file_of ::
    "'fs fs_ops \<Rightarrow> (string \<Rightarrow> string) \<Rightarrow> asset_cache \<Rightarrow> 'fs \<Rightarrow> 'fs \<Rightarrow> 'fs \<Rightarrow> string \<Rightarrow> asset_entries
     \<Rightarrow> (asset_error + string) \<times> asset_entries" where
  "static_file_of ops sha c fs1 fs2 fs3 name entries =
     (case static_lookup ops sha c fs1 fs2 fs3 entries name of
        Inl e \<Rightarrow> (Inl e, entries)
      | Inr r \<Rightarrow> (Inr (looked_up r), static_store name r entries))"

section \<open>The asset origin\<close>

definition ASSETS_ORIGIN :: string where
  "ASSETS_ORIGIN = ''ASSETS_ORIGIN''"

definition MARKER :: string where
  "MARKER = ''{{assets_origin}}''"

definition ACCEPTED_POLICY :: string where
  "ACCEPTED_POLICY =
     ''the `csp` field from the shell-markers.json you vendored, which contains {{assets_origin}} where the asset origin goes''"

definition ACCEPTED_ORIGIN :: string where
  "ACCEPTED_ORIGIN =
     ''an https origin and nothing else, such as '' @ debug_str ''https://assets.dev.local'' @ '' '' @ em_dash
     @ '' no path, no port, no trailing slash, no credentials''"

definition origin_char :: "char \<Rightarrow> bool" where
  "origin_char c \<longleftrightarrow> is_ascii_alnum c \<or> c = CHR ''.'' \<or> c = CHR ''-''"

definition origin_host :: "string \<Rightarrow> string + unit" where
  "origin_host host =
     (if host = [] then Inl ''no host after https://''
      else if ends_with host ''/'' \<or> CHR ''/'' \<in> set host then Inl ''a path or trailing slash is present''
      else if CHR ''@'' \<in> set host then Inl ''credentials are present''
      else if CHR '':'' \<in> set host then Inl ''a port is present''
      else if CHR ''?'' \<in> set host \<or> CHR ''#'' \<in> set host then Inl ''a query or fragment is present''
      else if \<not> list_all origin_char host
      then Inl ''the host has a character that is not a letter, digit, dot or hyphen''
      else Inr ())"

definition origin_parse :: "string option \<Rightarrow> deployment \<Rightarrow> refusal + string option" where
  "origin_parse val dep =
     (case val of
        Some (ch # rest) \<Rightarrow>
          (let t = ch # rest;
               refuse = (\<lambda>detail. with_detail (refusal_new ASSETS_ORIGIN t ACCEPTED_ORIGIN) detail)
           in case strip_prefix ''https://'' t of
                None \<Rightarrow> Inl (refuse ''must begin with https://'')
              | Some host \<Rightarrow> map_ok (\<lambda>_. Some t) (map_err refuse (origin_host host)))
      | _ \<Rightarrow>
          (case dep of
             Prod \<Rightarrow> Inl (with_detail (refusal_new ASSETS_ORIGIN '''' ACCEPTED_ORIGIN)
                 ''prod-required: unset is allowed only under DEPLOYMENT_TYPE=dev'')
           | Dev \<Rightarrow> Inr None))"

definition origin_from_env :: "(string \<Rightarrow> string option) \<Rightarrow> deployment \<Rightarrow> refusal + string option" where
  "origin_from_env env dep = origin_parse (env ASSETS_ORIGIN) dep"

definition origin_csp :: "string \<Rightarrow> string \<Rightarrow> refusal + string" where
  "origin_csp origin declared =
     (if \<not> contains MARKER declared
      then Inl (with_detail (refusal_new ''shell-markers.json#csp'' declared ACCEPTED_POLICY)
             (''no '' @ MARKER @ '' in the declared policy''))
      else Inr (replace_str MARKER origin declared))"

text \<open>\<open>csp_layer\<close>: the header the layer sets, \<open>header_ok\<close> saying which texts a header can carry.\<close>

definition csp_layer :: "(string \<Rightarrow> bool) \<Rightarrow> string \<Rightarrow> string \<Rightarrow> refusal + string \<times> string" where
  "csp_layer header_ok origin declared =
     and_then (origin_csp origin declared) (\<lambda>policy.
       if header_ok policy then Inr (''content-security-policy'', policy)
       else Inl (with_detail (refusal_new ''shell-markers.json#csp'' declared ACCEPTED_POLICY)
              ''the policy has a character a header value cannot carry''))"

section \<open>The page shell\<close>

definition SHELL_NAME :: string where
  "SHELL_NAME = ''shell''"

definition escape_block :: "string \<Rightarrow> string" where
  "escape_block json =
     replace_char (CHR ''&'') ([CHR 0x5C] @ ''u0026'')
       (replace_char (CHR ''>'') ([CHR 0x5C] @ ''u003e'')
          (replace_char (CHR ''<'') ([CHR 0x5C] @ ''u003c'') json))"

text \<open>\<open>to_json\<close> is serde's printer on the config.\<close>

definition json_for_script_block :: "('c \<Rightarrow> string + string) \<Rightarrow> 'c \<Rightarrow> asset_error + string" where
  "json_for_script_block to_json config =
     map_ok escape_block (map_err (\<lambda>e. RenderFailed SHELL_NAME (''config: '' @ e)) (to_json config))"

record 't template_ops =
  te_compile :: "string \<Rightarrow> string + 't"
  te_render :: "'t \<Rightarrow> (string \<times> string) list \<Rightarrow> string + string"

definition shell_compile :: "'t template_ops \<Rightarrow> string \<Rightarrow> asset_error + 't" where
  "shell_compile te shell = map_err (ParseFailed SHELL_NAME) (te_compile te shell)"

definition shell_render ::
    "'t template_ops \<Rightarrow> ('c \<Rightarrow> string + string) \<Rightarrow> 't \<Rightarrow> string \<Rightarrow> 'c \<Rightarrow> asset_error + string" where
  "shell_render te to_json t origin config =
     and_then (json_for_script_block to_json config) (\<lambda>block.
       map_err (RenderFailed SHELL_NAME)
         (te_render te t [(''assets_origin'', origin), (''config'', block)]))"

text \<open>\<open>render\<close>: \<open>Inl\<close> is the panic.\<close>

definition render_page ::
    "'t template_ops \<Rightarrow> ('c \<Rightarrow> string + string) \<Rightarrow> string \<Rightarrow> string \<Rightarrow> 'c \<Rightarrow> asset_error + string" where
  "render_page te to_json shell origin config =
     and_then (shell_compile te shell) (\<lambda>t. shell_render te to_json t origin config)"

section \<open>Themes and build markers\<close>

definition palette :: "(string \<times> string) list \<Rightarrow> string \<Rightarrow> string option" where
  "palette palettes name = map_option snd (find (\<lambda>(n, _). n = name) palettes)"

definition is_theme_version :: "string \<Rightarrow> bool" where
  "is_theme_version v \<longleftrightarrow> length v = 12
     \<and> (\<forall>b \<in> set v. is_ascii_digit b \<or> (let n = of_char b :: nat in 97 \<le> n \<and> n \<le> 102))"

definition is_theme_name :: "string \<Rightarrow> bool" where
  "is_theme_name n \<longleftrightarrow> 1 \<le> length n \<and> length n \<le> 40
     \<and> (\<forall>b \<in> set n. is_ascii_lower b \<or> is_ascii_digit b \<or> b = CHR ''-'')"

record ui_assets =
  ua_version :: string
  ua_sri_base :: string
  ua_sri_palette :: string
  ua_sri_elements :: string
  ua_sri_ui_js :: string
  ua_dts :: string

definition shared_markers :: "ui_assets \<Rightarrow> (string \<times> string) list" where
  "shared_markers ui =
     [(''prefix'', ''common-ui '' @ ua_version ui), (''sri_base_css'', ua_sri_base ui),
      (''sri_palette_css'', ua_sri_palette ui), (''sri_elements_css'', ua_sri_elements ui),
      (''sri_common_ui_js'', ua_sri_ui_js ui)]"

definition write_dts ::
    "(string \<Rightarrow> string \<Rightarrow> 'w \<Rightarrow> ('e + unit) \<times> 'w) \<Rightarrow> ui_assets \<Rightarrow> string \<Rightarrow> 'w \<Rightarrow> ('e + string) \<times> 'w" where
  "write_dts write_file ui out_dir w =
     (let path = path_join out_dir ''common-ui.d.ts''
      in case write_file path (ua_dts ui) w of
           (Inl e, w) \<Rightarrow> (Inl e, w)
         | (Inr _, w) \<Rightarrow> (Inr path, w))"

text \<open>\<open>stamp\<close>: the engine gets the values as a map, a later pair of a name replacing an earlier one;
  \<open>Inl\<close> is the panic that fails the build.\<close>

definition stamp ::
    "(string \<Rightarrow> string + 't) \<Rightarrow> ('t \<Rightarrow> (string \<Rightarrow> string option) \<Rightarrow> string + string) \<Rightarrow> string
     \<Rightarrow> (string \<times> string) list \<Rightarrow> string + string" where
  "stamp compile fill shell vals = and_then (compile shell) (\<lambda>t. fill t (hash_of vals))"

section \<open>Facts on the cache\<close>

text \<open>The entries any number of interleaved requests can leave: each looks up in some state and stores
  into a possibly later one.\<close>

inductive entries_reach :: "'fs fs_ops \<Rightarrow> (string \<Rightarrow> string) \<Rightarrow> asset_cache \<Rightarrow> asset_entries \<Rightarrow> bool"
  for ops sha c where
  start: "entries_reach ops sha c (Some Map.empty)"
| stored: "entries_reach ops sha c seen \<Longrightarrow> entries_reach ops sha c entries
    \<Longrightarrow> static_lookup ops sha c fs1 fs2 fs3 seen name = Inr r
    \<Longrightarrow> entries_reach ops sha c (static_store name r entries)"
| poisoned: "entries_reach ops sha c entries \<Longrightarrow> entries_reach ops sha c None"

text \<open>Where bytes served under a name may come from.\<close>

definition asset_vouched :: "'fs fs_ops \<Rightarrow> (string \<Rightarrow> string) \<Rightarrow> asset_cache \<Rightarrow> string \<Rightarrow> string \<Rightarrow> bool" where
  "asset_vouched ops sha c name bytes \<longleftrightarrow>
     RootDir \<notin> set (path_components name) \<and> ParentDir \<notin> set (path_components name)
     \<and> (\<exists>fs1 fs3 real. fs_canonicalize ops fs1 (path_join (ac_root c) name) = Inr real
          \<and> path_starts_with real (ac_canonical_root c) \<and> fs_read ops fs3 real = Inr bytes)
     \<and> (map_of (ac_pins c) name = None \<or> map_of (ac_pins c) name = Some (sha bytes))"

lemma safe_path_Inr:
  "safe_path ops fs c name = Inr real \<longleftrightarrow>
     RootDir \<notin> set (path_components name) \<and> ParentDir \<notin> set (path_components name)
     \<and> fs_canonicalize ops fs (path_join (ac_root c) name) = Inr real
     \<and> path_starts_with real (ac_canonical_root c)"
proof -
  have climbs: "(\<exists>comp \<in> cs. comp \<in> {RootDir, ParentDir}) = (RootDir \<in> cs \<or> ParentDir \<in> cs)" for cs
    by auto
  show ?thesis
  proof (cases "fs_canonicalize ops fs (path_join (ac_root c) name)")
    case (Inl e)
    then show ?thesis unfolding safe_path_def climbs by (cases e) simp_all
  next
    case (Inr real')
    then show ?thesis unfolding safe_path_def climbs by auto
  qed
qed

lemma read_verified_Inr:
  "read_verified ops sha fs path name expected = Inr bytes \<longleftrightarrow>
     fs_read ops fs path = Inr bytes \<and> (expected = None \<or> expected = Some (sha bytes))"
  by (cases "fs_read ops fs path"; cases expected) (auto simp: read_verified_def)

lemma static_lookup_vouched:
  assumes "static_lookup ops sha c fs1 fs2 fs3 entries name = Inr r"
    and "\<And>es m b. entries = Some es \<Longrightarrow> es name = Some (m, b) \<Longrightarrow> asset_vouched ops sha c name b"
  shows "asset_vouched ops sha c name (looked_up r)"
proof -
  from assms(1) obtain path mtime where p: "safe_path ops fs1 c name = Inr path"
    "asset_mtime ops fs2 path name = Inr mtime"
    by (auto simp: static_lookup_def result_simps)
  let ?load = "map_ok (Loaded mtime) (read_verified ops sha fs3 path name (map_of (ac_pins c) name))"
  have loaded: "asset_vouched ops sha c name (looked_up r)" if "?load = Inr r"
    using that p(1) by (auto simp: result_simps looked_up_def safe_path_Inr read_verified_Inr asset_vouched_def) blast+
  show ?thesis
  proof (cases "Option.bind entries (\<lambda>es. es name)")
    case None
    with assms(1) p have "?load = Inr r" by (simp add: static_lookup_def Let_def)
    then show ?thesis by (rule loaded)
  next
    case (Some entry)
    obtain m b where entry: "entry = (m, b)" by (cases entry)
    show ?thesis
    proof (cases "m = mtime")
      case True
      with assms(1) p Some entry have "r = Hit b" by (simp add: static_lookup_def Let_def)
      with Some entry assms(2) show ?thesis by (auto simp: bind_eq_Some_conv looked_up_def)
    next
      case False
      with assms(1) p Some entry have "?load = Inr r" by (simp add: static_lookup_def Let_def)
      then show ?thesis by (rule loaded)
    qed
  qed
qed

lemma entries_vouched:
  "entries_reach ops sha c entries \<Longrightarrow> entries = Some es \<Longrightarrow> es name = Some (m, b)
   \<Longrightarrow> asset_vouched ops sha c name b"
proof (induction arbitrary: es name m b rule: entries_reach.induct)
  case (stored seen entries fs1 fs2 fs3 n r)
  have "asset_vouched ops sha c n (looked_up r)"
    by (rule static_lookup_vouched [OF stored.hyps(3)]) (rule stored.IH(1))
  with stored.IH(2) stored.prems show ?case
    by (auto simp: static_store_def looked_up_def split: asset_lookup.splits if_splits)
qed auto

lemma verify_pins_Inr:
  "verify_pins ops sha fs c pins = Inr () \<longleftrightarrow>
     (\<forall>(name, h) \<in> set pins. \<exists>real bytes. safe_path ops fs c name = Inr real
        \<and> fs_read ops fs real = Inr bytes \<and> sha bytes = h)"
  by (induction ops sha fs c pins rule: verify_pins.induct) (auto simp: result_simps read_verified_Inr)

section \<open>JSON in a script block\<close>

text \<open>
  A reading of JSON texts that keeps what a parser sees: the characters between strings, and of
  each string its characters with the escapes decoded (\<open>\uXXXX\<close> above ASCII as its code unit).
  A \<open><\<close>, \<open>>\<close> or \<open>&\<close> outside a string is no JSON.
\<close>

datatype json_unit = Byte char | CodeUnit nat

datatype json_token = Punct char | StringLit "json_unit list"

definition hex_value :: "char \<Rightarrow> nat option" where
  "hex_value c =
     (let n = of_char c :: nat in
      if 48 \<le> n \<and> n \<le> 57 then Some (n - 48)
      else if 97 \<le> n \<and> n \<le> 102 then Some (n - 87)
      else if 65 \<le> n \<and> n \<le> 70 then Some (n - 55)
      else None)"

definition unit_of :: "nat \<Rightarrow> json_unit" where
  "unit_of n = (if n < 128 then Byte (char_of n) else CodeUnit n)"

definition simple_escape :: "char \<Rightarrow> json_unit option" where
  "simple_escape c =
     map_of [(CHR 0x22, Byte (CHR 0x22)), (CHR 0x5C, Byte (CHR 0x5C)), (CHR ''/'', Byte (CHR ''/'')),
       (CHR ''b'', Byte (CHR 0x08)), (CHR ''f'', Byte (CHR 0x0C)), (CHR ''n'', Byte (CHR 0x0A)),
       (CHR ''r'', Byte (CHR 0x0D)), (CHR ''t'', Byte (CHR 0x09))] c"

text \<open>The escape after a backslash: its unit and the rest.\<close>

definition read_escape :: "string \<Rightarrow> (json_unit \<times> string) option" where
  "read_escape s =
     (case s of
        [] \<Rightarrow> None
      | e # rest \<Rightarrow>
          if e = CHR ''u''
          then (case map hex_value (take 4 rest) of
                  [Some a, Some b, Some c, Some d] \<Rightarrow>
                    Some (unit_of (((a * 16 + b) * 16 + c) * 16 + d), drop 4 rest)
                | _ \<Rightarrow> None)
          else map_option (\<lambda>u. (u, rest)) (simple_escape e))"

definition markup :: "char \<Rightarrow> bool" where
  "markup c \<longleftrightarrow> c = CHR ''<'' \<or> c = CHR ''>'' \<or> c = CHR ''&''"

lemma read_escape_shorter: "read_escape s = Some (u, rest) \<Longrightarrow> length rest < length s"
  by (auto simp: read_escape_def split: list.splits option.splits if_splits)

function json_read :: "json_unit list option \<Rightarrow> string \<Rightarrow> json_token list option" where
  "json_read None [] = Some []"
| "json_read (Some acc) [] = None"
| "json_read None (c # cs) =
     (if c = CHR 0x22 then json_read (Some []) cs
      else if markup c then None
      else map_option (Cons (Punct c)) (json_read None cs))"
| "json_read (Some acc) (c # cs) =
     (if c = CHR 0x22 then map_option (Cons (StringLit acc)) (json_read None cs)
      else if c = CHR 0x5C
      then (case read_escape cs of
              None \<Rightarrow> None
            | Some (u, rest) \<Rightarrow> json_read (Some (acc @ [u])) rest)
      else json_read (Some (acc @ [Byte c])) cs)"
  by pat_completeness auto
termination
  by (relation "measure (\<lambda>(m, s). length s)") (auto dest: read_escape_shorter)

definition markup_escape :: "char \<Rightarrow> string" where
  "markup_escape c =
     (if c = CHR ''<'' then [CHR 0x5C] @ ''u003c''
      else if c = CHR ''>'' then [CHR 0x5C] @ ''u003e''
      else if c = CHR ''&'' then [CHR 0x5C] @ ''u0026''
      else [c])"

lemma escape_block_eq: "escape_block s = concat (map markup_escape s)"
  by (induction s) (auto simp: escape_block_def replace_char_def markup_escape_def)

lemma escape_no_markup: "c \<in> set (escape_block s) \<Longrightarrow> \<not> markup c"
  by (auto simp: escape_block_eq markup_escape_def markup_def split: if_splits)

lemma escape_id: "\<forall>c \<in> set s. \<not> markup c \<Longrightarrow> escape_block s = s"
  by (induction s) (auto simp: escape_block_eq markup_escape_def markup_def)

lemma escape_append [simp]: "escape_block (a @ b) = escape_block a @ escape_block b"
  by (simp add: escape_block_eq)

lemma read_escape_markup:
  "read_escape (drop 1 (markup_escape c) @ rest) = Some (Byte c, rest)" if "markup c"
proof -
  from that consider "c = CHR ''<''" | "c = CHR ''>''" | "c = CHR ''&''" by (auto simp: markup_def)
  moreover have "unit_of 60 = Byte (CHR ''<'')" "unit_of 62 = Byte (CHR ''>'')" "unit_of 38 = Byte (CHR ''&'')"
    by code_simp+
  ultimately show ?thesis
    by cases (simp_all add: markup_escape_def read_escape_def hex_value_def)
qed

text \<open>A decoded escape holds no markup character, so escaping what follows it changes nothing in it.\<close>

lemma read_escape_block:
  assumes "read_escape cs = Some (u, rest)"
  shows "read_escape (escape_block cs) = Some (u, escape_block rest)"
proof -
  from assms obtain e tl_cs where cs: "cs = e # tl_cs" by (cases cs) (auto simp: read_escape_def)
  have plain: "escape_block (x # xs) = x # escape_block xs" if "\<not> markup x" for x xs
    using that by (simp add: escape_block_eq markup_escape_def markup_def)
  show ?thesis
  proof (cases "e = CHR ''u''")
    case True
    with assms cs obtain a b c d where hex: "map hex_value (take 4 tl_cs) = [Some a, Some b, Some c, Some d]"
      and u: "u = unit_of (((a * 16 + b) * 16 + c) * 16 + d)" and rest: "rest = drop 4 tl_cs"
      by (auto simp: read_escape_def split: list.splits option.splits)
    obtain w x y z where q: "take 4 tl_cs = [w, x, y, z]" "hex_value w = Some a" "hex_value x = Some b"
      "hex_value y = Some c" "hex_value z = Some d"
      using hex by (auto simp: map_eq_Cons_conv)
    have no: "\<not> markup k" if "hex_value k = Some v" for k v
      using that by (auto simp: markup_def hex_value_def)
    have "tl_cs = [w, x, y, z] @ rest" using q(1) rest by (metis append_take_drop_id)
    moreover have "\<not> markup e" using True by (simp add: markup_def)
    ultimately have "escape_block cs = e # [w, x, y, z] @ escape_block rest"
      using no [OF q(2)] no [OF q(3)] no [OF q(4)] no [OF q(5)] by (simp add: cs plain)
    then show ?thesis using True q u by (simp add: read_escape_def)
  next
    case False
    with assms cs have e: "simple_escape e = Some u" "rest = tl_cs" by (auto simp: read_escape_def)
    then have "\<not> markup e" by (auto simp: simple_escape_def markup_def)
    with False e cs show ?thesis by (simp add: plain read_escape_def)
  qed
qed

lemma json_read_escape:
  "json_read m s \<noteq> None \<Longrightarrow> json_read m (escape_block s) = json_read m s"
proof (induction m s rule: json_read.induct)
  case (3 c cs)
  then have "escape_block (c # cs) = c # escape_block cs"
    by (auto simp: escape_block_eq markup_escape_def markup_def)
  with 3 show ?case by (auto split: if_splits)
next
  case (4 acc c cs)
  show ?case
  proof (cases "markup c")
    case True
    have "escape_block (c # cs) = CHR 0x5C # drop 1 (markup_escape c) @ escape_block cs"
      using True by (auto simp: escape_block_eq markup_escape_def markup_def)
    moreover have "c \<noteq> CHR 0x22" "c \<noteq> CHR 0x5C" using True by (auto simp: markup_def)
    ultimately show ?thesis using 4 read_escape_markup [OF True, of "escape_block cs"] by simp
  next
    case False
    then have esc: "escape_block (c # cs) = c # escape_block cs"
      by (auto simp: escape_block_eq markup_escape_def markup_def)
    show ?thesis
    proof (cases "c = CHR 0x5C")
      case True
      with "4.prems" obtain u rest where u: "read_escape cs = Some (u, rest)"
        by (auto split: option.splits)
      with True "4.IH"(2) "4.prems" esc read_escape_block [OF u] show ?thesis by simp
    next
      case not_esc: False
      with "4.IH"(1,3) "4.prems" esc show ?thesis by (cases "c = CHR 0x22") auto
    qed
  qed
qed (simp_all add: escape_block_eq)

lemma replace_str_chars: "set (replace_str pat r s) \<subseteq> set s \<union> set r"
proof (induction pat r s rule: replace_str.induct)
  case (2 pat r x xs)
  then show ?case by (auto dest: in_set_dropD split: if_splits) (metis Un_iff in_set_dropD set_ConsD subsetD)
qed simp

lemma strip_https: "strip_prefix ''https://'' t = Some host \<longleftrightarrow> t = ''https://'' @ host"
proof
  assume "strip_prefix ''https://'' t = Some host"
  then have "take 8 t = ''https://''" "host = drop 8 t"
    by (simp_all add: strip_prefix_def starts_with_def numeral_eq_Suc split: if_splits)
  then show "t = ''https://'' @ host" by (metis append_take_drop_id)
qed (simp add: strip_prefix_def starts_with_def)

lemma origin_host_Inr: "origin_host host = Inr x \<longleftrightarrow> host \<noteq> [] \<and> list_all origin_char host"
proof -
  have "\<not> origin_char (CHR ''/'')" "\<not> origin_char (CHR ''@'')" "\<not> origin_char (CHR '':'')"
    "\<not> origin_char (CHR ''?'')" "\<not> origin_char (CHR ''#'')"
    by code_simp+
  moreover have "CHR ''/'' \<in> set host" if "ends_with host ''/''"
  proof -
    from that have "''/'' = drop (length host - 1) host" by (simp add: ends_with_def)
    then show ?thesis by (metis in_set_dropD list.set_intros(1))
  qed
  ultimately show ?thesis by (auto simp: origin_host_def list_all_iff)
qed

section \<open>Properties\<close>

text \<open>C11: What the cache serves. Whatever the file system does between calls and however requests
  interleave, bytes served under a name are bytes some file held whose canonical path, resolved from
  that name, lay under the canonical root; the name has no root or parent component; and under a
  pinned name they hash to the pin, on a cache hit too.\<close>

theorem served_assets_pinned_and_confined:
  assumes "entries_reach ops sha c entries"
    and "static_lookup ops sha c fs1 fs2 fs3 entries name = Inr r"
  shows "set (path_components name) \<inter> {RootDir, ParentDir} = {}
    \<and> (\<exists>fs1 fs3 real. fs_canonicalize ops fs1 (path_join (ac_root c) name) = Inr real
         \<and> path_starts_with real (ac_canonical_root c) \<and> fs_read ops fs3 real = Inr (looked_up r))
    \<and> (case map_of (ac_pins c) name of None \<Rightarrow> True | Some h \<Rightarrow> sha (looked_up r) = h)"
proof -
  have "asset_vouched ops sha c name (looked_up r)"
    by (rule static_lookup_vouched [OF assms(2)]) (rule entries_vouched [OF assms(1)])
  then show ?thesis by (auto simp: asset_vouched_def)
qed

definition toy_fs :: "string fs_ops" where
  "toy_fs =
     \<lparr>fs_is_dir = (\<lambda>_ _. True), fs_canonicalize = (\<lambda>_ p. Inr p), fs_mtime = (\<lambda>_ _. Inr 1),
      fs_read = (\<lambda>content _. Inr content), fs_error_text = (\<lambda>_. '''')\<rparr>"

definition toy_cache :: asset_cache where
  "toy_cache = \<lparr>ac_root = ''/srv'', ac_canonical_root = ''/srv'', ac_pins = [(''a.js'', ''x'')]\<rparr>"

lemma toy_safe_path: "safe_path toy_fs content toy_cache ''a.js'' = Inr ''/srv/a.js''"
proof -
  have "set (path_components ''a.js'') \<inter> {RootDir, ParentDir} = {}" "path_join ''/srv'' ''a.js'' = ''/srv/a.js''"
    "path_starts_with ''/srv/a.js'' ''/srv''"
    by code_simp+
  then show ?thesis by (auto simp: safe_path_Inr toy_fs_def toy_cache_def)
qed

text \<open>Once a pinned file is cached, a later edit with the old modification time is not seen, and one
  read afresh is refused.\<close>

theorem served_assets_pinned_and_confined_witness:
  "static_lookup toy_fs (\<lambda>s. s) toy_cache ''x'' ''x'' ''evil'' (Some [''a.js'' \<mapsto> (1, ''x'')]) ''a.js'' = Inr (Hit ''x'')
   \<and> static_lookup toy_fs (\<lambda>s. s) toy_cache ''x'' ''x'' ''evil'' (Some Map.empty) ''a.js'' = Inl (PinMismatch ''a.js'')
   \<and> set (path_components ''a.js'') \<inter> {RootDir, ParentDir} = {}"
proof -
  have first: "static_lookup toy_fs (\<lambda>s. s) toy_cache ''x'' ''x'' ''x'' (Some Map.empty) ''a.js'' = Inr (Loaded 1 ''x'')"
    by (simp add: static_lookup_def toy_safe_path asset_mtime_def read_verified_def)
      (simp add: toy_fs_def toy_cache_def)
  from entries_reach.stored [OF entries_reach.start entries_reach.start first]
  have reach: "entries_reach toy_fs (\<lambda>s. s) toy_cache (Some [''a.js'' \<mapsto> (1, ''x'')])"
    by (simp add: static_store_def)
  have hit: "static_lookup toy_fs (\<lambda>s. s) toy_cache ''x'' ''x'' ''evil'' (Some [''a.js'' \<mapsto> (1, ''x'')]) ''a.js''
      = Inr (Hit ''x'')"
    by (simp add: static_lookup_def toy_safe_path asset_mtime_def) (simp add: toy_fs_def)
  have "static_lookup toy_fs (\<lambda>s. s) toy_cache ''x'' ''x'' ''evil'' (Some Map.empty) ''a.js'' = Inl (PinMismatch ''a.js'')"
    by (simp add: static_lookup_def toy_safe_path asset_mtime_def read_verified_def)
      (simp add: toy_fs_def toy_cache_def)
  with hit served_assets_pinned_and_confined [OF reach hit] show ?thesis by simp
qed

text \<open>C14: The config block cannot leave its script element. For a config serde prints as JSON, the block
  holds no \<open><\<close>, \<open>>\<close> or \<open>&\<close>, and reads as exactly the same JSON: the same punctuation and, string
  by string, the same decoded characters.\<close>

theorem script_block_closed_and_faithful:
  assumes "to_json config = Inr json" "json_read None json \<noteq> None"
  shows "\<exists>block. json_for_script_block to_json config = Inr block
    \<and> set block \<inter> {CHR ''<'', CHR ''>'', CHR ''&''} = {}
    \<and> json_read None block = json_read None json"
proof -
  have "json_for_script_block to_json config = Inr (escape_block json)"
    using assms(1) by (simp add: json_for_script_block_def)
  moreover have "set (escape_block json) \<inter> {CHR ''<'', CHR ''>'', CHR ''&''} = {}"
    using escape_no_markup [of _ json] by (auto simp: markup_def)
  ultimately show ?thesis using json_read_escape [OF assms(2)] by blast
qed

theorem script_block_closed_and_faithful_witness:
  "\<exists>block. json_for_script_block (\<lambda>_. Inr ([CHR 0x22] @ ''</'' @ [CHR 0x22])) () = Inr block
     \<and> json_read None block = Some [StringLit [Byte (CHR ''<''), Byte (CHR ''/'')]]"
proof -
  have "json_read None ([CHR 0x22] @ ''</'' @ [CHR 0x22]) = Some [StringLit [Byte (CHR ''<''), Byte (CHR ''/'')]]"
    by (simp add: markup_def)
  with script_block_closed_and_faithful [of "\<lambda>_. Inr ([CHR 0x22] @ ''</'' @ [CHR 0x22])" "()" "[CHR 0x22] @ ''</'' @ [CHR 0x22]"]
  show ?thesis by auto
qed

text \<open>C33: The asset origin is an https origin and adds nothing to the policy. A set value is accepted
  exactly when it is \<open>https://\<close> and a non-empty host of letters, digits, dots and hyphens, and
  taken as it is; an unset one is refused under prod; and the policy made from a declared one has
  no character that is neither in the declared policy nor in such an origin.\<close>

theorem assets_origin_confined:
  "(origin_parse val dep = Inr (Some t) \<longleftrightarrow>
      val = Some t \<and> (\<exists>host. t = ''https://'' @ host \<and> host \<noteq> [] \<and> list_all origin_char host))
   \<and> (origin_parse val dep = Inr None \<longleftrightarrow> (val = None \<or> val = Some []) \<and> dep = Dev)
   \<and> (case origin_csp t declared of
        Inl _ \<Rightarrow> \<not> contains MARKER declared
      | Inr policy \<Rightarrow> contains MARKER declared \<and> set policy \<subseteq> set declared \<union> set t)"
proof (intro conjI)
  show "origin_parse val dep = Inr (Some t) \<longleftrightarrow>
      val = Some t \<and> (\<exists>host. t = ''https://'' @ host \<and> host \<noteq> [] \<and> list_all origin_char host)"
  proof (cases "val = None \<or> val = Some []")
    case True
    then show ?thesis by (auto simp: origin_parse_def split: deployment.splits)
  next
    case False
    then obtain s where s: "val = Some s" "s \<noteq> []" by auto
    then obtain ch rest where "s = ch # rest" by (cases s) auto
    with s have "origin_parse val dep = Inr (Some t) \<longleftrightarrow>
        (\<exists>host. strip_prefix ''https://'' s = Some host \<and> origin_host host = Inr () \<and> t = s)"
      by (auto simp: origin_parse_def Let_def result_simps split: option.splits)
    then show ?thesis unfolding strip_https origin_host_Inr using s by auto
  qed
  show "origin_parse val dep = Inr None \<longleftrightarrow> (val = None \<or> val = Some []) \<and> dep = Dev"
    by (auto simp: origin_parse_def Let_def result_simps split: option.splits list.splits deployment.splits)
  show "case origin_csp t declared of
        Inl _ \<Rightarrow> \<not> contains MARKER declared
      | Inr policy \<Rightarrow> contains MARKER declared \<and> set policy \<subseteq> set declared \<union> set t"
    using replace_str_chars [of MARKER t declared] by (simp add: origin_csp_def)
qed

end
